(* ===== verification/Prelude.thy ===== *)
theory Prelude
  imports Main "HOL-Library.Word" "HOL-Library.Char_ord" "HOL-Library.List_Lexorder"
    "HOL-Library.Multiset" "HOL-Library.Sublist"
begin

text \<open>
  Shared vocabulary of the development: the types every component uses, the
  Go helpers (strings, integers at their width, results) that several of
  them call, and the generic lemmas their proofs share.

  Go strings are byte sequences and are modelled as HOL \<open>string\<close>s (lists of
  8-bit characters, so the order of strings is the order of Go's \<open><\<close>).
  Instants are integers counting nanoseconds with 0 for the zero
  \<open>time.Time\<close>, so \<open>IsZero\<close> is equality with 0.  A fallible function
  returns \<open>'e + 'a\<close>: \<open>Inl\<close> the error, \<open>Inr\<close> the value.
\<close>

section \<open>Collections of facts\<close>

named_theorems dest_facts \<open>the destination state machine\<close>
named_theorems lookup_facts \<open>laws of association lists\<close>
named_theorems res_facts \<open>results that may be errors\<close>

section \<open>Types\<close>

type_synonym instant = int
type_synonym bytes = "8 word list"

section \<open>Results\<close>

definition res_bind :: "'e + 'a \<Rightarrow> ('a \<Rightarrow> 'e + 'b) \<Rightarrow> 'e + 'b" where
  "res_bind r f = (case r of Inl e \<Rightarrow> Inl e | Inr a \<Rightarrow> f a)"

lemma res_bind_simps [simp, res_facts]:
  "res_bind (Inl e) f = Inl e"
  "res_bind (Inr a) f = f a"
  by (simp_all add: res_bind_def)

lemma res_bind_Inr_iff [res_facts]:
  "res_bind r f = Inr b \<longleftrightarrow> (\<exists>a. r = Inr a \<and> f a = Inr b)"
  by (cases r) simp_all

lemma res_bind_Inl_iff [res_facts]:
  "res_bind r f = Inl e \<longleftrightarrow> r = Inl e \<or> (\<exists>a. r = Inr a \<and> f a = Inl e)"
  by (cases r) simp_all

section \<open>Integers at their width\<close>

text \<open>The value of an \<open>int64\<close> result of an exact computation \<open>n\<close>.\<close>

definition wrap64 :: "int \<Rightarrow> int" where
  "wrap64 n = (n + 2 ^ 63) mod 2 ^ 64 - 2 ^ 63"

lemma wrap64_id: "- (2 ^ 63) \<le> n \<Longrightarrow> n < 2 ^ 63 \<Longrightarrow> wrap64 n = n"
  by (simp add: wrap64_def)

lemma wrap64_range: "- (2 ^ 63) \<le> wrap64 n \<and> wrap64 n < 2 ^ 63"
  by (simp add: wrap64_def)

section \<open>Strings\<close>

text \<open>ASCII case folding and trimming: \<open>strings.ToLower\<close>, \<open>ToUpper\<close> and
  \<open>TrimSpace\<close> on the ASCII range, which is what the code passes them.\<close>

definition lower_char :: "char \<Rightarrow> char" where
  "lower_char c = (if 65 \<le> (of_char c :: nat) \<and> (of_char c :: nat) \<le> 90
    then char_of ((of_char c :: nat) + 32) else c)"

definition to_lower :: "string \<Rightarrow> string" where
  "to_lower s = map lower_char s"

definition is_space :: "char \<Rightarrow> bool" where
  "is_space c = ((of_char c :: nat) \<in> {9, 10, 11, 12, 13, 32})"

definition trim_space :: "string \<Rightarrow> string" where
  "trim_space s = rev (dropWhile is_space (rev (dropWhile is_space s)))"

definition is_digit :: "char \<Rightarrow> bool" where
  "is_digit c = (48 \<le> (of_char c :: nat) \<and> (of_char c :: nat) \<le> 57)"

definition has_prefix :: "string \<Rightarrow> string \<Rightarrow> bool" where
  "has_prefix s p = (take (length p) s = p)"

definition has_suffix :: "string \<Rightarrow> string \<Rightarrow> bool" where
  "has_suffix s p = (length p \<le> length s \<and> drop (length s - length p) s = p)"

lemma lower_char_idem [simp]: "lower_char (lower_char c) = lower_char c"
proof (cases "65 \<le> (of_char c :: nat) \<and> (of_char c :: nat) \<le> 90")
  case True
  have "(of_char c :: nat) + 32 < 256"
    using True by simp
  then have "(of_char (char_of ((of_char c :: nat) + 32) :: char) :: nat) = of_char c + 32"
    by (simp add: of_char_of)
  then show ?thesis
    using True by (simp add: lower_char_def)
next
  case False
  then show ?thesis
    by (auto simp add: lower_char_def)
qed

lemma to_lower_idem [simp]: "to_lower (to_lower s) = to_lower s"
  by (simp add: to_lower_def)

lemma to_lower_simps [simp]:
  "to_lower [] = []"
  "to_lower (c # s) = lower_char c # to_lower s"
  "length (to_lower s) = length s"
  by (simp_all add: to_lower_def)

text \<open>Strings as the bytes they are, and lowercase hexadecimal
  (\<open>hex.EncodeToString\<close>).\<close>

definition byte_of_char :: "char \<Rightarrow> 8 word" where
  "byte_of_char c = word_of_nat (of_char c)"

definition bytes_of :: "string \<Rightarrow> bytes" where
  "bytes_of s = map byte_of_char s"

definition hex_digit :: "nat \<Rightarrow> char" where
  "hex_digit n = (if n < 10 then char_of (48 + n) else char_of (87 + n))"

definition hex_encode :: "bytes \<Rightarrow> string" where
  "hex_encode bs = concat (map (\<lambda>b. [hex_digit (unat b div 16), hex_digit (unat b mod 16)]) bs)"

lemma byte_of_char_inj: "byte_of_char c = byte_of_char d \<longleftrightarrow> c = d"
proof
  assume "byte_of_char c = byte_of_char d"
  then have "unat (word_of_nat (of_char c) :: 8 word) = unat (word_of_nat (of_char d) :: 8 word)"
    by (simp add: byte_of_char_def)
  moreover have "(of_char c :: nat) < 256" "(of_char d :: nat) < 256"
    by simp_all
  ultimately have "(of_char c :: nat) = of_char d"
    by (simp add: unat_of_nat take_bit_nat_eq_self)
  then show "c = d"
    by (simp add: of_char_eq_iff)
qed simp

lemma bytes_of_inj: "bytes_of s = bytes_of t \<longleftrightarrow> s = t"
  by (simp add: bytes_of_def inj_map_eq_map inj_def byte_of_char_inj)

lemma length_bytes_of [simp]: "length (bytes_of s) = length s"
  by (simp add: bytes_of_def)

lemma bytes_of_append: "bytes_of (s @ t) = bytes_of s @ bytes_of t"
  by (simp add: bytes_of_def)

lemma length_hex_encode [simp]: "length (hex_encode bs) = 2 * length bs"
  by (induction bs) (simp_all add: hex_encode_def)

lemma hex_encode_Nil_iff [simp]: "hex_encode bs = [] \<longleftrightarrow> bs = []"
  by (cases bs) (simp_all add: hex_encode_def)

lemma byte_less: "unat (b :: 8 word) < 256"
  using unsigned_less [of b, where ?'a = nat] by simp

lemma hex_digit_lower: "n < 16 \<Longrightarrow> lower_char (hex_digit n) = hex_digit n"
  by (simp add: hex_digit_def lower_char_def of_char_of)

lemma to_lower_hex [simp]: "to_lower (hex_encode bs) = hex_encode bs"
proof (induction bs)
  case (Cons b bs)
  have "unat b div 16 < 16" "unat b mod 16 < 16"
    using byte_less [of b] by (simp_all add: less_mult_imp_div_less)
  then show ?case
    using Cons by (simp add: hex_encode_def hex_digit_lower)
qed (simp add: hex_encode_def)

lemma has_prefix_iff: "has_prefix s p \<longleftrightarrow> (\<exists>r. s = p @ r)"
  unfolding has_prefix_def by (metis append_eq_conv_conj append_take_drop_id)

text \<open>\<open>strings.Split\<close> on one character: the pieces between its occurrences.\<close>

fun split_char :: "char \<Rightarrow> string \<Rightarrow> string list" where
  "split_char c [] = [[]]"
| "split_char c (x # s) =
     (if x = c then [] # split_char c s
      else case split_char c s of [] \<Rightarrow> [[x]] | p # ps \<Rightarrow> (x # p) # ps)"

lemma split_char_nonempty [simp]: "split_char c s \<noteq> []"
  by (induction s) (auto split: list.splits)

lemma split_char_pieces: "p \<in> set (split_char c s) \<Longrightarrow> c \<notin> set p"
proof (induction s arbitrary: p)
  case (Cons x s)
  obtain q qs where q: "split_char c s = q # qs"
    by (cases "split_char c s") auto
  then show ?case
    using Cons by (auto split: if_splits)
qed simp

section \<open>Paths\<close>

text \<open>A clean absolute path is the list of its components; \<open>clean_onto\<close> is the
  lexical cleaning of \<open>path/filepath\<close> applied to further components.\<close>

type_synonym path = "string list"

definition clean_step :: "path \<Rightarrow> string \<Rightarrow> path" where
  "clean_step p c =
     (if c = '''' \<or> c = ''.'' then p
      else if c = ''..'' then butlast p
      else p @ [c])"

definition clean_onto :: "path \<Rightarrow> string list \<Rightarrow> path" where
  "clean_onto root cs = foldl clean_step root cs"

text \<open>\<open>filepath.Rel\<close> of two clean absolute paths.\<close>

fun path_rel :: "path \<Rightarrow> path \<Rightarrow> string list" where
  "path_rel (b # bs) (t # ts) =
     (if b = t then path_rel bs ts else map (\<lambda>_. ''..'') (b # bs) @ t # ts)"
| "path_rel bs ts = map (\<lambda>_. ''..'') bs @ ts"

definition clean_path :: "path \<Rightarrow> bool" where
  "clean_path p = list_all (\<lambda>c. c \<noteq> '''' \<and> c \<noteq> ''.'' \<and> c \<noteq> ''..'' \<and> CHR ''/'' \<notin> set c) p"

lemma clean_step_clean:
  "clean_path p \<Longrightarrow> CHR ''/'' \<notin> set c \<Longrightarrow> clean_path (clean_step p c)"
  by (auto simp add: clean_step_def clean_path_def list_all_iff dest: in_set_butlastD)

lemma clean_onto_clean:
  "clean_path p \<Longrightarrow> \<forall>c \<in> set cs. CHR ''/'' \<notin> set c \<Longrightarrow> clean_path (clean_onto p cs)"
  unfolding clean_onto_def by (induction cs arbitrary: p) (simp_all add: clean_step_clean)

section \<open>Lists\<close>

text \<open>Consecutive elements related: the shape of a journal or a path.\<close>

fun chain :: "('a \<Rightarrow> 'a \<Rightarrow> bool) \<Rightarrow> 'a list \<Rightarrow> bool" where
  "chain R [] = True"
| "chain R [x] = True"
| "chain R (x # y # zs) = (R x y \<and> chain R (y # zs))"

lemma chain_snoc:
  "chain R (xs @ [y]) \<longleftrightarrow> chain R xs \<and> (xs \<noteq> [] \<longrightarrow> R (last xs) y)"
proof (induction xs)
  case (Cons a xs)
  then show ?case
    by (cases xs) auto
qed simp

lemma chain_append:
  "chain R (xs @ ys) \<longleftrightarrow>
    chain R xs \<and> chain R ys \<and> (xs \<noteq> [] \<and> ys \<noteq> [] \<longrightarrow> R (last xs) (hd ys))"
proof (induction xs)
  case (Cons a xs)
  then show ?case
    by (cases xs; cases ys) auto
qed simp

lemma chain_mono: "chain R xs \<Longrightarrow> (\<And>x y. R x y \<Longrightarrow> S x y) \<Longrightarrow> chain S xs"
  by (induction R xs rule: chain.induct) auto

text \<open>The last element of a journal, the zero value when there is none.\<close>

definition last_opt :: "'a list \<Rightarrow> 'a option" where
  "last_opt xs = (if xs = [] then None else Some (last xs))"

lemma last_opt_simps [simp]:
  "last_opt [] = None"
  "last_opt (xs @ [x]) = Some x"
  by (simp_all add: last_opt_def)

lemma last_opt_Some: "last_opt xs = Some x \<longleftrightarrow> (\<exists>ys. xs = ys @ [x])"
  by (cases xs rule: rev_cases) auto

section \<open>Association lists\<close>

text \<open>Go maps and keyed database tables, where the code ranges over them.\<close>

fun al_put :: "'k \<Rightarrow> 'v \<Rightarrow> ('k \<times> 'v) list \<Rightarrow> ('k \<times> 'v) list" where
  "al_put k v [] = [(k, v)]"
| "al_put k v ((k', v') # m) = (if k = k' then (k, v) # m else (k', v') # al_put k v m)"

lemma al_put_lookup [simp, lookup_facts]:
  "map_of (al_put k v m) = (map_of m)(k \<mapsto> v)"
  by (induction k v m rule: al_put.induct) auto

lemma al_put_keys: "fst ` set (al_put k v m) = insert k (fst ` set m)"
  by (induction k v m rule: al_put.induct) auto

lemma al_put_distinct: "distinct (map fst m) \<Longrightarrow> distinct (map fst (al_put k v m))"
  by (induction k v m rule: al_put.induct) (auto simp add: al_put_keys)

end
