(* ===== verification/DestState.thy ===== *)
theory DestState
  imports Prelude
begin

text \<open>
  The receiving side's destination state machine, \<open>src/protocol/destination.go\<close>:
  the states (a Go string type, so a value outside the constants is
  \<open>StateOther\<close>), the transition table, the quarantine override and the checked
  \<open>Transition\<close>.  Below them, the step relation and the shape of every path
  that makes an item a source.
\<close>

section \<open>States and modes\<close>

datatype DestinationState =
    StateReceiving
  | StateVerifiedInStaging
  | StateUploadingToRomm
  | StatePublishedToFilesystem
  | StateAwaitingRommIngestion
  | StateRommMatched
  | StateSourceActive
  | StateCancelled
  | StateVerificationConflict
  | StateRommUnmatched
  | StateIngestionTimeout
  | StateQuarantined
  | StateOther string

datatype DestinationMode = ModeAPIOnly | ModeFilesystemPublication | ModeOther string

definition dmode_valid :: "DestinationMode \<Rightarrow> bool" where
  "dmode_valid m = (m = ModeAPIOnly \<or> m = ModeFilesystemPublication)"

section \<open>The table and its readers\<close>

text \<open>\<open>None\<close> is a key the Go map does not have.\<close>

fun transitions :: "DestinationState \<Rightarrow> DestinationState list option" where
  "transitions StateReceiving =
     Some [StateVerifiedInStaging, StateVerificationConflict, StateCancelled]"
| "transitions StateVerifiedInStaging =
     Some [StateUploadingToRomm, StatePublishedToFilesystem, StateCancelled]"
| "transitions StateUploadingToRomm =
     Some [StateAwaitingRommIngestion, StateVerificationConflict]"
| "transitions StatePublishedToFilesystem = Some [StateAwaitingRommIngestion]"
| "transitions StateAwaitingRommIngestion =
     Some [StateRommMatched, StateRommUnmatched, StateIngestionTimeout]"
| "transitions StateRommMatched = Some [StateSourceActive]"
| "transitions StateSourceActive = Some []"
| "transitions StateCancelled = Some []"
| "transitions StateVerificationConflict = Some []"
| "transitions StateRommUnmatched = Some []"
| "transitions StateIngestionTimeout = Some []"
| "transitions StateQuarantined = Some []"
| "transitions (StateOther s) = None"

definition quarantinableFrom :: "DestinationState \<Rightarrow> bool" where
  "quarantinableFrom s = (s \<in> {StateReceiving, StateVerifiedInStaging, StateUploadingToRomm,
     StatePublishedToFilesystem, StateAwaitingRommIngestion, StateRommMatched, StateSourceActive})"

definition Known :: "DestinationState \<Rightarrow> bool" where
  "Known s = (transitions s \<noteq> None)"

definition Terminal :: "DestinationState \<Rightarrow> bool" where
  "Terminal s = (case transitions s of None \<Rightarrow> False | Some ns \<Rightarrow> length ns = 0)"

fun NeedsReview :: "DestinationState \<Rightarrow> bool" where
  "NeedsReview StateVerificationConflict = True"
| "NeedsReview StateRommUnmatched = True"
| "NeedsReview StateIngestionTimeout = True"
| "NeedsReview StateQuarantined = True"
| "NeedsReview _ = False"

definition IsSource :: "DestinationState \<Rightarrow> bool" where
  "IsSource s = (s = StateSourceActive)"

definition CountsTowardCoverage :: "DestinationState \<Rightarrow> bool" where
  "CountsTowardCoverage s = (s = StateSourceActive)"

definition CanTransition :: "DestinationState \<Rightarrow> DestinationState \<Rightarrow> bool" where
  "CanTransition src to =
     (if to = StateQuarantined then quarantinableFrom src
      else case transitions src of None \<Rightarrow> False | Some ns \<Rightarrow> to \<in> set ns)"

datatype transition_error =
    UnknownSource DestinationState
  | UnknownTarget DestinationState
  | IllegalMove DestinationState DestinationState

definition Transition :: "DestinationState \<Rightarrow> DestinationState \<Rightarrow> transition_error option" where
  "Transition src to =
     (if \<not> Known src then Some (UnknownSource src)
      else if \<not> Known to then Some (UnknownTarget to)
      else if \<not> CanTransition src to then Some (IllegalMove src to)
      else None)"

fun HandOffState :: "DestinationMode \<Rightarrow> DestinationMode + DestinationState" where
  "HandOffState ModeAPIOnly = Inr StateUploadingToRomm"
| "HandOffState ModeFilesystemPublication = Inr StatePublishedToFilesystem"
| "HandOffState (ModeOther m) = Inl (ModeOther m)"

text \<open>The two durations the file fixes, in nanoseconds.\<close>

definition DefaultIngestionTimeout :: int where
  "DefaultIngestionTimeout = 30 * 60 * 1000000000"

definition IngestionPollInterval :: int where
  "IngestionPollInterval = 15 * 1000000000"

section \<open>The step relation\<close>

inductive dest_step :: "DestinationState \<Rightarrow> DestinationState \<Rightarrow> bool" where
  legal: "Transition s t = None \<Longrightarrow> dest_step s t"

inductive_simps dest_step_simps [dest_facts]: "dest_step s t"

lemma Transition_None_iff:
  "Transition s t = None \<longleftrightarrow> Known s \<and> Known t \<and> CanTransition s t"
  by (simp add: Transition_def)

lemma Known_iff: "Known s \<longleftrightarrow> (\<forall>n. s \<noteq> StateOther n)"
  by (cases s) (simp_all add: Known_def)

lemma CanTransition_Known: "CanTransition s t \<Longrightarrow> Known s \<and> Known t"
  by (cases s; cases t) (auto simp add: CanTransition_def Known_def quarantinableFrom_def)

lemma dest_step_iff: "dest_step s t \<longleftrightarrow> CanTransition s t"
  using CanTransition_Known by (auto simp add: dest_step_simps Transition_None_iff)

text \<open>Predecessors of each state on the path to \<open>source_active\<close>.\<close>

lemma pred_source: "dest_step s StateSourceActive \<longleftrightarrow> s = StateRommMatched"
  by (cases s) (simp_all add: dest_step_iff CanTransition_def)

lemma pred_matched: "dest_step s StateRommMatched \<longleftrightarrow> s = StateAwaitingRommIngestion"
  by (cases s) (simp_all add: dest_step_iff CanTransition_def)

lemma pred_awaiting:
  "dest_step s StateAwaitingRommIngestion \<longleftrightarrow>
    s = StateUploadingToRomm \<or> s = StatePublishedToFilesystem"
  by (cases s) (simp_all add: dest_step_iff CanTransition_def)

lemma pred_uploading: "dest_step s StateUploadingToRomm \<longleftrightarrow> s = StateVerifiedInStaging"
  by (cases s) (simp_all add: dest_step_iff CanTransition_def)

lemma pred_published: "dest_step s StatePublishedToFilesystem \<longleftrightarrow> s = StateVerifiedInStaging"
  by (cases s) (simp_all add: dest_step_iff CanTransition_def)

lemma pred_verified: "dest_step s StateVerifiedInStaging \<longleftrightarrow> s = StateReceiving"
  by (cases s) (simp_all add: dest_step_iff CanTransition_def)

lemma pred_receiving: "\<not> dest_step s StateReceiving"
  by (cases s) (simp_all add: dest_step_iff CanTransition_def)

lemma pred_cancelled:
  "dest_step s StateCancelled \<longleftrightarrow> s = StateReceiving \<or> s = StateVerifiedInStaging"
  by (cases s) (simp_all add: dest_step_iff CanTransition_def)

lemmas pred_facts = pred_source pred_matched pred_awaiting pred_uploading pred_published
  pred_verified pred_receiving pred_cancelled

text \<open>A legal path is a list of states with a legal move between neighbours.\<close>

definition dest_path :: "DestinationState list \<Rightarrow> bool" where
  "dest_path = chain (\<lambda>s t. Transition s t = None)"

lemma dest_path_step: "dest_path = chain dest_step"
proof -
  have "dest_step = (\<lambda>s t. Transition s t = None)"
    by (intro ext) (simp add: dest_step_simps)
  then show ?thesis
    by (simp add: dest_path_def)
qed

lemma dest_path_snoc2:
  "dest_path (ss @ [s, t]) \<longleftrightarrow> dest_path (ss @ [s]) \<and> dest_step s t"
  using chain_snoc [of dest_step "ss @ [s]" t] by (simp add: dest_path_step)

text \<open>The rank of a state falls along every legal move, so no path is long.\<close>

fun dest_rank :: "DestinationState \<Rightarrow> nat" where
  "dest_rank StateReceiving = 6"
| "dest_rank StateVerifiedInStaging = 5"
| "dest_rank StateUploadingToRomm = 4"
| "dest_rank StatePublishedToFilesystem = 4"
| "dest_rank StateAwaitingRommIngestion = 3"
| "dest_rank StateRommMatched = 2"
| "dest_rank StateSourceActive = 1"
| "dest_rank _ = 0"

lemma dest_step_rank: "dest_step s t \<Longrightarrow> dest_rank t < dest_rank s"
  by (cases s; cases t) (simp_all add: dest_step_iff CanTransition_def quarantinableFrom_def)

lemma dest_rank_le: "dest_rank s \<le> 6"
  by (cases s) simp_all

lemma dest_path_rank:
  "dest_path (s # ss) \<Longrightarrow> length ss \<le> dest_rank s \<and>
    (\<forall>t \<in> set ss. dest_rank t < dest_rank s)"
proof (induction ss arbitrary: s)
  case (Cons t ss)
  then have "dest_step s t" "dest_path (t # ss)"
    by (simp_all add: dest_path_step)
  then show ?case
    using Cons.IH [of t] dest_step_rank [of s t] by fastforce
qed simp

lemma dest_path_distinct_aux: "dest_path ss \<Longrightarrow> distinct ss"
proof (induction ss)
  case (Cons s ss)
  then have "dest_path ss"
    by (cases ss) (simp_all add: dest_path_def)
  then show ?case
    using Cons.IH dest_path_rank [OF Cons.prems] by auto
qed simp

text \<open>Hand-off is irreversible: the states after it.\<close>

definition handed_off :: "DestinationState \<Rightarrow> bool" where
  "handed_off s = (s \<in> {StateUploadingToRomm, StatePublishedToFilesystem,
     StateAwaitingRommIngestion, StateRommMatched, StateSourceActive})"

lemma handed_off_step:
  "handed_off s \<Longrightarrow> dest_step s t \<Longrightarrow> handed_off t \<or> NeedsReview t"
  by (cases s; cases t)
    (simp_all add: handed_off_def dest_step_iff CanTransition_def quarantinableFrom_def)

lemma review_final: "NeedsReview s \<Longrightarrow> \<not> dest_step s t"
  by (cases s; cases t)
    (simp_all add: dest_step_iff CanTransition_def quarantinableFrom_def)

lemma handed_off_steps:
  "dest_step\<^sup>*\<^sup>* s t \<Longrightarrow> handed_off s \<Longrightarrow> handed_off t \<or> NeedsReview t"
  by (induction rule: rtranclp_induct) (use handed_off_step review_final in blast)+

text \<open>The only way forward from each state towards \<open>source_active\<close>.\<close>

definition source_tail :: "DestinationState list \<Rightarrow> bool" where
  "source_tail r = (r = [] \<or> r = [StateQuarantined])"

lemma path_Cons: "dest_path (s # t # ss) \<longleftrightarrow> dest_step s t \<and> dest_path (t # ss)"
  by (simp add: dest_path_step)

lemma path_final: "dest_path (s # ss) \<Longrightarrow> (\<And>t. \<not> dest_step s t) \<Longrightarrow> ss = []"
  by (cases ss) (simp_all add: path_Cons)

lemma final_states:
  "\<not> dest_step StateCancelled t" "\<not> dest_step StateQuarantined t"
  "\<not> dest_step StateVerificationConflict t" "\<not> dest_step StateRommUnmatched t"
  "\<not> dest_step StateIngestionTimeout t"
  by (simp_all add: dest_step_iff CanTransition_def quarantinableFrom_def)

lemma path_from_source: "dest_path (StateSourceActive # ss) \<Longrightarrow> source_tail ss"
proof (cases ss)
  case (Cons t r)
  moreover assume "dest_path (StateSourceActive # ss)"
  ultimately have "t = StateQuarantined" "dest_path (t # r)"
    by (auto simp add: path_Cons dest_step_iff CanTransition_def split: if_splits)
  then show ?thesis
    using Cons path_final final_states(2) by (auto simp add: source_tail_def)
qed (simp add: source_tail_def)

lemma path_from_matched:
  "dest_path (StateRommMatched # ss) \<Longrightarrow> StateSourceActive \<in> set ss \<Longrightarrow>
    \<exists>r. ss = StateSourceActive # r \<and> source_tail r"
  by (cases ss) (auto simp add: path_Cons dest_step_iff CanTransition_def
      dest: path_final [OF _ final_states(2)] path_from_source split: if_splits)

lemma path_from_awaiting:
  "dest_path (StateAwaitingRommIngestion # ss) \<Longrightarrow> StateSourceActive \<in> set ss \<Longrightarrow>
    \<exists>r. ss = StateRommMatched # StateSourceActive # r \<and> source_tail r"
  by (cases ss) (auto simp add: path_Cons dest_step_iff CanTransition_def
      dest: path_final [OF _ final_states(2)] path_final [OF _ final_states(4)]
        path_final [OF _ final_states(5)] path_from_matched split: if_splits)

lemma path_from_handoff:
  assumes path: "dest_path (h # ss)" and h: "h = StateUploadingToRomm \<or> h = StatePublishedToFilesystem"
    and src: "StateSourceActive \<in> set ss"
  shows "\<exists>r. ss = StateAwaitingRommIngestion # StateRommMatched # StateSourceActive # r
      \<and> source_tail r"
proof (cases ss)
  case (Cons t r)
  have "dest_step h t" "dest_path (t # r)"
    using path Cons by (simp_all add: path_Cons)
  then have "t \<in> {StateAwaitingRommIngestion, StateVerificationConflict, StateQuarantined}"
    using h by (auto simp add: dest_step_iff CanTransition_def split: if_splits)
  moreover have "r = []" if "t \<in> {StateVerificationConflict, StateQuarantined}"
    using that path_final [OF \<open>dest_path (t # r)\<close>] final_states by auto
  ultimately have "t = StateAwaitingRommIngestion"
    using src Cons by auto
  then show ?thesis
    using Cons src \<open>dest_path (t # r)\<close> path_from_awaiting [of r] by auto
qed (use src in simp)

lemma path_from_verified:
  "dest_path (StateVerifiedInStaging # ss) \<Longrightarrow> StateSourceActive \<in> set ss \<Longrightarrow>
    \<exists>h r. (h = StateUploadingToRomm \<or> h = StatePublishedToFilesystem) \<and>
      ss = h # StateAwaitingRommIngestion # StateRommMatched # StateSourceActive # r
      \<and> source_tail r"
  by (cases ss) (auto simp add: path_Cons dest_step_iff CanTransition_def
      dest: path_final [OF _ final_states(2)] path_final [OF _ final_states(1)]
        path_from_handoff split: if_splits)

section \<open>Properties\<close>

text \<open>C1: a legal history that starts at \<open>receiving\<close> and reaches
  \<open>source_active\<close> is exactly the required path: verified in staging, one of the
  two hand-offs, awaiting ingestion, matched, active; only a quarantine can follow.\<close>

theorem source_active_path_exact:
  assumes "dest_path (StateReceiving # ss)" and "StateSourceActive \<in> set ss"
  shows "\<exists>h rest. h \<in> {StateUploadingToRomm, StatePublishedToFilesystem} \<and>
    ss = [StateVerifiedInStaging, h, StateAwaitingRommIngestion, StateRommMatched,
          StateSourceActive] @ rest \<and> (rest = [] \<or> rest = [StateQuarantined])"
proof (cases ss)
  case Nil
  then show ?thesis using assms by simp
next
  case (Cons t r)
  then have "t = StateVerifiedInStaging"
    using assms by (auto simp add: path_Cons dest_step_iff CanTransition_def
        dest: path_final [OF _ final_states(1)] path_final [OF _ final_states(2)]
          path_final [OF _ final_states(3)] split: if_splits)
  then show ?thesis
    using Cons assms path_from_verified [of r] by (auto simp add: path_Cons source_tail_def)
qed

theorem source_active_path_exact_witness:
  "\<exists>h rest. h \<in> {StateUploadingToRomm, StatePublishedToFilesystem} \<and>
    [StateVerifiedInStaging, StateUploadingToRomm, StateAwaitingRommIngestion,
      StateRommMatched, StateSourceActive] =
    [StateVerifiedInStaging, h, StateAwaitingRommIngestion, StateRommMatched,
      StateSourceActive] @ rest \<and> (rest = [] \<or> rest = [StateQuarantined])"
  by (rule source_active_path_exact)
    (simp_all add: dest_path_def Transition_def Known_def CanTransition_def)

text \<open>Once a payload is handed to RomM or published, no sequence of legal
  moves ever cancels the transfer: it stays handed off or sits in a review state.\<close>

theorem handed_off_never_cancelled:
  assumes "handed_off s" and "dest_step\<^sup>*\<^sup>* s t"
  shows "t \<noteq> StateCancelled \<and> (handed_off t \<or> NeedsReview t)"
  using handed_off_steps [OF assms(2,1)] by (cases t) (simp_all add: handed_off_def)

theorem handed_off_never_cancelled_witness:
  "StateRommUnmatched \<noteq> StateCancelled \<and> (handed_off StateRommUnmatched \<or> NeedsReview StateRommUnmatched)"
proof (rule handed_off_never_cancelled [of StateUploadingToRomm])
  show "handed_off StateUploadingToRomm"
    by (simp add: handed_off_def)
  have "dest_step StateUploadingToRomm StateAwaitingRommIngestion"
    "dest_step StateAwaitingRommIngestion StateRommUnmatched"
    by (simp_all add: dest_step_iff CanTransition_def)
  then show "dest_step\<^sup>*\<^sup>* StateUploadingToRomm StateRommUnmatched"
    by (meson converse_rtranclp_into_rtranclp r_into_rtranclp)
qed

text \<open>No legal history runs longer than seven states or repeats one: every
  transfer ends, whatever its first state.\<close>

theorem dest_history_bounded:
  assumes "dest_path ss"
  shows "length ss \<le> 7 \<and> distinct ss"
proof (cases ss)
  case (Cons s r)
  then show ?thesis
    using assms dest_path_rank [of s r] dest_rank_le [of s] dest_path_distinct_aux [of ss] by simp
qed simp

theorem dest_history_bounded_witness:
  "length [StateReceiving, StateVerifiedInStaging, StateCancelled] \<le> 7 \<and>
   distinct [StateReceiving, StateVerifiedInStaging, StateCancelled]"
  by (rule dest_history_bounded)
    (simp add: dest_path_def Transition_def Known_def CanTransition_def)

text \<open>What \<open>Terminal\<close> promises is exact but for one state: the only legal move
  out of a terminal state is the quarantine of an active source.\<close>

theorem terminal_exits:
  "Terminal s \<Longrightarrow> Transition s t = None \<longleftrightarrow> s = StateSourceActive \<and> t = StateQuarantined"
  by (cases s; cases t)
    (simp_all add: Terminal_def Transition_def Known_def CanTransition_def quarantinableFrom_def)

theorem terminal_exits_witness:
  "Transition StateSourceActive StateQuarantined = None \<longleftrightarrow>
    StateSourceActive = StateSourceActive \<and> StateQuarantined = StateQuarantined"
  by (rule terminal_exits) (simp add: Terminal_def)

end
