(* ===== verification/Digest.thy ===== *)
theory Digest
  imports Prelude
begin

text \<open>
  Content digests, \<open>src/protocol/digest.go\<close>.  The four hash functions are the
  standard library's: they are arguments (\<open>hashes\<close>), and a running
  \<open>hash.Hash\<close> is the bytes written to it so far, which is what its \<open>Sum\<close>
  depends on.  A reader is the list of chunks its reads deliver and how it ends.
\<close>

section \<open>Digests and the hasher\<close>

record Digest =
  d_Size :: int
  d_CRC32 :: string
  d_MD5 :: string
  d_SHA1 :: string
  d_SHA256 :: string

record hashes =
  hash_crc :: "bytes \<Rightarrow> bytes"
  hash_md5 :: "bytes \<Rightarrow> bytes"
  hash_sha1 :: "bytes \<Rightarrow> bytes"
  hash_sha256 :: "bytes \<Rightarrow> bytes"

record Hasher =
  h_size :: int
  h_crc :: bytes
  h_md5 :: bytes
  h_sha1 :: bytes
  h_sha256 :: bytes

definition NewHasher :: Hasher where
  "NewHasher = \<lparr>h_size = 0, h_crc = [], h_md5 = [], h_sha1 = [], h_sha256 = []\<rparr>"

definition hasher_Write :: "Hasher \<Rightarrow> bytes \<Rightarrow> Hasher" where
  "hasher_Write h p = h\<lparr>h_size := h_size h + int (length p), h_crc := h_crc h @ p,
     h_md5 := h_md5 h @ p, h_sha1 := h_sha1 h @ p, h_sha256 := h_sha256 h @ p\<rparr>"

definition hasher_Digest :: "hashes \<Rightarrow> Hasher \<Rightarrow> Digest" where
  "hasher_Digest H h = \<lparr>d_Size = h_size h,
     d_CRC32 = hex_encode (hash_crc H (h_crc h)),
     d_MD5 = hex_encode (hash_md5 H (h_md5 h)),
     d_SHA1 = hex_encode (hash_sha1 H (h_sha1 h)),
     d_SHA256 = hex_encode (hash_sha256 H (h_sha256 h))\<rparr>"

definition DigestBytes :: "hashes \<Rightarrow> bytes \<Rightarrow> Digest" where
  "DigestBytes H b = hasher_Digest H (hasher_Write NewHasher b)"

text \<open>\<open>io.Copy\<close>: every chunk is written, then the reader's error, if any, is reported.\<close>

definition DigestReader :: "hashes \<Rightarrow> bytes list \<Rightarrow> 'e option \<Rightarrow> 'e + Digest" where
  "DigestReader H chunks ending =
     (let h = foldl hasher_Write NewHasher chunks in
      case ending of Some e \<Rightarrow> Inl e | None \<Rightarrow> Inr (hasher_Digest H h))"

definition Normalized :: "Digest \<Rightarrow> Digest" where
  "Normalized d = d\<lparr>d_CRC32 := to_lower (d_CRC32 d), d_MD5 := to_lower (d_MD5 d),
     d_SHA1 := to_lower (d_SHA1 d), d_SHA256 := to_lower (d_SHA256 d)\<rparr>"

section \<open>Strength of an agreement\<close>

datatype StrengthLevel = StrengthNone | StrengthWeak | StrengthCatalogue | StrengthStrong

fun strength_iota :: "StrengthLevel \<Rightarrow> nat" where
  "strength_iota StrengthNone = 0"
| "strength_iota StrengthWeak = 1"
| "strength_iota StrengthCatalogue = 2"
| "strength_iota StrengthStrong = 3"

lemma strength_iota_inj: "strength_iota a = strength_iota b \<Longrightarrow> a = b"
  by (cases a; cases b) simp_all

instantiation StrengthLevel :: linorder
begin
definition less_eq_StrengthLevel :: "StrengthLevel \<Rightarrow> StrengthLevel \<Rightarrow> bool" where
  "less_eq_StrengthLevel a b = (strength_iota a \<le> strength_iota b)"
definition less_StrengthLevel :: "StrengthLevel \<Rightarrow> StrengthLevel \<Rightarrow> bool" where
  "less_StrengthLevel a b = (strength_iota a < strength_iota b)"
instance
  by standard
    (auto simp add: less_eq_StrengthLevel_def less_StrengthLevel_def intro: strength_iota_inj)
end

lemmas strength_order = less_eq_StrengthLevel_def less_StrengthLevel_def

fun strength_String :: "StrengthLevel \<Rightarrow> string" where
  "strength_String StrengthWeak = ''weak''"
| "strength_String StrengthCatalogue = ''catalogue''"
| "strength_String StrengthStrong = ''strong''"
| "strength_String StrengthNone = ''none''"

text \<open>The closure \<open>cmp\<close> inside \<open>Compare\<close>: it reads two hashes, raises \<open>best\<close>
  and fails on a disagreement (\<open>None\<close>).\<close>

definition digest_cmp :: "string \<Rightarrow> string \<Rightarrow> StrengthLevel \<Rightarrow> StrengthLevel \<Rightarrow> StrengthLevel option" where
  "digest_cmp x y level best =
     (if x = '''' \<or> y = '''' then Some best
      else if x \<noteq> y then None
      else if level > best then Some level else Some best)"

definition Compare :: "Digest \<Rightarrow> Digest \<Rightarrow> StrengthLevel \<times> bool" where
  "Compare d other =
     (let a = Normalized d; b = Normalized other in
      if d_Size a \<noteq> 0 \<and> d_Size b \<noteq> 0 \<and> d_Size a \<noteq> d_Size b then (StrengthNone, False)
      else case digest_cmp (d_CRC32 a) (d_CRC32 b) StrengthWeak StrengthNone of
        None \<Rightarrow> (StrengthNone, False)
      | Some best1 \<Rightarrow> (case digest_cmp (d_MD5 a) (d_MD5 b) StrengthCatalogue best1 of
        None \<Rightarrow> (StrengthNone, False)
      | Some best2 \<Rightarrow> (case digest_cmp (d_SHA1 a) (d_SHA1 b) StrengthCatalogue best2 of
        None \<Rightarrow> (StrengthNone, False)
      | Some best3 \<Rightarrow> (case digest_cmp (d_SHA256 a) (d_SHA256 b) StrengthStrong best3 of
        None \<Rightarrow> (StrengthNone, False)
      | Some best \<Rightarrow> (if best = StrengthNone then (StrengthNone, True) else (best, True))))))"

section \<open>Lemmas\<close>

lemma foldl_Write:
  "foldl hasher_Write h chunks = hasher_Write h (concat chunks)"
  by (induction chunks arbitrary: h) (simp_all add: hasher_Write_def)

lemma Normalized_idem [simp]: "Normalized (Normalized d) = Normalized d"
  by (simp add: Normalized_def)

lemma Normalized_sel [simp]:
  "d_Size (Normalized d) = d_Size d"
  "d_CRC32 (Normalized d) = to_lower (d_CRC32 d)"
  "d_MD5 (Normalized d) = to_lower (d_MD5 d)"
  "d_SHA1 (Normalized d) = to_lower (d_SHA1 d)"
  "d_SHA256 (Normalized d) = to_lower (d_SHA256 d)"
  by (simp_all add: Normalized_def)

text \<open>What it means for two digests to agree on a field, to contradict each other
  in one, and the specification of \<open>Compare\<close>.\<close>

definition fields_agree :: "(Digest \<Rightarrow> string) \<Rightarrow> Digest \<Rightarrow> Digest \<Rightarrow> bool" where
  "fields_agree f a b = (f a \<noteq> '''' \<and> f b \<noteq> '''' \<and> to_lower (f a) = to_lower (f b))"

definition fields_conflict :: "(Digest \<Rightarrow> string) \<Rightarrow> Digest \<Rightarrow> Digest \<Rightarrow> bool" where
  "fields_conflict f a b = (f a \<noteq> '''' \<and> f b \<noteq> '''' \<and> to_lower (f a) \<noteq> to_lower (f b))"

definition digests_conflict :: "Digest \<Rightarrow> Digest \<Rightarrow> bool" where
  "digests_conflict a b =
     (d_Size a \<noteq> 0 \<and> d_Size b \<noteq> 0 \<and> d_Size a \<noteq> d_Size b \<or>
      fields_conflict d_CRC32 a b \<or> fields_conflict d_MD5 a b \<or>
      fields_conflict d_SHA1 a b \<or> fields_conflict d_SHA256 a b)"

definition agreed_strength :: "Digest \<Rightarrow> Digest \<Rightarrow> StrengthLevel" where
  "agreed_strength a b =
     (if fields_agree d_SHA256 a b then StrengthStrong
      else if fields_agree d_SHA1 a b \<or> fields_agree d_MD5 a b then StrengthCatalogue
      else if fields_agree d_CRC32 a b then StrengthWeak
      else StrengthNone)"

lemma to_lower_Nil_iff [simp]: "to_lower s = [] \<longleftrightarrow> s = []" "[] = to_lower s \<longleftrightarrow> s = []"
  by (cases s; simp)+

lemma digest_cmp_spec:
  "digest_cmp (to_lower (f a)) (to_lower (f b)) level best =
    (if fields_conflict f a b then None
     else Some (if fields_agree f a b then max best level else best))"
  by (auto simp add: digest_cmp_def fields_conflict_def fields_agree_def max_def)

lemma Compare_spec:
  "Compare a b = (if digests_conflict a b then (StrengthNone, False) else (agreed_strength a b, True))"
  by (auto simp add: Compare_def Let_def digest_cmp_spec digests_conflict_def agreed_strength_def
      strength_order max_def)

lemma fields_sym:
  "fields_agree f a b = fields_agree f b a" "fields_conflict f a b = fields_conflict f b a"
  by (auto simp add: fields_agree_def fields_conflict_def)

lemma digests_conflict_sym: "digests_conflict a b = digests_conflict b a"
  by (auto simp add: digests_conflict_def fields_sym [of _ a b])

lemma agreed_strength_sym: "agreed_strength a b = agreed_strength b a"
  by (simp add: agreed_strength_def fields_sym [of _ a b])

lemma Compare_sym_aux: "Compare a b = Compare b a"
  by (simp add: Compare_spec digests_conflict_sym [of a b] agreed_strength_sym [of a b])

lemma Compare_strong:
  "Compare a b = (StrengthStrong, True) \<longleftrightarrow>
    \<not> digests_conflict a b \<and> fields_agree d_SHA256 a b"
  by (auto simp add: Compare_spec agreed_strength_def)

lemma DigestReader_eq: "DigestReader H chunks None = Inr (DigestBytes H (concat chunks))"
  by (simp add: DigestReader_def DigestBytes_def foldl_Write Let_def)

section \<open>Properties\<close>

text \<open>The comparison of digests is decided by the fields alone: any populated
  field that disagrees (after case folding) is fatal whatever else agrees, and otherwise
  the result is the strongest field both sides carry; in particular the order of the two
  digests does not matter.\<close>

theorem compare_decided_by_fields:
  "Compare a b = (if digests_conflict a b then (StrengthNone, False) else (agreed_strength a b, True))
   \<and> Compare a b = Compare b a"
  using Compare_spec Compare_sym_aux by simp

text \<open>Hashing a stream in any chunks gives the digest of the whole payload, and
  that digest matches the payload's own digest at full strength.\<close>

theorem streaming_digest_is_whole:
  assumes "length (hash_sha256 H (concat chunks)) = 32"
  shows "DigestReader H chunks None = Inr (DigestBytes H (concat chunks)) \<and>
    Compare (DigestBytes H (concat chunks)) (DigestBytes H (concat chunks)) = (StrengthStrong, True)"
proof -
  have "hex_encode (hash_sha256 H (concat chunks)) \<noteq> ''''"
    using assms by auto
  then have "fields_agree d_SHA256 (DigestBytes H (concat chunks)) (DigestBytes H (concat chunks))"
    by (simp add: fields_agree_def DigestBytes_def hasher_Digest_def hasher_Write_def NewHasher_def)
  then show ?thesis
    by (simp add: DigestReader_eq Compare_strong digests_conflict_def fields_conflict_def)
qed

theorem streaming_digest_is_whole_witness:
  "let H = \<lparr>hash_crc = (\<lambda>b. replicate 4 0), hash_md5 = (\<lambda>b. replicate 16 1),
             hash_sha1 = (\<lambda>b. replicate 20 2), hash_sha256 = (\<lambda>b. replicate 32 (of_nat (length b)))\<rparr>
   in DigestReader H [[1, 2], [3]] None = (Inr (DigestBytes H [1, 2, 3]) :: unit + Digest) \<and>
      Compare (DigestBytes H [1, 2, 3]) (DigestBytes H [1, 2, 3]) = (StrengthStrong, True)"
  using streaming_digest_is_whole
    [of "\<lparr>hash_crc = (\<lambda>b. replicate 4 0), hash_md5 = (\<lambda>b. replicate 16 1),
         hash_sha1 = (\<lambda>b. replicate 20 2), hash_sha256 = (\<lambda>b. replicate 32 (of_nat (length b)))\<rparr>"
      "[[1, 2], [3]]"]
  by (simp add: Let_def)

end
