(* ===== verification/Ids.thy ===== *)
theory Ids
  imports Prelude
begin

text \<open>
  Identifiers, \<open>src/protocol/ids.go\<close>, aliases, \<open>src/protocol/alias.go\<close>, and the
  version check of \<open>src/protocol/version.go\<close>.  SHA-256, HMAC and the randomness
  are arguments.  Base32 is the standard library's \<open>encoding/base32\<close> without
  padding over the Crockford alphabet, block by block, its decoder's
  skipping of CR and LF included.  \<open>ToUpper\<close> and \<open>ToLower\<close> are the ASCII maps.
\<close>

section \<open>Version and revision\<close>

definition VersionMajor :: int where "VersionMajor = 0"

definition Compatible :: "int \<Rightarrow> int \<Rightarrow> bool" where
  "Compatible major minor = (major = VersionMajor)"

type_synonym Revision = "64 word"

definition revision_IsZero :: "Revision \<Rightarrow> bool" where
  "revision_IsZero r = (r = 0)"

definition revision_Next :: "Revision \<Rightarrow> Revision" where
  "revision_Next r = r + 1"

section \<open>Base32 over the Crockford alphabet\<close>

definition crockford :: string where
  "crockford = ''0123456789ABCDEFGHJKMNPQRSTVWXYZ''"

definition byte_bits :: "8 word \<Rightarrow> bool list" where
  "byte_bits b = map (bit b) [7, 6, 5, 4, 3, 2, 1, 0]"

fun bits_val :: "bool list \<Rightarrow> nat" where
  "bits_val [] = 0"
| "bits_val (b # bs) = (if b then 2 ^ length bs else 0) + bits_val bs"

definition pad5 :: "bool list \<Rightarrow> bool list" where
  "pad5 bs = bs @ replicate ((5 - length bs mod 5) mod 5) False"

fun quintets :: "bool list \<Rightarrow> nat list" where
  "quintets (a # b # c # d # e # r) = bits_val [a, b, c, d, e] # quintets r"
| "quintets _ = []"

definition encode_block :: "bytes \<Rightarrow> string" where
  "encode_block bs = map (\<lambda>n. crockford ! n) (quintets (pad5 (concat (map byte_bits bs))))"

fun base32_encode :: "bytes \<Rightarrow> string" where
  "base32_encode [] = []"
| "base32_encode (a # b # c # d # e # r) = encode_block [a, b, c, d, e] @ base32_encode r"
| "base32_encode bs = encode_block bs"

text \<open>The decoder: the position of a character in the alphabet, \<open>None\<close> the
  \<open>0xFF\<close> entries of the decode map.\<close>

fun index_of :: "'a list \<Rightarrow> 'a \<Rightarrow> nat option" where
  "index_of [] x = None"
| "index_of (y # ys) x = (if x = y then Some 0 else map_option Suc (index_of ys x))"

definition decode_char :: "char \<Rightarrow> nat option" where
  "decode_char c = index_of crockford c"

definition upper_char :: "char \<Rightarrow> char" where
  "upper_char c = (if 97 \<le> (of_char c :: nat) \<and> (of_char c :: nat) \<le> 122
    then char_of ((of_char c :: nat) - 32) else c)"

definition to_upper :: "string \<Rightarrow> string" where
  "to_upper s = map upper_char s"

definition strip_newlines :: "string \<Rightarrow> string" where
  "strip_newlines s = filter (\<lambda>c. c \<noteq> CHR 0x0A \<and> c \<noteq> CHR 0x0D) s"

definition decode_accepts :: "string \<Rightarrow> bool" where
  "decode_accepts s = list_all (\<lambda>c. decode_char c \<noteq> None) (strip_newlines s)"

definition val_bits :: "nat \<Rightarrow> bool list" where
  "val_bits n = map (\<lambda>i. odd (n div 2 ^ i)) [4, 3, 2, 1, 0]"

primrec octets :: "nat \<Rightarrow> bool list \<Rightarrow> bytes" where
  "octets 0 bs = []"
| "octets (Suc n) bs = word_of_nat (bits_val (take 8 bs)) # octets n (drop 8 bs)"

text \<open>Bytes carried by the last quantum of \<open>j\<close> characters.\<close>

fun quantum_bytes :: "nat \<Rightarrow> nat" where
  "quantum_bytes n = (if n = 2 then 1 else if n = 4 then 2 else if n = 5 then 3
     else if n = 7 then 4 else if n = 8 then 5 else 0)"

definition decode_block :: "nat list \<Rightarrow> bytes" where
  "decode_block vs = octets (quantum_bytes (length vs)) (concat (map val_bits vs))"

fun decode_vals :: "nat list \<Rightarrow> bytes" where
  "decode_vals [] = []"
| "decode_vals (a # b # c # d # e # f # g # h # r) =
     decode_block [a, b, c, d, e, f, g, h] @ decode_vals r"
| "decode_vals vs = decode_block vs"

definition base32_decode :: "string \<Rightarrow> bytes option" where
  "base32_decode s =
     (if decode_accepts s then Some (decode_vals (map (\<lambda>c. the (decode_char c)) (strip_newlines s)))
      else None)"

section \<open>Identifiers\<close>

definition idBytes :: nat where "idBytes = 16"

definition prefixBridge :: string where "prefixBridge = ''brg''"
definition prefixGame :: string where "prefixGame = ''gam''"
definition prefixFile :: string where "prefixFile = ''fil''"
definition prefixAlias :: string where "prefixAlias = ''sba''"

definition domainBridge :: string where "domainBridge = ''romm-swarm/id/bridge/v1''"
definition domainGame :: string where "domainGame = ''romm-swarm/id/game/v1''"
definition domainFile :: string where "domainFile = ''romm-swarm/id/file/v1''"
definition domainAlias :: string where "domainAlias = ''romm-swarm/id/swarm-bridge-alias/v1''"

definition id_encode :: "string \<Rightarrow> bytes \<Rightarrow> string" where
  "id_encode pfx body = pfx @ ''_'' @ to_lower (base32_encode body)"

text \<open>The eight big-endian length bytes of \<open>derive\<close>.\<close>

definition length_bytes :: "nat \<Rightarrow> bytes" where
  "length_bytes k = (let n = (word_of_nat k :: 64 word) in
     map (\<lambda>i. ucast (drop_bit (8 * (7 - i)) n)) [0..<8])"

fun derive_parts :: "bytes list \<Rightarrow> bytes" where
  "derive_parts [] = []"
| "derive_parts (p # ps) = length_bytes (length p) @ p @ derive_parts ps"

definition derive_preimage :: "string \<Rightarrow> bytes list \<Rightarrow> bytes" where
  "derive_preimage domain parts = bytes_of domain @ derive_parts parts"

definition derive :: "(bytes \<Rightarrow> bytes) \<Rightarrow> string \<Rightarrow> bytes list \<Rightarrow> bytes" where
  "derive sha domain parts = take idBytes (sha (derive_preimage domain parts))"

definition BridgeIDFromPublicKey :: "(bytes \<Rightarrow> bytes) \<Rightarrow> bytes \<Rightarrow> string" where
  "BridgeIDFromPublicKey sha pub = id_encode prefixBridge (derive sha domainBridge [pub])"

definition FileIDFromCanonicalDigest :: "(bytes \<Rightarrow> bytes) \<Rightarrow> string \<Rightarrow> string" where
  "FileIDFromCanonicalDigest sha sha256Hex =
     id_encode prefixFile (derive sha domainFile [bytes_of (to_lower sha256Hex)])"

definition GameIDFromReference :: "(bytes \<Rightarrow> bytes) \<Rightarrow> string \<Rightarrow> string \<Rightarrow> string" where
  "GameIDFromReference sha family canonicalKey =
     id_encode prefixGame
       (derive sha domainGame [bytes_of (to_lower family), bytes_of (to_lower canonicalKey)])"

datatype id_error =
    BadPrefix string
  | BadLength nat
  | NotLowercase
  | NotBase32

definition validate :: "string \<Rightarrow> string \<Rightarrow> id_error option" where
  "validate pfx s =
     (let want = pfx @ ''_'' in
      if \<not> has_prefix s want then Some (BadPrefix want)
      else let body = drop (length want) s in
      if length body \<noteq> 26 then Some (BadLength (length body))
      else if body \<noteq> to_lower body then Some NotLowercase
      else if base32_decode (to_upper body) = None then Some NotBase32
      else None)"

section \<open>Aliases\<close>

definition AliasKeySize :: nat where "AliasKeySize = 32"

definition alias_message :: "string \<Rightarrow> string \<Rightarrow> bytes" where
  "alias_message swarm bridge =
     bytes_of domainAlias @ [0] @ bytes_of swarm @ [0] @ bytes_of bridge"

datatype alias_error = ErrBadAliasKey

definition AliasFor :: "(bytes \<Rightarrow> bytes \<Rightarrow> bytes) \<Rightarrow> bytes \<Rightarrow> string \<Rightarrow> string \<Rightarrow> alias_error + string" where
  "AliasFor hmac aliasKey swarm bridge =
     (if length aliasKey \<noteq> AliasKeySize then Inl ErrBadAliasKey
      else Inr (id_encode prefixAlias (take idBytes (hmac aliasKey (alias_message swarm bridge)))))"

section \<open>Lemmas\<close>

lemma bits_val_less: "bits_val bs < 2 ^ length bs"
  by (induction bs) simp_all

lemma val_bits_of_bits_val: "val_bits (bits_val [a, b, c, d, e]) = [a, b, c, d, e]"
  by (cases a; cases b; cases c; cases d; cases e; simp add: val_bits_def)

lemma quintets_less: "v \<in> set (quintets bs) \<Longrightarrow> v < 32"
proof (induction bs rule: quintets.induct)
  case (1 a b c d e r)
  then show ?case
    using bits_val_less [of "[a, b, c, d, e]"] by auto
qed simp_all

lemma concat_val_bits:
  "length bs mod 5 = 0 \<Longrightarrow> concat (map val_bits (quintets bs)) = bs"
  by (induction bs rule: quintets.induct) (simp_all add: val_bits_of_bits_val del: bits_val.simps)

lemma length_byte_bits [simp]: "length (byte_bits b) = 8"
  by (simp add: byte_bits_def)

lemma bits_val_take_bit: "bits_val (map (bit w) (rev [0..<n])) = take_bit n (w :: nat)"
  by (induction n) (simp_all add: take_bit_Suc_from_most)

lemma rev_upt_8: "rev [0..<8] = [7, 6, 5, 4, 3, 2, 1, 0]"
  by (simp add: upt_rec)

lemma octet_of_byte_bits: "word_of_nat (bits_val (byte_bits b)) = b"
proof -
  have "byte_bits b = map (bit (unat b)) (rev [0..<8])"
    by (simp add: byte_bits_def bit_unsigned_iff rev_upt_8)
  then have "bits_val (byte_bits b) = take_bit 8 (unat b)"
    by (simp only: bits_val_take_bit)
  also have "\<dots> = unat b"
    using byte_less [of b] by (simp add: take_bit_nat_eq_self)
  finally show ?thesis
    by simp
qed

text \<open>One block of up to five bytes survives encoding and decoding.\<close>

lemma octets_bytes: "octets (length bs) (concat (map byte_bits bs) @ r) = bs"
proof (induction bs arbitrary: r)
  case (Cons b bs)
  then show ?case
    by (simp add: octet_of_byte_bits)
qed simp

lemma length_concat_byte_bits [simp]: "length (concat (map byte_bits bs)) = 8 * length bs"
  by (induction bs) simp_all

lemma length_pad5: "length (pad5 bs) mod 5 = 0"
proof -
  have "(n + (5 - n mod 5) mod 5) mod 5 = 0" for n :: nat
  proof -
    have "n mod 5 \<in> {0, 1, 2, 3, 4}"
      by auto
    then have "(n mod 5 + (5 - n mod 5) mod 5) mod 5 = 0"
      by auto
    then show ?thesis
      by (simp add: mod_add_left_eq)
  qed
  then show ?thesis
    by (simp add: pad5_def)
qed

lemma length_quintets: "length (quintets bs) = length bs div 5"
  by (induction bs rule: quintets.induct) (simp_all del: bits_val.simps)

lemma decode_vals_block:
  assumes "1 \<le> length bs" "length bs \<le> 5"
  shows "decode_block (quintets (pad5 (concat (map byte_bits bs)))) = bs"
proof -
  have len: "quantum_bytes (length (quintets (pad5 (concat (map byte_bits bs))))) = length bs"
  proof -
    have "length bs \<in> {1, 2, 3, 4, 5}"
      using assms by auto
    then show ?thesis
      by (auto simp add: length_quintets pad5_def)
  qed
  have "concat (map val_bits (quintets (pad5 (concat (map byte_bits bs))))) =
      pad5 (concat (map byte_bits bs))"
    by (rule concat_val_bits) (rule length_pad5)
  then show ?thesis
    using len by (simp add: decode_block_def pad5_def octets_bytes del: quantum_bytes.simps)
qed

text \<open>The five-bit values an encoding spells.\<close>

fun base32_vals :: "bytes \<Rightarrow> nat list" where
  "base32_vals [] = []"
| "base32_vals (a # b # c # d # e # r) =
     quintets (pad5 (concat (map byte_bits [a, b, c, d, e]))) @ base32_vals r"
| "base32_vals bs = quintets (pad5 (concat (map byte_bits bs)))"

lemma base32_encode_vals: "base32_encode bs = map (\<lambda>n. crockford ! n) (base32_vals bs)"
  by (induction bs rule: base32_encode.induct)
    (simp_all only: base32_encode.simps base32_vals.simps encode_block_def map_append list.map)

lemma decode_vals_append8: "length xs = 8 \<Longrightarrow> decode_vals (xs @ r) = decode_block xs @ decode_vals r"
  by (auto simp add: length_Suc_conv eval_nat_numeral)

lemma decode_vals_short: "0 < length xs \<Longrightarrow> length xs < 8 \<Longrightarrow> decode_vals xs = decode_block xs"
  by (cases xs rule: decode_vals.cases) simp_all

lemma length_block_quintets:
  assumes "1 \<le> length bs" "length bs \<le> 5"
  shows "length (quintets (pad5 (concat (map byte_bits bs)))) = (8 * length bs + 4) div 5"
proof -
  have "length bs \<in> {1, 2, 3, 4, 5}"
    using assms by auto
  then show ?thesis
    by (auto simp add: length_quintets pad5_def)
qed

lemma decode_vals_tail:
  assumes "0 < length bs" "length bs < 5"
  shows "decode_vals (quintets (pad5 (concat (map byte_bits bs)))) = bs"
proof -
  have "length (quintets (pad5 (concat (map byte_bits bs)))) < 8"
    "0 < length (quintets (pad5 (concat (map byte_bits bs))))"
    using length_block_quintets [of bs] assms by linarith+
  then show ?thesis
    using assms decode_vals_block [of bs] by (simp add: decode_vals_short Suc_le_eq)
qed

lemma decode_base32_vals: "decode_vals (base32_vals bs) = bs"
proof (induction bs rule: base32_vals.induct)
  case (2 a b c d e r)
  have "length (quintets (pad5 (concat (map byte_bits [a, b, c, d, e])))) = 8"
    by (subst length_block_quintets) simp_all
  then have "decode_vals (base32_vals (a # b # c # d # e # r)) = [a, b, c, d, e] @ decode_vals (base32_vals r)"
    using decode_vals_block [of "[a, b, c, d, e]"]
    by (simp only: base32_vals.simps decode_vals_append8) simp
  then show ?case
    using 2 by simp
qed (simp_all only: base32_vals.simps decode_vals.simps decode_vals_tail list.size)

text \<open>Characters: the alphabet is read back through the two case maps.\<close>

lemma crockford_chars:
  assumes "n < 32"
  shows "decode_char (crockford ! n) = Some n"
    and "upper_char (lower_char (crockford ! n)) = crockford ! n"
    and "crockford ! n \<noteq> CHR 0x0A" and "crockford ! n \<noteq> CHR 0x0D"
proof -
  have all: "list_all (\<lambda>n. decode_char (crockford ! n) = Some n \<and>
      upper_char (lower_char (crockford ! n)) = crockford ! n \<and>
      crockford ! n \<noteq> CHR 0x0A \<and> crockford ! n \<noteq> CHR 0x0D) [0..<32]"
    by code_simp
  then show "decode_char (crockford ! n) = Some n"
    and "upper_char (lower_char (crockford ! n)) = crockford ! n"
    and "crockford ! n \<noteq> CHR 0x0A" and "crockford ! n \<noteq> CHR 0x0D"
    using assms by (simp_all add: list_all_iff)
qed

lemma base32_vals_less: "v \<in> set (base32_vals bs) \<Longrightarrow> v < 32"
  by (induction bs rule: base32_vals.induct)
    (auto simp add: simp del: quintets.simps dest: quintets_less)

lemma decode_vals_spelled:
  assumes "\<forall>v \<in> set vs. v < 32"
  shows "base32_decode (map (\<lambda>n. crockford ! n) vs) = Some (decode_vals vs)"
proof -
  have "strip_newlines (map (\<lambda>n. crockford ! n) vs) = map (\<lambda>n. crockford ! n) vs"
    unfolding strip_newlines_def using assms crockford_chars by (auto simp add: filter_id_conv)
  moreover have "map (\<lambda>c. the (decode_char c)) (map (\<lambda>n. crockford ! n) vs) = vs"
    using assms crockford_chars(1) by (induction vs) auto
  ultimately show ?thesis
    using assms crockford_chars(1)
    by (auto simp add: base32_decode_def decode_accepts_def list_all_iff)
qed

lemma upper_lower_base32: "to_upper (to_lower (base32_encode bs)) = base32_encode bs"
  unfolding base32_encode_vals to_upper_def to_lower_def
  using base32_vals_less crockford_chars(2) by auto

lemma base32_roundtrip: "base32_decode (to_upper (to_lower (base32_encode bs))) = Some bs"
  by (metis upper_lower_base32 base32_encode_vals decode_vals_spelled decode_base32_vals
      base32_vals_less)

lemma length_base32_vals: "length (base32_vals bs) = 8 * (length bs div 5) +
    (if length bs mod 5 = 0 then 0 else (8 * (length bs mod 5) + 4) div 5)"
proof (induction bs rule: base32_vals.induct)
  case (2 a b c d e r)
  have "length (base32_vals (a # b # c # d # e # r)) = 8 + length (base32_vals r)"
    using length_block_quintets [of "[a, b, c, d, e]"] by (simp only: base32_vals.simps length_append) simp
  moreover have "(5 + length r) div 5 = Suc (length r div 5)"
    by (simp add: div_add_self1)
  ultimately show ?case
    using 2 by simp
qed (simp_all only: base32_vals.simps length_block_quintets list.size, simp_all)

lemma length_base32_16: "length bs = idBytes \<Longrightarrow> length (base32_encode bs) = 26"
  by (simp add: base32_encode_vals length_base32_vals idBytes_def)

lemma validate_eq:
  "validate pfx (pfx @ ''_'' @ body) =
    (if length body \<noteq> 26 then Some (BadLength (length body))
     else if body \<noteq> to_lower body then Some NotLowercase
     else if base32_decode (to_upper body) = None then Some NotBase32 else None)"
proof -
  have "has_prefix (pfx @ ''_'' @ body) (pfx @ ''_'')"
    by (simp add: has_prefix_def)
  moreover have "drop (length (pfx @ ''_'')) (pfx @ ''_'' @ body) = body"
    by simp
  ultimately show ?thesis
    unfolding validate_def Let_def by (simp only: not_True_eq_False if_False)
qed

lemma validate_accepts:
  assumes "length body = idBytes"
  shows "validate pfx (id_encode pfx body) = None"
  unfolding id_encode_def validate_eq base32_roundtrip
  using length_base32_16 [OF assms] by simp

lemma id_encode_inj: "id_encode pfx a = id_encode pfx b \<longleftrightarrow> a = b"
proof
  assume "id_encode pfx a = id_encode pfx b"
  then have "to_lower (base32_encode a) = to_lower (base32_encode b)"
    by (simp add: id_encode_def)
  then show "a = b"
    by (metis base32_roundtrip option.inject)
qed simp

text \<open>Length prefixes make the parts recoverable.\<close>

lemma length_length_bytes [simp]: "length (length_bytes k) = 8"
  by (simp add: length_bytes_def Let_def)

lemma length_bytes_word_inj:
  fixes m n :: "64 word"
  assumes "\<And>i. i < 8 \<Longrightarrow> (ucast (drop_bit (8 * (7 - i)) m) :: 8 word) = ucast (drop_bit (8 * (7 - i)) n)"
  shows "m = n"
proof (rule bit_word_eqI)
  fix j assume j: "j < LENGTH(64)"
  define q r where "q = j div 8" and "r = j mod 8"
  have q: "q < 8" "r < 8" "j = 8 * q + r"
    using j by (auto simp add: q_def r_def)
  have "(ucast (drop_bit (8 * q) m) :: 8 word) = ucast (drop_bit (8 * q) n)"
    using assms [of "7 - q"] q(1) by simp
  then have "bit (ucast (drop_bit (8 * q) m) :: 8 word) r = bit (ucast (drop_bit (8 * q) n) :: 8 word) r"
    by simp
  then show "bit m j = bit n j"
    using q by (simp add: bit_ucast_iff bit_drop_bit_eq)
qed

lemma length_bytes_inj:
  assumes "length_bytes k = length_bytes l" "k < 2 ^ 64" "l < 2 ^ 64"
  shows "k = l"
proof -
  have "(word_of_nat k :: 64 word) = word_of_nat l"
  proof (rule length_bytes_word_inj)
    fix i :: nat assume "i < 8"
    then show "(ucast (drop_bit (8 * (7 - i)) (word_of_nat k :: 64 word)) :: 8 word) =
        ucast (drop_bit (8 * (7 - i)) (word_of_nat l :: 64 word))"
      using assms(1) by (simp add: length_bytes_def Let_def)
  qed
  then have "unat (word_of_nat k :: 64 word) = unat (word_of_nat l :: 64 word)"
    by simp
  then show ?thesis
    using assms(2,3) by (simp add: unat_of_nat take_bit_nat_eq_self)
qed

lemma derive_parts_inj:
  assumes "derive_parts ps = derive_parts qs"
    "\<forall>p \<in> set ps. length p < 2 ^ 64" "\<forall>q \<in> set qs. length q < 2 ^ 64"
  shows "ps = qs"
  using assms
proof (induction ps arbitrary: qs)
  case Nil
  then show ?case
    by (cases qs) (simp_all add: length_bytes_def Let_def)
next
  case (Cons p ps)
  then obtain q qs' where qs: "qs = q # qs'"
    by (cases qs) (simp_all add: length_bytes_def Let_def)
  have eq: "length_bytes (length p) @ p @ derive_parts ps = length_bytes (length q) @ q @ derive_parts qs'"
    using Cons.prems(1) qs by simp
  then have "length_bytes (length p) = length_bytes (length q)"
    and rest: "p @ derive_parts ps = q @ derive_parts qs'"
    using append_eq_append_conv [of "length_bytes (length p)" "length_bytes (length q)"] by simp_all
  then have "length p = length q"
    using length_bytes_inj Cons.prems qs by simp
  then have "p = q" "derive_parts ps = derive_parts qs'"
    using rest by simp_all
  then show ?case
    using Cons.IH [of qs'] Cons.prems qs by simp
qed

text \<open>Preimages of different kinds of identifier never coincide: no tag is a
  prefix of another.\<close>

lemma bytes_of_append_inj:
  "length s = length t \<Longrightarrow> bytes_of s @ x = bytes_of t @ y \<longleftrightarrow> s = t \<and> x = y"
  by (simp add: bytes_of_inj)

lemma domain_game_file:
  "derive_preimage domainGame ps \<noteq> derive_preimage domainFile qs"
  by (simp add: derive_preimage_def domainGame_def domainFile_def bytes_of_def byte_of_char_inj)

lemma domain_bridge_other:
  "derive_preimage domainBridge ps \<noteq> derive_preimage domainGame qs"
  "derive_preimage domainBridge ps \<noteq> derive_preimage domainFile qs"
  by (simp_all add: derive_preimage_def domainGame_def domainFile_def domainBridge_def
      bytes_of_def byte_of_char_inj)

lemma derive_preimage_inj:
  assumes "derive_preimage domain ps = derive_preimage domain qs"
    "\<forall>p \<in> set ps. length p < 2 ^ 64" "\<forall>q \<in> set qs. length q < 2 ^ 64"
  shows "ps = qs"
  using assms derive_parts_inj by (simp add: derive_preimage_def)

text \<open>The characters of a body that \<open>validate\<close> lets through.\<close>

definition accepted_upper :: string where
  "accepted_upper = crockford @ [CHR 0x0A, CHR 0x0D]"

lemma lower_accepted:
  "map lower_char accepted_upper = ''0123456789abcdefghjkmnpqrstvwxyz'' @ [CHR 0x0A, CHR 0x0D]"
  by code_simp

lemma upper_lower_accepted: "x \<in> set accepted_upper \<Longrightarrow> upper_char (lower_char x) = x"
proof -
  have "map (\<lambda>x. upper_char (lower_char x)) accepted_upper = map (\<lambda>x. x) accepted_upper"
    unfolding accepted_upper_def crockford_def
    by (simp add: lower_char_def upper_char_def char_of_eq_iff)
  then show "x \<in> set accepted_upper \<Longrightarrow> upper_char (lower_char x) = x"
    unfolding map_eq_conv by blast
qed

lemma lower_upper: "lower_char (upper_char c) = lower_char c"
proof (cases "97 \<le> (of_char c :: nat) \<and> (of_char c :: nat) \<le> 122")
  case True
  then have of_u: "(of_char (char_of ((of_char c :: nat) - 32) :: char) :: nat) = of_char c - 32"
    unfolding of_char_of by (intro mod_less) linarith
  have rng: "65 \<le> (of_char c :: nat) - 32 \<and> (of_char c :: nat) - 32 \<le> 90"
    "(of_char c :: nat) - 32 + 32 = of_char c"
    using True by linarith+
  have "lower_char (upper_char c) = lower_char (char_of ((of_char c :: nat) - 32))"
    using True by (simp add: upper_char_def)
  also have "\<dots> = char_of (of_char c :: nat)"
    unfolding lower_char_def of_u using rng by (simp only: if_True simp_thms)
  finally show ?thesis
    using True by (simp add: lower_char_def)
next
  case False
  then show ?thesis
    unfolding upper_char_def by (simp only: if_False)
qed

lemma index_of_None: "index_of xs x = None \<longleftrightarrow> x \<notin> set xs"
  by (induction xs) auto

lemma decode_char_accepted:
  "c = CHR 0x0A \<or> c = CHR 0x0D \<or> decode_char c \<noteq> None \<longleftrightarrow> c \<in> set accepted_upper"
  unfolding decode_char_def accepted_upper_def by (auto simp add: index_of_None)

lemma char_cases:
  "c = lower_char c \<and> (upper_char c = CHR 0x0A \<or> upper_char c = CHR 0x0D \<or> decode_char (upper_char c) \<noteq> None)
    \<longleftrightarrow> c \<in> set (''0123456789abcdefghjkmnpqrstvwxyz'' @ [CHR 0x0A, CHR 0x0D])"
  unfolding decode_char_accepted lower_accepted [symmetric] set_map
proof
  assume "c = lower_char c \<and> upper_char c \<in> set accepted_upper"
  then show "c \<in> lower_char ` set accepted_upper"
    by (metis lower_upper image_eqI)
next
  assume "c \<in> lower_char ` set accepted_upper"
  then obtain x where "c = lower_char x" "x \<in> set accepted_upper"
    by blast
  then show "c = lower_char c \<and> upper_char c \<in> set accepted_upper"
    using upper_lower_accepted by simp
qed

lemma decode_accepts_iff:
  "base32_decode (to_upper body) \<noteq> None \<longleftrightarrow> (\<forall>c \<in> set body. upper_char c = CHR 0x0A \<or>
      upper_char c = CHR 0x0D \<or> decode_char (upper_char c) \<noteq> None)"
  unfolding base32_decode_def decode_accepts_def list_all_iff to_upper_def strip_newlines_def
  by (simp only: set_filter set_map split: if_split) blast

lemma body_chars:
  "body = to_lower body \<and> base32_decode (to_upper body) \<noteq> None \<longleftrightarrow>
    set body \<subseteq> set (''0123456789abcdefghjkmnpqrstvwxyz'' @ [CHR 0x0A, CHR 0x0D])"
proof -
  have "body = to_lower body \<longleftrightarrow> (\<forall>c \<in> set body. c = lower_char c)"
    by (induction body) auto
  then have "body = to_lower body \<and> base32_decode (to_upper body) \<noteq> None \<longleftrightarrow>
      (\<forall>c \<in> set body. c = lower_char c \<and> (upper_char c = CHR 0x0A \<or>
      upper_char c = CHR 0x0D \<or> decode_char (upper_char c) \<noteq> None))"
    unfolding decode_accepts_iff by blast
  then show ?thesis
    unfolding char_cases by blast
qed

lemma lower_examples:
  "to_lower ''No-Intro'' = ''no-intro''" "to_lower ''no-intro'' = ''no-intro''"
  "to_lower ''Tetris'' = ''tetris''" "to_lower ''TETRIS'' = ''tetris''"
  by code_simp+

section \<open>Properties\<close>

text \<open>C32: every identifier the code mints is well formed and tells its body apart:
  the encoding of sixteen bytes validates under its prefix, decodes back to those bytes,
  and equal identifiers have equal bodies.\<close>

theorem identifiers_roundtrip:
  assumes "length body = idBytes"
  shows "validate pfx (id_encode pfx body) = None \<and>
    base32_decode (to_upper (drop (length pfx + 1) (id_encode pfx body))) = Some body \<and>
    (id_encode pfx body = id_encode pfx body' \<longleftrightarrow> body = body')"
  using validate_accepts [OF assms] id_encode_inj base32_roundtrip
  by (simp add: id_encode_def)

theorem identifiers_roundtrip_witness:
  "validate prefixFile (id_encode prefixFile (replicate 16 255)) = None \<and>
   base32_decode (to_upper (drop (length prefixFile + 1) (id_encode prefixFile (replicate 16 255)))) =
     Some (replicate 16 255) \<and>
   (id_encode prefixFile (replicate 16 255) = id_encode prefixFile (replicate 16 0) \<longleftrightarrow>
    replicate 16 (255 :: 8 word) = replicate 16 0)"
  by (rule identifiers_roundtrip) (simp add: idBytes_def)

text \<open>Two derived game identifiers that coincide come from the same family and
  key up to case, or else the two messages that were hashed differ and their truncated hashes
  collide: the message the hash reads determines the parts.\<close>

theorem game_id_collision:
  assumes "GameIDFromReference sha f k = GameIDFromReference sha f' k'"
    and "length f < 2 ^ 64" "length k < 2 ^ 64" "length f' < 2 ^ 64" "length k' < 2 ^ 64"
  shows "to_lower f = to_lower f' \<and> to_lower k = to_lower k' \<or>
    (let x = derive_preimage domainGame [bytes_of (to_lower f), bytes_of (to_lower k)];
         y = derive_preimage domainGame [bytes_of (to_lower f'), bytes_of (to_lower k')]
     in x \<noteq> y \<and> take idBytes (sha x) = take idBytes (sha y))"
proof (cases "derive_preimage domainGame [bytes_of (to_lower f), bytes_of (to_lower k)] =
    derive_preimage domainGame [bytes_of (to_lower f'), bytes_of (to_lower k')]")
  case True
  then show ?thesis
    using derive_preimage_inj [OF True] assms(2-5) by (simp add: bytes_of_inj)
next
  case False
  then show ?thesis
    using assms(1) by (auto simp add: GameIDFromReference_def id_encode_inj derive_def)
qed

theorem game_id_collision_witness:
  "let sha = (\<lambda>b :: bytes. replicate 16 0 @ b) in
   to_lower ''No-Intro'' = to_lower ''no-intro'' \<and> to_lower ''Tetris'' = to_lower ''TETRIS'' \<or>
    (let x = derive_preimage domainGame [bytes_of (to_lower ''No-Intro''), bytes_of (to_lower ''Tetris'')];
         y = derive_preimage domainGame [bytes_of (to_lower ''no-intro''), bytes_of (to_lower ''TETRIS'')]
     in x \<noteq> y \<and> take idBytes (sha x) = take idBytes (sha y))"
  unfolding Let_def
  by (rule game_id_collision [unfolded Let_def, of "\<lambda>b. replicate 16 0 @ b"])
    (simp_all only: GameIDFromReference_def lower_examples, simp_all)

text \<open>Which strings \<open>validate\<close> accepts, exactly: the prefix and twenty-six
  characters of the lowercase alphabet or line breaks, which the base32 decoder skips.  An
  identifier with a line break in it is therefore accepted although the code never mints one.\<close>

theorem validate_exact:
  "validate pfx s = None \<longleftrightarrow>
    (\<exists>body. s = pfx @ ''_'' @ body \<and> length body = 26 \<and>
      set body \<subseteq> set (''0123456789abcdefghjkmnpqrstvwxyz'' @ [CHR 0x0A, CHR 0x0D]))"
proof -
  have body: "body = to_lower body \<and> base32_decode (to_upper body) \<noteq> None \<longleftrightarrow>
      set body \<subseteq> set (''0123456789abcdefghjkmnpqrstvwxyz'' @ [CHR 0x0A, CHR 0x0D])" for body
    by (rule body_chars)
  show ?thesis
  proof
    assume ok: "validate pfx s = None"
    then have "has_prefix s (pfx @ ''_'')"
      by (auto simp add: validate_def Let_def split: if_splits)
    then obtain r where "s = pfx @ ''_'' @ r"
      by (auto simp add: has_prefix_iff)
    then show "\<exists>body. s = pfx @ ''_'' @ body \<and> length body = 26 \<and>
        set body \<subseteq> set (''0123456789abcdefghjkmnpqrstvwxyz'' @ [CHR 0x0A, CHR 0x0D])"
      using ok body [of r] by (auto simp only: validate_eq option.distinct split: if_splits)
  next
    assume "\<exists>body. s = pfx @ ''_'' @ body \<and> length body = 26 \<and>
        set body \<subseteq> set (''0123456789abcdefghjkmnpqrstvwxyz'' @ [CHR 0x0A, CHR 0x0D])"
    then obtain r where "s = pfx @ ''_'' @ r" "length r = 26"
      "r = to_lower r \<and> base32_decode (to_upper r) \<noteq> None"
      using body by blast
    then show "validate pfx s = None"
      by (simp only: validate_eq) simp
  qed
qed

end
