(* ===== verification/Events.thy ===== *)
theory Events
  imports Ids
begin

text \<open>
  The event vocabulary, \<open>src/protocol/events.go\<close>: kinds (a Go string type; a
  value outside the constants is \<open>EventOther\<close>, holding that string), the table
  that gives each kind its retention class and whether it may name a title, and the
  validation of the envelope.
\<close>

section \<open>Kinds and classes\<close>

datatype Retention =
    RetentionOperational
  | RetentionSecurity
  | RetentionAggregate
  | RetentionAudit

datatype (plugins only: code size) EventKind =
    EventBridgeEnrolled
  | EventBridgeApproved
  | EventBridgeOnline
  | EventBridgeOffline
  | EventBridgeStale
  | EventBridgeDisabled
  | EventBridgeRevoked
  | EventTokenIssued
  | EventTokenRotated
  | EventTokenGraceUsed
  | EventTokenReuseDetect
  | EventTokenFamilyRevkd
  | EventInventorySnapshot
  | EventInventoryDelta
  | EventInventoryTombstone
  | EventInventoryReconcile
  | EventInventoryDrift
  | EventAccessRequested
  | EventAccessApproved
  | EventAccessDenied
  | EventGrantIssued
  | EventGrantExpired
  | EventGrantRevoked
  | EventGrantReplay
  | EventTransferStarted
  | EventTransferResumed
  | EventTransferRouted
  | EventTransferCompleted
  | EventTransferFailed
  | EventTransferCancelled
  | EventDestinationState
  | EventVerificationPassed
  | EventVerificationConflict
  | EventReferenceImported
  | EventCoverageSnapshot
  | EventModerationReport
  | EventModerationAction
  | EventModerationAppeal
  | EventAdminAction
  | EventAuthFailure
  | EventRateLimited
  | EventUserRegistered
  | EventSwarmCreated
  | EventSwarmDeleted
  | EventInvitationIssued
  | EventInvitationDeleted
  | EventBridgeReenrolled
  | EventBridgeRemoved
  | EventOther string

fun event_name :: "EventKind \<Rightarrow> string" where
  "event_name EventBridgeEnrolled = ''bridge.enrolled''"
| "event_name EventBridgeApproved = ''bridge.approved''"
| "event_name EventBridgeOnline = ''bridge.online''"
| "event_name EventBridgeOffline = ''bridge.offline''"
| "event_name EventBridgeStale = ''bridge.stale''"
| "event_name EventBridgeDisabled = ''bridge.disabled''"
| "event_name EventBridgeRevoked = ''bridge.revoked''"
| "event_name EventTokenIssued = ''token.issued''"
| "event_name EventTokenRotated = ''token.rotated''"
| "event_name EventTokenGraceUsed = ''token.grace_used''"
| "event_name EventTokenReuseDetect = ''token.reuse_detected''"
| "event_name EventTokenFamilyRevkd = ''token.family_revoked''"
| "event_name EventInventorySnapshot = ''inventory.snapshot''"
| "event_name EventInventoryDelta = ''inventory.delta''"
| "event_name EventInventoryTombstone = ''inventory.tombstone''"
| "event_name EventInventoryReconcile = ''inventory.reconcile''"
| "event_name EventInventoryDrift = ''inventory.drift_detected''"
| "event_name EventAccessRequested = ''access.requested''"
| "event_name EventAccessApproved = ''access.approved''"
| "event_name EventAccessDenied = ''access.denied''"
| "event_name EventGrantIssued = ''grant.issued''"
| "event_name EventGrantExpired = ''grant.expired''"
| "event_name EventGrantRevoked = ''grant.revoked''"
| "event_name EventGrantReplay = ''grant.replay_detected''"
| "event_name EventTransferStarted = ''transfer.started''"
| "event_name EventTransferResumed = ''transfer.resumed''"
| "event_name EventTransferRouted = ''transfer.routed''"
| "event_name EventTransferCompleted = ''transfer.completed''"
| "event_name EventTransferFailed = ''transfer.failed''"
| "event_name EventTransferCancelled = ''transfer.cancelled''"
| "event_name EventDestinationState = ''destination.state_changed''"
| "event_name EventVerificationPassed = ''verification.passed''"
| "event_name EventVerificationConflict = ''verification.conflict''"
| "event_name EventReferenceImported = ''reference.imported''"
| "event_name EventCoverageSnapshot = ''coverage.snapshot''"
| "event_name EventModerationReport = ''moderation.report''"
| "event_name EventModerationAction = ''moderation.action''"
| "event_name EventModerationAppeal = ''moderation.appeal''"
| "event_name EventAdminAction = ''admin.action''"
| "event_name EventAuthFailure = ''auth.failure''"
| "event_name EventRateLimited = ''rate.limited''"
| "event_name EventUserRegistered = ''user.registered''"
| "event_name EventSwarmCreated = ''swarm.created''"
| "event_name EventSwarmDeleted = ''swarm.deleted''"
| "event_name EventInvitationIssued = ''invitation.issued''"
| "event_name EventInvitationDeleted = ''invitation.deleted''"
| "event_name EventBridgeReenrolled = ''bridge.reenrolled''"
| "event_name EventBridgeRemoved = ''bridge.removed''"
| "event_name (EventOther s) = s"

definition all_kinds :: "EventKind list" where
  "all_kinds = [EventBridgeEnrolled,
     EventBridgeApproved,
     EventBridgeOnline,
     EventBridgeOffline,
     EventBridgeStale,
     EventBridgeDisabled,
     EventBridgeRevoked,
     EventTokenIssued,
     EventTokenRotated,
     EventTokenGraceUsed,
     EventTokenReuseDetect,
     EventTokenFamilyRevkd,
     EventInventorySnapshot,
     EventInventoryDelta,
     EventInventoryTombstone,
     EventInventoryReconcile,
     EventInventoryDrift,
     EventAccessRequested,
     EventAccessApproved,
     EventAccessDenied,
     EventGrantIssued,
     EventGrantExpired,
     EventGrantRevoked,
     EventGrantReplay,
     EventTransferStarted,
     EventTransferResumed,
     EventTransferRouted,
     EventTransferCompleted,
     EventTransferFailed,
     EventTransferCancelled,
     EventDestinationState,
     EventVerificationPassed,
     EventVerificationConflict,
     EventReferenceImported,
     EventCoverageSnapshot,
     EventModerationReport,
     EventModerationAction,
     EventModerationAppeal,
     EventAdminAction,
     EventAuthFailure,
     EventRateLimited,
     EventUserRegistered,
     EventSwarmCreated,
     EventSwarmDeleted,
     EventInvitationIssued,
     EventInvitationDeleted,
     EventBridgeReenrolled,
     EventBridgeRemoved]"

record eventSpec =
  es_Retention :: Retention
  es_NamesTitle :: bool
  es_Summary :: string

definition espec :: "Retention \<Rightarrow> bool \<Rightarrow> string \<Rightarrow> eventSpec option" where
  "espec r t s = Some \<lparr>es_Retention = r, es_NamesTitle = t, es_Summary = s\<rparr>"

section \<open>The table\<close>

fun vocabulary :: "EventKind \<Rightarrow> eventSpec option" where
  "vocabulary EventBridgeEnrolled =
     espec RetentionAudit False
       ''a Bridge completed enrolment against an invitation''"
| "vocabulary EventBridgeApproved =
     espec RetentionAudit False
       ''an owner or administrator approved a pending Bridge''"
| "vocabulary EventBridgeOnline =
     espec RetentionOperational False
       ''a Bridge heartbeat resumed''"
| "vocabulary EventBridgeOffline =
     espec RetentionOperational False
       ''a Bridge stopped heartbeating''"
| "vocabulary EventBridgeStale =
     espec RetentionOperational False
       ''a Bridge has not revalidated inventory within the freshness window''"
| "vocabulary EventBridgeDisabled =
     espec RetentionAudit False
       ''a Bridge was disabled''"
| "vocabulary EventBridgeRevoked =
     espec RetentionAudit False
       ''a Bridge identity was revoked''"
| "vocabulary EventTokenIssued =
     espec RetentionSecurity False
       ''an access or refresh credential was issued''"
| "vocabulary EventTokenRotated =
     espec RetentionSecurity False
       ''a refresh credential rotated normally''"
| "vocabulary EventTokenGraceUsed =
     espec RetentionSecurity False
       ''the one-use previous-token grace path was taken after an interrupted rotation''"
| "vocabulary EventTokenReuseDetect =
     espec RetentionSecurity False
       ''a refresh token was replayed outside the grace path''"
| "vocabulary EventTokenFamilyRevkd =
     espec RetentionSecurity False
       ''a token family was revoked after reuse detection''"
| "vocabulary EventInventorySnapshot =
     espec RetentionOperational True
       ''a Bridge published a full per-Swarm inventory snapshot''"
| "vocabulary EventInventoryDelta =
     espec RetentionOperational True
       ''a Bridge published an incremental inventory change''"
| "vocabulary EventInventoryTombstone =
     espec RetentionOperational True
       ''a Bridge confirmed deletion of an item it previously offered''"
| "vocabulary EventInventoryReconcile =
     espec RetentionOperational False
       ''a full reconciliation pass ran''"
| "vocabulary EventInventoryDrift =
     espec RetentionOperational False
       ''central and Bridge fingerprints disagreed''"
| "vocabulary EventAccessRequested =
     espec RetentionOperational True
       ''a member requested access to an item''"
| "vocabulary EventAccessApproved =
     espec RetentionOperational True
       ''a source operator or policy approved a request''"
| "vocabulary EventAccessDenied =
     espec RetentionOperational True
       ''a source operator or policy denied a request''"
| "vocabulary EventGrantIssued =
     espec RetentionOperational True
       ''the Host issued a short-lived single-item grant''"
| "vocabulary EventGrantExpired =
     espec RetentionOperational False
       ''a grant reached its expiry without being fully used''"
| "vocabulary EventGrantRevoked =
     espec RetentionSecurity False
       ''a grant was revoked before expiry''"
| "vocabulary EventGrantReplay =
     espec RetentionSecurity False
       ''a grant was presented after expiry or by the wrong audience''"
| "vocabulary EventTransferStarted =
     espec RetentionOperational True
       ''a transfer began''"
| "vocabulary EventTransferResumed =
     espec RetentionOperational True
       ''an interrupted transfer resumed from an offset''"
| "vocabulary EventTransferRouted =
     espec RetentionOperational False
       ''a transfer selected or switched between the direct and relayed route''"
| "vocabulary EventTransferCompleted =
     espec RetentionOperational True
       ''a transfer completed and passed final verification''"
| "vocabulary EventTransferFailed =
     espec RetentionOperational True
       ''a transfer failed''"
| "vocabulary EventTransferCancelled =
     espec RetentionOperational True
       ''a transfer was cancelled''"
| "vocabulary EventDestinationState =
     espec RetentionOperational True
       ''the receiving Bridge's destination state machine advanced''"
| "vocabulary EventVerificationPassed =
     espec RetentionOperational True
       ''a payload matched its expected canonical and reference identity''"
| "vocabulary EventVerificationConflict =
     espec RetentionSecurity True
       ''a payload did not match its expected identity''"
| "vocabulary EventReferenceImported =
     espec RetentionAudit False
       ''a reference catalogue version was imported''"
| "vocabulary EventCoverageSnapshot =
     espec RetentionAggregate False
       ''a daily coverage and resilience snapshot was recorded''"
| "vocabulary EventModerationReport =
     espec RetentionAudit False
       ''a member reported content or behaviour''"
| "vocabulary EventModerationAction =
     espec RetentionAudit False
       ''a moderator acted, with actor, reason, evidence, time, duration, and outcome''"
| "vocabulary EventModerationAppeal =
     espec RetentionAudit False
       ''a member appealed a moderation action''"
| "vocabulary EventAdminAction =
     espec RetentionAudit False
       ''an administrative change was made''"
| "vocabulary EventAuthFailure =
     espec RetentionSecurity False
       ''an authentication attempt failed''"
| "vocabulary EventRateLimited =
     espec RetentionSecurity False
       ''a caller exceeded a rate limit''"
| "vocabulary EventUserRegistered =
     espec RetentionAudit False
       ''a Host account was created''"
| "vocabulary EventSwarmCreated =
     espec RetentionAudit False
       ''a Swarm was created''"
| "vocabulary EventSwarmDeleted =
     espec RetentionAudit False
       ''a Swarm and everything scoped to it was deleted''"
| "vocabulary EventInvitationIssued =
     espec RetentionAudit False
       ''a Swarm invitation was issued''"
| "vocabulary EventInvitationDeleted =
     espec RetentionAudit False
       ''a Swarm invitation was deleted''"
| "vocabulary EventBridgeReenrolled =
     espec RetentionAudit False
       ''an owner re-enrolled a revoked Bridge identity''"
| "vocabulary EventBridgeRemoved =
     espec RetentionAudit False
       ''an owner removed a Bridge's membership from a Swarm''"
| "vocabulary (EventOther s) = None"

definition event_Known :: "EventKind \<Rightarrow> bool" where
  "event_Known k = (vocabulary k \<noteq> None)"

definition event_Retention :: "EventKind \<Rightarrow> EventKind + Retention" where
  "event_Retention k = (case vocabulary k of None \<Rightarrow> Inl k | Some sp \<Rightarrow> Inr (es_Retention sp))"

text \<open>A missing map key reads as the zero value of \<open>eventSpec\<close>.\<close>

definition event_NamesTitle :: "EventKind \<Rightarrow> bool" where
  "event_NamesTitle k = (case vocabulary k of None \<Rightarrow> False | Some sp \<Rightarrow> es_NamesTitle sp)"

definition event_Summary :: "EventKind \<Rightarrow> string" where
  "event_Summary k = (case vocabulary k of None \<Rightarrow> '''' | Some sp \<Rightarrow> es_Summary sp)"

definition AllEventKinds :: "string list" where
  "AllEventKinds = sort (map event_name all_kinds)"

section \<open>The envelope\<close>

record Event =
  ev_Kind :: EventKind
  ev_At :: instant
  ev_SwarmID :: string
  ev_ActorUser :: string
  ev_ActorBridge :: string

datatype event_error =
    UnknownKind EventKind
  | MissingTimestamp EventKind
  | BadEventId EventKind id_error

definition optional_id :: "EventKind \<Rightarrow> string \<Rightarrow> string \<Rightarrow> event_error option" where
  "optional_id k pfx s =
     (if s = '''' then None else map_option (BadEventId k) (validate pfx s))"

definition event_Validate :: "Event \<Rightarrow> event_error option" where
  "event_Validate e =
     (if \<not> event_Known (ev_Kind e) then Some (UnknownKind (ev_Kind e))
      else if ev_At e = 0 then Some (MissingTimestamp (ev_Kind e))
      else case optional_id (ev_Kind e) ''usr'' (ev_ActorUser e) of Some err \<Rightarrow> Some err
      | None \<Rightarrow> (case optional_id (ev_Kind e) prefixBridge (ev_ActorBridge e) of Some err \<Rightarrow> Some err
      | None \<Rightarrow> optional_id (ev_Kind e) ''swm'' (ev_SwarmID e)))"

section \<open>Lemmas\<close>

lemma event_Known_iff: "event_Known k \<longleftrightarrow> (\<forall>s. k \<noteq> EventOther s)"
  by (cases k) (simp_all add: event_Known_def espec_def)

lemma all_kinds_known: "event_Known k \<longleftrightarrow> k \<in> set all_kinds"
  by (cases k) (simp_all add: event_Known_def espec_def all_kinds_def)

lemma titles_expire:
  "vocabulary k = Some sp \<Longrightarrow> es_NamesTitle sp \<Longrightarrow>
    es_Retention sp = RetentionOperational \<or> es_Retention sp = RetentionSecurity"
  by (cases k) (auto simp add: espec_def)

section \<open>Properties\<close>

text \<open>An event the Host accepts has a retention class, and a kind that may name a
  title is never in a class that is kept: every accepted event that can carry a title expires.\<close>

theorem accepted_titles_expire:
  assumes "event_Validate e = None"
  shows "event_Known (ev_Kind e) \<and>
    (\<exists>r. event_Retention (ev_Kind e) = Inr r \<and>
      (event_NamesTitle (ev_Kind e) \<longrightarrow> r \<noteq> RetentionAggregate \<and> r \<noteq> RetentionAudit))"
proof -
  have known: "event_Known (ev_Kind e)"
    using assms by (auto simp add: event_Validate_def split: if_splits)
  then obtain sp where "vocabulary (ev_Kind e) = Some sp"
    by (auto simp add: event_Known_def)
  then show ?thesis
    using known titles_expire [of "ev_Kind e" sp]
    by (auto simp add: event_Retention_def event_NamesTitle_def)
qed

theorem accepted_titles_expire_witness:
  "event_Known EventTransferStarted \<and>
    (\<exists>r. event_Retention EventTransferStarted = Inr r \<and>
      (event_NamesTitle EventTransferStarted \<longrightarrow> r \<noteq> RetentionAggregate \<and> r \<noteq> RetentionAudit))"
  using accepted_titles_expire
    [of "\<lparr>ev_Kind = EventTransferStarted, ev_At = 1, ev_SwarmID = '''', ev_ActorUser = '''',
         ev_ActorBridge = ''''\<rparr>"]
  by (simp add: event_Validate_def event_Known_def espec_def optional_id_def)

end
