(* ===== verification/Credentials.thy ===== *)
theory Credentials
  imports Ids Events
begin

text \<open>
  The Host half of the rotating refresh credential protocol,
  \<open>src/auth/refresh.go\<close>, and its two stores: the in-memory one of that file and
  the table of \<open>src/host/hoststore/bridgecredentials.go\<close>.

  A \<open>Verifier\<close> holds the store's two operations, the hash of a token and the
  configured grace period; the clock reading and the freshly minted token of a call
  are its arguments.  \<open>auth.Store\<close> is the locale \<open>credential_store\<close>: its laws are
  what the protocol relies on, proved for both stores.  Every operation returns the
  store after it, so a refused or failed call shows what it left behind.
\<close>

section \<open>Constants, errors, families\<close>

definition GraceWindow :: int where "GraceWindow = 45 * 1000000000"

definition AccessTokenLifetime :: int where "AccessTokenLifetime = 5 * 60 * 1000000000"

datatype auth_error =
    ErrUnknownToken
  | ErrFamilyRevoked
  | ErrReuseDetected
  | ErrWrongBridge
  | ErrInvalidBridge id_error
  | ErrPersist string

type_synonym Token = string

record FamilyState =
  fs_BridgeID :: string
  fs_CurrentHash :: string
  fs_PreviousHash :: string
  fs_PreviousIssuedAt :: instant
  fs_PreviousConsumed :: bool
  fs_Generation :: "64 word"
  fs_Revoked :: bool
  fs_RevokedReason :: string

datatype Outcome = OutcomeRotated | OutcomeRecovered

record Result =
  r_Outcome :: Outcome
  r_Refresh :: Token
  r_AccessExpiresAt :: instant
  r_Generation :: "64 word"
  r_Event :: EventKind

record 's Verifier =
  v_Load :: "'s \<Rightarrow> string \<Rightarrow> FamilyState option"
  v_Save :: "'s \<Rightarrow> FamilyState \<Rightarrow> string + 's"
  v_Sha :: "string \<Rightarrow> bytes"
  v_Grace :: int

section \<open>The verifier\<close>

definition token_Hash :: "'s Verifier \<Rightarrow> Token \<Rightarrow> string" where
  "token_Hash V t = hex_encode (v_Sha V t)"

definition equalHash :: "string \<Rightarrow> string \<Rightarrow> bool" where
  "equalHash a b = (a = b)"

definition verifier_grace :: "'s Verifier \<Rightarrow> int" where
  "verifier_grace V = (if v_Grace V > 0 then v_Grace V else GraceWindow)"

definition Enroll :: "'s Verifier \<Rightarrow> Token \<Rightarrow> 's \<Rightarrow> string \<Rightarrow> 's \<times> (auth_error + Token)" where
  "Enroll V token st bridge =
     (case validate prefixBridge bridge of
        Some e \<Rightarrow> (st, Inl (ErrInvalidBridge e))
      | None \<Rightarrow>
        (case v_Save V st \<lparr>fs_BridgeID = bridge, fs_CurrentHash = token_Hash V token,
             fs_PreviousHash = '''', fs_PreviousIssuedAt = 0, fs_PreviousConsumed = False,
             fs_Generation = 1, fs_Revoked = False, fs_RevokedReason = ''''\<rparr> of
           Inl e \<Rightarrow> (st, Inl (ErrPersist e))
         | Inr st' \<Rightarrow> (st', Inr token)))"

text \<open>The unexported \<open>revoke\<close>: it ends the family and reports the reuse.\<close>

definition revoke_family :: "'s Verifier \<Rightarrow> 's \<Rightarrow> FamilyState \<Rightarrow> string \<Rightarrow> 's \<times> auth_error" where
  "revoke_family V st state reason =
     (case v_Save V st (state\<lparr>fs_Revoked := True, fs_RevokedReason := reason,
          fs_PreviousHash := '''', fs_CurrentHash := ''''\<rparr>) of
        Inl e \<Rightarrow> (st, ErrPersist e)
      | Inr st' \<Rightarrow> (st', ErrReuseDetected))"

definition Rotate :: "'s Verifier \<Rightarrow> instant \<Rightarrow> Token \<Rightarrow> 's \<Rightarrow> string \<Rightarrow> Token \<Rightarrow> 's \<times> (auth_error + Result)" where
  "Rotate V now nxt st bridge presented =
     (case v_Load V st bridge of
        None \<Rightarrow> (st, Inl ErrUnknownToken)
      | Some state \<Rightarrow>
        if fs_Revoked state then (st, Inl ErrFamilyRevoked)
        else if fs_BridgeID state \<noteq> bridge then (st, Inl ErrWrongBridge)
        else let hash = token_Hash V presented in
        if equalHash hash (fs_CurrentHash state) then
          (let state' = state\<lparr>fs_PreviousHash := fs_CurrentHash state, fs_PreviousIssuedAt := now,
                 fs_PreviousConsumed := False, fs_CurrentHash := token_Hash V nxt,
                 fs_Generation := fs_Generation state + 1\<rparr> in
           case v_Save V st state' of
             Inl e \<Rightarrow> (st, Inl (ErrPersist e))
           | Inr st' \<Rightarrow> (st', Inr \<lparr>r_Outcome = OutcomeRotated, r_Refresh = nxt,
               r_AccessExpiresAt = now + AccessTokenLifetime,
               r_Generation = fs_Generation state', r_Event = EventTokenRotated\<rparr>))
        else if fs_PreviousHash state \<noteq> '''' \<and> equalHash hash (fs_PreviousHash state) then
          (if fs_PreviousConsumed state then
             (case revoke_family V st state ''the previous credential was presented twice'' of
                (st', e) \<Rightarrow> (st', Inl e))
           else if now - fs_PreviousIssuedAt state > verifier_grace V then
             (case revoke_family V st state
                 ''the previous credential was presented after the recovery window closed'' of
                (st', e) \<Rightarrow> (st', Inl e))
           else
             (let state' = state\<lparr>fs_PreviousConsumed := True, fs_CurrentHash := token_Hash V nxt,
                    fs_Generation := fs_Generation state + 1\<rparr> in
              case v_Save V st state' of
                Inl e \<Rightarrow> (st, Inl (ErrPersist e))
              | Inr st' \<Rightarrow> (st', Inr \<lparr>r_Outcome = OutcomeRecovered, r_Refresh = nxt,
                  r_AccessExpiresAt = now + AccessTokenLifetime,
                  r_Generation = fs_Generation state', r_Event = EventTokenGraceUsed\<rparr>)))
        else (st, Inl ErrUnknownToken))"

definition Authenticate :: "'s Verifier \<Rightarrow> 's \<Rightarrow> string \<Rightarrow> Token \<Rightarrow> auth_error option" where
  "Authenticate V st bridge presented =
     (case v_Load V st bridge of
        None \<Rightarrow> Some ErrUnknownToken
      | Some state \<Rightarrow>
        if fs_Revoked state then Some ErrFamilyRevoked
        else if fs_BridgeID state \<noteq> bridge then Some ErrWrongBridge
        else if \<not> equalHash (token_Hash V presented) (fs_CurrentHash state) then Some ErrUnknownToken
        else None)"

definition Revoke :: "'s Verifier \<Rightarrow> 's \<Rightarrow> string \<Rightarrow> string \<Rightarrow> 's \<times> auth_error option" where
  "Revoke V st bridge reason =
     (case v_Load V st bridge of
        None \<Rightarrow> (st, Some ErrUnknownToken)
      | Some state \<Rightarrow>
        (case v_Save V st (state\<lparr>fs_Revoked := True, fs_RevokedReason := reason,
             fs_CurrentHash := '''', fs_PreviousHash := ''''\<rparr>) of
           Inl e \<Rightarrow> (st, Some (ErrPersist e))
         | Inr st' \<Rightarrow> (st', None)))"

definition ReEnroll :: "'s Verifier \<Rightarrow> Token \<Rightarrow> 's \<Rightarrow> string \<Rightarrow> 's \<times> (auth_error + Token)" where
  "ReEnroll V token st bridge =
     (case v_Load V st bridge of
        None \<Rightarrow> (st, Inl ErrUnknownToken)
      | Some state \<Rightarrow>
        (case v_Save V st (state\<lparr>fs_Revoked := False, fs_RevokedReason := '''',
             fs_CurrentHash := token_Hash V token, fs_PreviousHash := '''',
             fs_PreviousConsumed := False, fs_PreviousIssuedAt := 0,
             fs_Generation := fs_Generation state + 1\<rparr>) of
           Inl e \<Rightarrow> (st, Inl (ErrPersist e))
         | Inr st' \<Rightarrow> (st', Inr token)))"

section \<open>The in-memory store\<close>

record MemoryStore =
  ms_families :: "string \<rightharpoonup> FamilyState"
  ms_SaveHook :: "(FamilyState \<Rightarrow> string option) option"

definition NewMemoryStore :: MemoryStore where
  "NewMemoryStore = \<lparr>ms_families = Map.empty, ms_SaveHook = None\<rparr>"

definition memory_Load :: "MemoryStore \<Rightarrow> string \<Rightarrow> FamilyState option" where
  "memory_Load m bid = ms_families m bid"

definition memory_Save :: "MemoryStore \<Rightarrow> FamilyState \<Rightarrow> string + MemoryStore" where
  "memory_Save m s =
     (case (case ms_SaveHook m of None \<Rightarrow> None | Some hook \<Rightarrow> hook s) of
        Some e \<Rightarrow> Inl e
      | None \<Rightarrow> Inr (m\<lparr>ms_families := (ms_families m)(fs_BridgeID s \<mapsto> s)\<rparr>))"

section \<open>The table\<close>

text \<open>A row of \<open>bridge_credential_families\<close>; \<open>None\<close> in the nullable timestamp is
  SQL's NULL.  The driver's conversion of a time to the column's precision is
  \<open>db_time\<close>, and \<open>db_down\<close> says which statements the database refuses.  The foreign
  key asks for a row of \<open>bridges\<close>.\<close>

record family_row =
  row_current_hash :: string
  row_previous_hash :: string
  row_previous_issued_at :: "instant option"
  row_previous_consumed :: bool
  row_generation :: "64 word"
  row_revoked :: bool
  row_revoked_reason :: string

record cred_db =
  db_bridges :: "string \<rightharpoonup> bytes"
  db_families :: "string \<rightharpoonup> family_row"
  db_time :: "instant \<Rightarrow> instant"
  db_down :: bool

definition bridge_cred_Load :: "cred_db \<Rightarrow> string \<Rightarrow> FamilyState option" where
  "bridge_cred_Load db bid =
     (if db_down db then None
      else case db_families db bid of
        None \<Rightarrow> None
      | Some row \<Rightarrow> Some \<lparr>fs_BridgeID = bid, fs_CurrentHash = row_current_hash row,
          fs_PreviousHash = row_previous_hash row,
          fs_PreviousIssuedAt = (case row_previous_issued_at row of None \<Rightarrow> 0 | Some t \<Rightarrow> t),
          fs_PreviousConsumed = row_previous_consumed row,
          fs_Generation = row_generation row, fs_Revoked = row_revoked row,
          fs_RevokedReason = row_revoked_reason row\<rparr>)"

definition bridge_cred_Save :: "cred_db \<Rightarrow> FamilyState \<Rightarrow> string + cred_db" where
  "bridge_cred_Save db state =
     (if db_down db \<or> db_bridges db (fs_BridgeID state) = None
      then Inl ''hoststore: saving credential family''
      else Inr (db\<lparr>db_families := (db_families db)(fs_BridgeID state \<mapsto>
        \<lparr>row_current_hash = fs_CurrentHash state, row_previous_hash = fs_PreviousHash state,
         row_previous_issued_at = (if fs_PreviousIssuedAt state = 0 then None
           else Some (db_time db (fs_PreviousIssuedAt state))),
         row_previous_consumed = fs_PreviousConsumed state,
         row_generation = fs_Generation state, row_revoked = fs_Revoked state,
         row_revoked_reason = fs_RevokedReason state\<rparr>)\<rparr>))"

definition EnsureBridge :: "cred_db \<Rightarrow> string \<Rightarrow> bytes \<Rightarrow> string + cred_db" where
  "EnsureBridge db bid publicKey =
     (if db_down db then Inl ''hoststore: ensuring bridge''
      else Inr (case db_bridges db bid of
          Some k \<Rightarrow> db
        | None \<Rightarrow> db\<lparr>db_bridges := (db_bridges db)(bid \<mapsto> publicKey)\<rparr>))"

section \<open>Sequences of calls\<close>

datatype auth_op =
    OpEnroll Token string
  | OpRotate instant Token string Token
  | OpAuthenticate string Token
  | OpRevoke string string
  | OpReEnroll Token string

fun auth_exec :: "'s Verifier \<Rightarrow> 's \<Rightarrow> auth_op \<Rightarrow> 's" where
  "auth_exec V st (OpEnroll tok b) = fst (Enroll V tok st b)"
| "auth_exec V st (OpRotate now nxt b t) = fst (Rotate V now nxt st b t)"
| "auth_exec V st (OpAuthenticate b t) = st"
| "auth_exec V st (OpRevoke b why) = fst (Revoke V st b why)"
| "auth_exec V st (OpReEnroll tok b) = fst (ReEnroll V tok st b)"

text \<open>The calls that put a fresh family in place of a bridge's.\<close>

fun op_enrolls :: "string \<Rightarrow> auth_op \<Rightarrow> bool" where
  "op_enrolls b (OpEnroll tok c) = (c = b)"
| "op_enrolls b (OpReEnroll tok c) = (c = b)"
| "op_enrolls b _ = False"

definition family_revoked :: "'s Verifier \<Rightarrow> 's \<Rightarrow> string \<Rightarrow> bool" where
  "family_revoked V st b = (case v_Load V st b of None \<Rightarrow> False | Some f \<Rightarrow> fs_Revoked f)"

section \<open>The contract of a store\<close>

text \<open>What the protocol relies on: a family is loaded under its own identity, a save
  that succeeds is what the next load returns (up to the precision the store keeps an
  instant in), and it touches no other family.\<close>

locale credential_store =
  fixes V :: "'s Verifier"
    and inv :: "'s \<Rightarrow> bool"
    and kept :: "'s \<Rightarrow> instant \<Rightarrow> instant"
  assumes load_key: "inv s \<Longrightarrow> v_Load V s b = Some f \<Longrightarrow> fs_BridgeID f = b"
    and save_inv: "inv s \<Longrightarrow> v_Save V s f = Inr s' \<Longrightarrow> inv s'"
    and load_save: "inv s \<Longrightarrow> v_Save V s f = Inr s' \<Longrightarrow>
      v_Load V s' b = (if b = fs_BridgeID f
        then Some (f\<lparr>fs_PreviousIssuedAt := kept s (fs_PreviousIssuedAt f)\<rparr>) else v_Load V s b)"
begin

lemma revoke_family_result:
  assumes "inv s" "v_Load V s b = Some f" "revoke_family V s f why = (s', e)"
  shows "(e = ErrReuseDetected \<and> inv s' \<and>
      (\<exists>g. v_Load V s' b = Some g \<and> fs_Revoked g \<and> fs_RevokedReason g = why) \<and>
      (\<forall>c. c \<noteq> b \<longrightarrow> v_Load V s' c = v_Load V s c)) \<or>
    (s' = s \<and> (\<exists>m. e = ErrPersist m))"
  using assms load_key [OF assms(1,2)]
  by (auto simp add: revoke_family_def load_save save_inv split: sum.splits)

text \<open>A rotation that succeeds took one of two paths, each with its effect.\<close>

lemma Rotate_success:
  assumes "inv s" "Rotate V now nxt s b t = (s', Inr r)"
  obtains f where "v_Load V s b = Some f" "\<not> fs_Revoked f" "inv s'" "r_Refresh r = nxt"
    "r_Generation r = fs_Generation f + 1"
    "r_Outcome r = OutcomeRotated \<and> token_Hash V t = fs_CurrentHash f \<and>
       v_Load V s' b = Some (f\<lparr>fs_PreviousHash := fs_CurrentHash f,
         fs_PreviousIssuedAt := kept s now, fs_PreviousConsumed := False,
         fs_CurrentHash := token_Hash V nxt, fs_Generation := fs_Generation f + 1\<rparr>)
     \<or> r_Outcome r = OutcomeRecovered \<and> token_Hash V t = fs_PreviousHash f \<and>
       token_Hash V t \<noteq> fs_CurrentHash f \<and> fs_PreviousHash f \<noteq> '''' \<and>
       \<not> fs_PreviousConsumed f \<and> now - fs_PreviousIssuedAt f \<le> verifier_grace V \<and>
       v_Load V s' b = Some (f\<lparr>fs_PreviousConsumed := True,
         fs_PreviousIssuedAt := kept s (fs_PreviousIssuedAt f),
         fs_CurrentHash := token_Hash V nxt, fs_Generation := fs_Generation f + 1\<rparr>)"
proof -
  obtain f where f: "v_Load V s b = Some f" "\<not> fs_Revoked f" "fs_BridgeID f = b"
    using assms(2) by (auto simp add: Rotate_def split: option.splits if_splits)
  show thesis
    by (rule that [of f])
      (use assms f in \<open>auto simp add: Rotate_def Let_def equalHash_def load_save save_inv
        split: if_splits sum.splits prod.splits\<close>)
qed

lemma Rotate_inv: "inv s \<Longrightarrow> inv (fst (Rotate V now nxt s b t))"
  by (auto simp add: Rotate_def revoke_family_def Let_def save_inv
      split: option.splits if_splits sum.splits prod.splits)

lemma Rotate_other:
  "inv s \<Longrightarrow> c \<noteq> b \<Longrightarrow> v_Load V (fst (Rotate V now nxt s b t)) c = v_Load V s c"
  by (auto simp add: Rotate_def revoke_family_def Let_def load_save
      split: option.splits if_splits sum.splits prod.splits)

text \<open>A refused rotation leaves the store as it was, unless it revoked the family.\<close>

lemma Rotate_refused:
  "Rotate V now nxt s b t = (s', Inl e) \<Longrightarrow> e \<noteq> ErrReuseDetected \<Longrightarrow> s' = s"
  by (auto simp add: Rotate_def revoke_family_def Let_def
      split: option.splits if_splits sum.splits prod.splits)

lemma Rotate_reuse:
  assumes "inv s" "Rotate V now nxt s b t = (s', Inl ErrReuseDetected)"
  shows "\<exists>g. v_Load V s' b = Some g \<and> fs_Revoked g"
  using assms
  by (auto simp add: Rotate_def revoke_family_def Let_def load_save
      split: option.splits if_splits sum.splits prod.splits)

text \<open>The spent token, presented again.\<close>

lemma Rotate_previous:
  assumes "inv s" "v_Load V s b = Some f" "\<not> fs_Revoked f" "token_Hash V t = fs_PreviousHash f"
    "fs_PreviousHash f \<noteq> ''''" "fs_PreviousHash f \<noteq> fs_CurrentHash f"
  shows "Rotate V now nxt s b t =
    (if fs_PreviousConsumed f then
       map_prod id Inl (revoke_family V s f ''the previous credential was presented twice'')
     else if now - fs_PreviousIssuedAt f > verifier_grace V then
       map_prod id Inl (revoke_family V s f
         ''the previous credential was presented after the recovery window closed'')
     else (case v_Save V s (f\<lparr>fs_PreviousConsumed := True, fs_CurrentHash := token_Hash V nxt,
         fs_Generation := fs_Generation f + 1\<rparr>) of
       Inl e \<Rightarrow> (s, Inl (ErrPersist e))
     | Inr s' \<Rightarrow> (s', Inr \<lparr>r_Outcome = OutcomeRecovered, r_Refresh = nxt,
         r_AccessExpiresAt = now + AccessTokenLifetime,
         r_Generation = fs_Generation f + 1, r_Event = EventTokenGraceUsed\<rparr>)))"
  using assms load_key [OF assms(1,2)]
  by (auto simp add: Rotate_def Let_def equalHash_def split: prod.splits sum.splits)

lemma Authenticate_iff:
  "inv s \<Longrightarrow> Authenticate V s b t = None \<longleftrightarrow>
    (\<exists>f. v_Load V s b = Some f \<and> \<not> fs_Revoked f \<and> token_Hash V t = fs_CurrentHash f)"
  by (auto simp add: Authenticate_def equalHash_def load_key split: option.splits)

lemma Rotate_then_authenticates:
  assumes "inv s" "Rotate V now nxt s b t = (s', Inr r)"
  shows "Authenticate V s' b t' = None \<longleftrightarrow> token_Hash V t' = token_Hash V nxt"
proof (rule Rotate_success [OF assms])
  fix f assume "\<not> fs_Revoked f" "inv s'"
    and "r_Outcome r = OutcomeRotated \<and> token_Hash V t = fs_CurrentHash f \<and>
       v_Load V s' b = Some (f\<lparr>fs_PreviousHash := fs_CurrentHash f,
         fs_PreviousIssuedAt := kept s now, fs_PreviousConsumed := False,
         fs_CurrentHash := token_Hash V nxt, fs_Generation := fs_Generation f + 1\<rparr>)
     \<or> r_Outcome r = OutcomeRecovered \<and> token_Hash V t = fs_PreviousHash f \<and>
       token_Hash V t \<noteq> fs_CurrentHash f \<and> fs_PreviousHash f \<noteq> '''' \<and>
       \<not> fs_PreviousConsumed f \<and> now - fs_PreviousIssuedAt f \<le> verifier_grace V \<and>
       v_Load V s' b = Some (f\<lparr>fs_PreviousConsumed := True,
         fs_PreviousIssuedAt := kept s (fs_PreviousIssuedAt f),
         fs_CurrentHash := token_Hash V nxt, fs_Generation := fs_Generation f + 1\<rparr>)"
  then show ?thesis
    by (auto simp add: Authenticate_iff)
qed

lemma family_revoked_iff:
  "family_revoked V s b \<longleftrightarrow> (\<exists>f. v_Load V s b = Some f \<and> fs_Revoked f)"
  by (auto simp add: family_revoked_def split: option.splits)

lemma auth_exec_inv: "inv s \<Longrightarrow> inv (auth_exec V s oper)"
  by (cases oper) (auto simp add: Enroll_def Revoke_def ReEnroll_def Rotate_inv save_inv
      split: option.splits sum.splits)

text \<open>Only an enrolment of the bridge itself brings a revoked family back.\<close>

lemma exec_keeps_revoked:
  assumes "inv s" "family_revoked V s b" "\<not> op_enrolls b oper"
  shows "family_revoked V (auth_exec V s oper) b"
proof (cases oper)
  case (OpRotate now nxt c t)
  show ?thesis
  proof (cases "c = b")
    case True
    then have "auth_exec V s oper = s"
      using OpRotate assms(2) by (auto simp add: family_revoked_iff Rotate_def)
    then show ?thesis
      using assms(2) by simp
  next
    case False
    then show ?thesis
      using OpRotate assms Rotate_other [of s b c] by (simp add: family_revoked_iff)
  qed
next
  case (OpRevoke c why)
  then show ?thesis
    using assms load_key [OF assms(1)]
    by (auto simp add: Revoke_def family_revoked_iff load_save split: option.splits sum.splits)
next
  case (OpReEnroll tok c)
  then show ?thesis
    using assms load_key [OF assms(1)]
    by (auto simp add: ReEnroll_def family_revoked_iff load_save split: option.splits sum.splits)
next
  case (OpEnroll tok c)
  then show ?thesis
    using assms
    by (auto simp add: Enroll_def family_revoked_iff load_save split: option.splits sum.splits)
qed (use assms in simp)

lemma run_keeps_revoked:
  "inv s \<Longrightarrow> family_revoked V s b \<Longrightarrow> \<forall>oper \<in> set ops. \<not> op_enrolls b oper \<Longrightarrow>
    inv (foldl (auth_exec V) s ops) \<and> family_revoked V (foldl (auth_exec V) s ops) b"
  by (induction ops arbitrary: s) (simp_all add: auth_exec_inv exec_keeps_revoked)

lemma revoked_refuses:
  "family_revoked V s b \<Longrightarrow> Rotate V now nxt s b t = (s, Inl ErrFamilyRevoked) \<and>
    Authenticate V s b t = Some ErrFamilyRevoked"
  by (auto simp add: family_revoked_iff Rotate_def Authenticate_def)

text \<open>One token presented three times: whoever holds it, the third presentation ends
  the family.\<close>

lemma third_presentation:
  assumes "inv s"
    and one: "Rotate V now1 n1 s b t = (s1, Inr r1)"
    and two: "Rotate V now2 n2 s1 b t = (s2, Inr r2)"
    and fresh: "token_Hash V n1 \<noteq> token_Hash V t" "token_Hash V n2 \<noteq> token_Hash V t"
    and three: "Rotate V now3 n3 s2 b t = (s3, res)"
  shows "res = Inl ErrReuseDetected \<and> family_revoked V s3 b \<or>
    s3 = s2 \<and> (\<exists>m. res = Inl (ErrPersist m))"
proof -
  obtain f1 where f1: "v_Load V s1 b = Some f1" "inv s1" "fs_CurrentHash f1 = token_Hash V n1"
    by (rule Rotate_success [OF assms(1) one]) auto
  obtain g where "v_Load V s1 b = Some g" "\<not> fs_Revoked g" "inv s2"
    "r_Outcome r2 = OutcomeRotated \<and> token_Hash V t = fs_CurrentHash g \<or>
     token_Hash V t = fs_PreviousHash g \<and> fs_PreviousHash g \<noteq> '''' \<and>
     (\<exists>p. v_Load V s2 b = Some (g\<lparr>fs_PreviousConsumed := True, fs_PreviousIssuedAt := p,
         fs_CurrentHash := token_Hash V n2, fs_Generation := fs_Generation g + 1\<rparr>))"
    by (rule Rotate_success [OF f1(2) two]) blast
  then obtain f2 where f2: "v_Load V s2 b = Some f2" "\<not> fs_Revoked f2" "inv s2"
    "fs_PreviousHash f2 = token_Hash V t" "fs_PreviousHash f2 \<noteq> ''''" "fs_PreviousConsumed f2"
    "fs_CurrentHash f2 = token_Hash V n2"
    using f1 fresh by auto
  have "Rotate V now3 n3 s2 b t =
      map_prod id Inl (revoke_family V s2 f2 ''the previous credential was presented twice'')"
    using Rotate_previous [OF f2(3,1,2)] f2 fresh by simp
  then obtain e where e: "revoke_family V s2 f2 ''the previous credential was presented twice'' = (s3, e)"
    "res = Inl e"
    using three by (cases "revoke_family V s2 f2 ''the previous credential was presented twice''") auto
  then show ?thesis
    using e(2) revoke_family_result [OF f2(3,1) e(1)] by (auto simp add: family_revoked_iff)
qed

end

section \<open>Both stores keep the contract\<close>

definition memory_verifier :: "(string \<Rightarrow> bytes) \<Rightarrow> int \<Rightarrow> MemoryStore Verifier" where
  "memory_verifier sha g =
     \<lparr>v_Load = memory_Load, v_Save = memory_Save, v_Sha = sha, v_Grace = g\<rparr>"

definition table_verifier :: "(string \<Rightarrow> bytes) \<Rightarrow> int \<Rightarrow> cred_db Verifier" where
  "table_verifier sha g =
     \<lparr>v_Load = bridge_cred_Load, v_Save = bridge_cred_Save, v_Sha = sha, v_Grace = g\<rparr>"

definition memory_inv :: "MemoryStore \<Rightarrow> bool" where
  "memory_inv m = (\<forall>b f. ms_families m b = Some f \<longrightarrow> fs_BridgeID f = b)"

definition table_kept :: "cred_db \<Rightarrow> instant \<Rightarrow> instant" where
  "table_kept db t = (if t = 0 then 0 else db_time db t)"

interpretation mem: credential_store "memory_verifier sha g" memory_inv "\<lambda>_ t. t" for sha g
  by unfold_locales
    (auto simp add: memory_verifier_def memory_Load_def memory_Save_def memory_inv_def
      split: option.splits if_splits)

interpretation tab: credential_store "table_verifier sha g" "\<lambda>_. True" table_kept for sha g
  by unfold_locales
    (auto simp add: table_verifier_def bridge_cred_Load_def bridge_cred_Save_def table_kept_def
      split: option.splits if_splits)

lemma token_Hash_verifiers [simp]:
  "token_Hash (memory_verifier sha g) t = hex_encode (sha t)"
  "token_Hash (table_verifier sha g) t = hex_encode (sha t)"
  by (simp_all add: token_Hash_def memory_verifier_def table_verifier_def)

text \<open>A concrete table for the witnesses: one enrolled bridge, tokens hashed to their
  own bytes, times kept to the microsecond.\<close>

definition sample_bridge :: string where
  "sample_bridge = ''brg_00000000000000000000000000''"

definition sample_table :: cred_db where
  "sample_table = \<lparr>db_bridges = [sample_bridge \<mapsto> []],
     db_families = [sample_bridge \<mapsto> \<lparr>row_current_hash = hex_encode (bytes_of ''a''),
       row_previous_hash = '''', row_previous_issued_at = None, row_previous_consumed = False,
       row_generation = 1, row_revoked = False, row_revoked_reason = ''''\<rparr>],
     db_time = (\<lambda>t. t div 1000 * 1000), db_down = False\<rparr>"

definition sample_memory :: MemoryStore where
  "sample_memory = \<lparr>ms_families = [sample_bridge \<mapsto> \<lparr>fs_BridgeID = sample_bridge,
       fs_CurrentHash = hex_encode (bytes_of ''a''), fs_PreviousHash = '''',
       fs_PreviousIssuedAt = 0, fs_PreviousConsumed = False, fs_Generation = 1,
       fs_Revoked = False, fs_RevokedReason = ''''\<rparr>], ms_SaveHook = None\<rparr>"

lemmas sample_defs = table_verifier_def sample_table_def
  Rotate_def revoke_family_def Authenticate_def Revoke_def Enroll_def ReEnroll_def
  bridge_cred_Load_def bridge_cred_Save_def token_Hash_def equalHash_def verifier_grace_def
  GraceWindow_def Let_def

lemmas sample_eval = hex_encode_def hex_digit_def bytes_of_def byte_of_char_def

section \<open>Properties\<close>

text \<open>Two holders of one refresh token cannot both go on using it: once the table has
  accepted a token twice (the rotation and the one recovery), presenting it a third time
  revokes the whole family, in the table, whoever presents it and whenever; only a write
  the database refuses can delay that, and then nothing has changed.\<close>

theorem third_presentation_revokes:
  assumes "Rotate (table_verifier sha g) ta na s b t = (sa, Inr ra)"
    and "Rotate (table_verifier sha g) tb nb sa b t = (sb, Inr rb)"
    and "token_Hash (table_verifier sha g) na \<noteq> token_Hash (table_verifier sha g) t"
    and "token_Hash (table_verifier sha g) nb \<noteq> token_Hash (table_verifier sha g) t"
    and "Rotate (table_verifier sha g) tc nc sb b t = (sc, res)"
  shows "res = Inl ErrReuseDetected \<and> family_revoked (table_verifier sha g) sc b \<or>
    sc = sb \<and> (\<exists>m. res = Inl (ErrPersist m))"
  by (rule tab.third_presentation [OF TrueI assms(1-4) assms(5)])

theorem third_presentation_revokes_witness:
  "let V = table_verifier bytes_of 0;
       sa = fst (Rotate V 1000 ''b'' sample_table sample_bridge ''a'');
       sb = fst (Rotate V 2000 ''c'' sa sample_bridge ''a'');
       x = Rotate V 3000 ''d'' sb sample_bridge ''a''
   in snd x = Inl ErrReuseDetected \<and> family_revoked V (fst x) sample_bridge \<or>
      fst x = sb \<and> (\<exists>m. snd x = Inl (ErrPersist m))"
proof -
  let ?V = "table_verifier bytes_of 0"
  let ?x = "Rotate ?V 1000 ''b'' sample_table sample_bridge ''a''"
  let ?y = "Rotate ?V 2000 ''c'' (fst ?x) sample_bridge ''a''"
  have one: "?x = (fst ?x, Inr (projr (snd ?x)))"
    by (simp add: sample_defs sample_eval)
  have two: "?y = (fst ?y, Inr (projr (snd ?y)))"
    by (simp add: sample_defs sample_eval)
  have fresh: "token_Hash ?V ''b'' \<noteq> token_Hash ?V ''a''" "token_Hash ?V ''c'' \<noteq> token_Hash ?V ''a''"
    by (simp_all add: sample_eval)
  show ?thesis
    unfolding Let_def
    by (rule third_presentation_revokes [OF one two fresh prod.collapse [symmetric]])
qed

text \<open>C14: the recovery path is exact.  Presenting the previous token of a live family in a
  working table succeeds if and only if it was not used before and the grace window is still
  open (up to and including its last instant); otherwise the family is revoked, in the table,
  with the reason.\<close>

theorem recovery_window_exact:
  assumes "bridge_cred_Load db b = Some f" and "\<not> fs_Revoked f"
    and "token_Hash (table_verifier sha g) t = fs_PreviousHash f"
    and "fs_PreviousHash f \<noteq> ''''" and "fs_PreviousHash f \<noteq> fs_CurrentHash f"
    and "db_bridges db b \<noteq> None"
    and "Rotate (table_verifier sha g) now nxt db b t = (db', res)"
  shows "if \<not> fs_PreviousConsumed f \<and> now - fs_PreviousIssuedAt f \<le> (if g > 0 then g else GraceWindow)
    then \<exists>r. res = Inr r \<and> r_Outcome r = OutcomeRecovered \<and> r_Refresh r = nxt \<and>
           r_Generation r = fs_Generation f + 1
    else res = Inl ErrReuseDetected \<and> family_revoked (table_verifier sha g) db' b"
proof -
  have ops: "v_Load (table_verifier sha g) = bridge_cred_Load"
    "v_Save (table_verifier sha g) = bridge_cred_Save"
    "verifier_grace (table_verifier sha g) = (if g > 0 then g else GraceWindow)"
    by (simp_all add: table_verifier_def verifier_grace_def)
  have up: "\<not> db_down db" "fs_BridgeID f = b"
    using assms(1) by (auto simp add: bridge_cred_Load_def split: if_splits option.splits)
  have "Rotate (table_verifier sha g) now nxt db b t =
    (if fs_PreviousConsumed f then
       map_prod id Inl (revoke_family (table_verifier sha g) db f ''the previous credential was presented twice'')
     else if now - fs_PreviousIssuedAt f > (if g > 0 then g else GraceWindow) then
       map_prod id Inl (revoke_family (table_verifier sha g) db f
         ''the previous credential was presented after the recovery window closed'')
     else (case bridge_cred_Save db (f\<lparr>fs_PreviousConsumed := True,
         fs_CurrentHash := token_Hash (table_verifier sha g) nxt, fs_Generation := fs_Generation f + 1\<rparr>) of
       Inl e \<Rightarrow> (db, Inl (ErrPersist e))
     | Inr s' \<Rightarrow> (s', Inr \<lparr>r_Outcome = OutcomeRecovered, r_Refresh = nxt,
         r_AccessExpiresAt = now + AccessTokenLifetime,
         r_Generation = fs_Generation f + 1, r_Event = EventTokenGraceUsed\<rparr>)))"
    using tab.Rotate_previous [of sha g db b f t now nxt] assms(1-5) unfolding ops by blast
  then show ?thesis
    using assms(6,7) up
    by (auto simp add: revoke_family_def ops bridge_cred_Save_def family_revoked_def
        bridge_cred_Load_def split: if_splits)
qed

theorem recovery_window_exact_witness:
  "let V = table_verifier bytes_of 0;
       db = fst (Rotate V 1000 ''b'' sample_table sample_bridge ''a'');
       f = the (bridge_cred_Load db sample_bridge);
       x = Rotate V 45000001000 ''c'' db sample_bridge ''a''
   in (if \<not> fs_PreviousConsumed f \<and> 45000001000 - fs_PreviousIssuedAt f \<le> (if (0 :: int) > 0 then 0 else GraceWindow)
       then \<exists>r. snd x = Inr r \<and> r_Outcome r = OutcomeRecovered \<and> r_Refresh r = ''c'' \<and>
              r_Generation r = fs_Generation f + 1
       else snd x = Inl ErrReuseDetected \<and> family_revoked V (fst x) sample_bridge)"
proof -
  let ?V = "table_verifier bytes_of 0"
  let ?db = "fst (Rotate ?V 1000 ''b'' sample_table sample_bridge ''a'')"
  let ?f = "the (bridge_cred_Load ?db sample_bridge)"
  have load: "bridge_cred_Load ?db sample_bridge = Some ?f"
    by (simp add: sample_defs sample_eval)
  have facts: "\<not> fs_Revoked ?f" "token_Hash ?V ''a'' = fs_PreviousHash ?f"
    "fs_PreviousHash ?f \<noteq> ''''" "fs_PreviousHash ?f \<noteq> fs_CurrentHash ?f"
    "db_bridges ?db sample_bridge \<noteq> None"
    by (simp_all add: sample_defs sample_eval)
  show ?thesis
    unfolding Let_def
    by (rule recovery_window_exact [OF load facts prod.collapse [symmetric]])
qed

text \<open>C21: nothing on the automatic path brings a revoked family back: through any sequence
  of calls for any bridges that does not enrol this one, it stays revoked, and every rotation
  and authentication of the bridge is refused.\<close>

theorem revoked_until_enrolled:
  assumes "family_revoked (table_verifier sha g) db b"
    and "\<forall>oper \<in> set ops. \<not> op_enrolls b oper"
    and "db' = foldl (auth_exec (table_verifier sha g)) db ops"
  shows "family_revoked (table_verifier sha g) db' b \<and>
    Rotate (table_verifier sha g) now nxt db' b t = (db', Inl ErrFamilyRevoked) \<and>
    Authenticate (table_verifier sha g) db' b t = Some ErrFamilyRevoked"
  using tab.run_keeps_revoked [OF TrueI assms(1,2)] tab.revoked_refuses assms(3) by blast

theorem revoked_until_enrolled_witness:
  "let V = table_verifier bytes_of 0;
       db = fst (Revoke V sample_table sample_bridge ''disabled'');
       db' = foldl (auth_exec V) db [OpRotate 5 ''b'' sample_bridge ''a'', OpEnroll ''x'' ''brg_other'']
   in family_revoked V db' sample_bridge \<and>
      Rotate V 9 ''z'' db' sample_bridge ''a'' = (db', Inl ErrFamilyRevoked) \<and>
      Authenticate V db' sample_bridge ''a'' = Some ErrFamilyRevoked"
  unfolding Let_def
  by (rule revoked_until_enrolled
      [where ops = "[OpRotate 5 ''b'' sample_bridge ''a'', OpEnroll ''x'' ''brg_other'']", OF _ _ refl])
    (simp_all add: family_revoked_def sample_defs, simp add: sample_bridge_def)

text \<open>A successful rotation, recovery included, leaves exactly one live credential: the
  next authentication accepts a token if and only if its hash is the one just issued, so the
  token just presented and one that was issued but never delivered are both dead.\<close>

theorem one_live_credential:
  assumes "memory_inv m"
    and "Rotate (memory_verifier sha g) now nxt m b t = (m', Inr r)"
  shows "r_Refresh r = nxt \<and> memory_inv m' \<and>
    (Authenticate (memory_verifier sha g) m' b t' = None \<longleftrightarrow> hex_encode (sha t') = hex_encode (sha nxt)) \<and>
    (\<forall>c. c \<noteq> b \<longrightarrow> memory_Load m' c = memory_Load m c)"
proof -
  have "r_Refresh r = nxt"
    by (rule mem.Rotate_success [OF assms])
  moreover have "v_Load (memory_verifier sha g) = memory_Load"
    by (simp add: memory_verifier_def)
  ultimately show ?thesis
    using mem.Rotate_then_authenticates [OF assms, of t'] mem.Rotate_inv [OF assms(1)]
      mem.Rotate_other [OF assms(1), where b = b] assms(2) by (metis fst_conv token_Hash_verifiers(1))
qed

theorem one_live_credential_witness:
  "let V = memory_verifier bytes_of 0; (m', res) = Rotate V 7 ''b'' sample_memory sample_bridge ''a''
   in (case res of Inl e \<Rightarrow> False | Inr r \<Rightarrow> r_Refresh r = ''b'') \<and> memory_inv m' \<and>
      Authenticate V m' sample_bridge ''b'' = None \<and> Authenticate V m' sample_bridge ''a'' \<noteq> None"
proof -
  obtain m' r where r: "Rotate (memory_verifier bytes_of 0) 7 ''b'' sample_memory sample_bridge ''a'' = (m', Inr r)"
    by (simp add: sample_memory_def sample_defs memory_verifier_def memory_Load_def memory_Save_def)
  have "memory_inv sample_memory"
    by (simp add: memory_inv_def sample_memory_def)
  note live = one_live_credential [OF this r]
  have "hex_encode (bytes_of ''a'') \<noteq> hex_encode (bytes_of ''b'')"
    by (simp add: hex_encode_def hex_digit_def bytes_of_def byte_of_char_def)
  then show ?thesis
    using live [of "''b''"] live [of "''a''"] r by (simp add: Let_def)
qed

end
