(* ===== verification/BridgeCreds.thy ===== *)
theory BridgeCreds
  imports Credentials
begin

text \<open>
  The Bridge half of the credential protocol, \<open>src/auth/bridgestore.go\<close>: the
  credential file with its atomic replacement, and the client that rotates and then
  persists.  The disk is the credential file (absent, unreadable JSON, or a decoded
  credential) and the number of temporary files left in its directory.  Where a system
  call of \<open>Save\<close> fails, or the simulated power loss strikes, is an argument.
\<close>

section \<open>Credentials on disk\<close>

definition SchemaVersion :: int where "SchemaVersion = 1"

record Credential =
  cr_SchemaVersion :: int
  cr_BridgeID :: string
  cr_Refresh :: Token
  cr_Generation :: "64 word"
  cr_PersistedAt :: instant

datatype cred_error =
    ErrNoCredential
  | ErrReading
  | ErrSchema int
  | ErrBadBridge id_error
  | ErrNoToken
  | ErrSaving string
  | ErrSimulatedCrash
  | ErrHost auth_error
  | ErrNotStored cred_error

definition credential_Validate :: "Credential \<Rightarrow> cred_error option" where
  "credential_Validate c =
     (if cr_SchemaVersion c \<noteq> SchemaVersion then Some (ErrSchema (cr_SchemaVersion c))
      else case validate prefixBridge (cr_BridgeID c) of
        Some e \<Rightarrow> Some (ErrBadBridge e)
      | None \<Rightarrow> if cr_Refresh c = '''' then Some ErrNoToken else None)"

datatype cred_file = CredStored Credential | CredCorrupt

record cred_disk =
  cd_file :: "cred_file option"
  cd_temps :: nat
  cd_read_fails :: bool

definition file_Load :: "cred_disk \<Rightarrow> cred_error + Credential" where
  "file_Load d =
     (if cd_file d = None then Inl ErrNoCredential
      else if cd_read_fails d then Inl ErrReading
      else case the (cd_file d) of
        CredCorrupt \<Rightarrow> Inl ErrNoCredential
      | CredStored c \<Rightarrow> (case credential_Validate c of Some e \<Rightarrow> Inl e | None \<Rightarrow> Inr c))"

datatype save_fault =
    NoFault
  | FaultCreate
  | FaultChmod
  | FaultWrite
  | CrashWrite
  | FaultSync
  | FaultClose
  | CrashFsync
  | FaultRename
  | CrashRename
  | FaultOpenDir

text \<open>The temporary file: created, removed again by every failure before the rename,
  consumed by the rename.\<close>

definition temp_create :: "cred_disk \<Rightarrow> cred_disk" where
  "temp_create d = d\<lparr>cd_temps := cd_temps d + 1\<rparr>"

definition temp_remove :: "cred_disk \<Rightarrow> cred_disk" where
  "temp_remove d = d\<lparr>cd_temps := cd_temps d - 1\<rparr>"

definition temp_rename :: "cred_disk \<Rightarrow> Credential \<Rightarrow> cred_disk" where
  "temp_rename d c = d\<lparr>cd_temps := cd_temps d - 1, cd_file := Some (CredStored c)\<rparr>"

definition syncDir :: "save_fault \<Rightarrow> cred_error option" where
  "syncDir fault =
     (if fault = FaultOpenDir then Some (ErrSaving ''opening credential directory'') else None)"

definition file_Save :: "save_fault \<Rightarrow> instant \<Rightarrow> cred_disk \<Rightarrow> Credential \<Rightarrow> cred_disk \<times> cred_error option" where
  "file_Save fault now d c0 =
     (let c = c0\<lparr>cr_SchemaVersion := SchemaVersion, cr_PersistedAt := now\<rparr> in
      case credential_Validate c of
        Some e \<Rightarrow> (d, Some e)
      | None \<Rightarrow>
        if fault = FaultCreate then (d, Some (ErrSaving ''creating temporary credential file''))
        else let d1 = temp_create d in
        if fault = FaultChmod then (temp_remove d1, Some (ErrSaving ''securing temporary credential file''))
        else if fault = FaultWrite then (temp_remove d1, Some (ErrSaving ''writing credential''))
        else if fault = CrashWrite then (temp_remove d1, Some ErrSimulatedCrash)
        else if fault = FaultSync then (temp_remove d1, Some (ErrSaving ''flushing credential''))
        else if fault = FaultClose then (temp_remove d1, Some (ErrSaving ''closing credential''))
        else if fault = CrashFsync then (temp_remove d1, Some ErrSimulatedCrash)
        else if fault = FaultRename then (temp_remove d1, Some (ErrSaving ''publishing credential''))
        else let d2 = temp_rename d1 c in
        if fault = CrashRename then (d2, Some ErrSimulatedCrash)
        else (d2, syncDir fault))"

section \<open>The client\<close>

text \<open>\<open>Client.Refresh\<close>: the exchange with the Host is an argument that acts on the
  Host's state.\<close>

definition Refresh :: "('s \<Rightarrow> string \<Rightarrow> Token \<Rightarrow> 's \<times> (auth_error + Result)) \<Rightarrow> save_fault \<Rightarrow> instant
    \<Rightarrow> cred_disk \<Rightarrow> 's \<Rightarrow> cred_disk \<times> 's \<times> (cred_error + Result)" where
  "Refresh exchange fault now d host =
     (case file_Load d of
        Inl e \<Rightarrow> (d, host, Inl e)
      | Inr current \<Rightarrow>
        (case exchange host (cr_BridgeID current) (cr_Refresh current) of
           (host', Inl e) \<Rightarrow> (d, host', Inl (ErrHost e))
         | (host', Inr result) \<Rightarrow>
             (let nxt = \<lparr>cr_SchemaVersion = 0, cr_BridgeID = cr_BridgeID current,
                 cr_Refresh = r_Refresh result, cr_Generation = r_Generation result,
                 cr_PersistedAt = 0\<rparr> in
              case file_Save fault now d nxt of
                (d', Some e) \<Rightarrow> (d', host', Inl (ErrNotStored e))
              | (d', None) \<Rightarrow> (d', host', Inr result))))"

section \<open>Lemmas\<close>

lemmas temp_defs = temp_create_def temp_remove_def temp_rename_def

lemma file_Save_cases:
  assumes "file_Save fault now d c = (d', e)"
  shows "d' = d \<and> e \<noteq> None \<or>
    d' = d\<lparr>cd_file := Some (CredStored (c\<lparr>cr_SchemaVersion := SchemaVersion, cr_PersistedAt := now\<rparr>))\<rparr> \<and>
    credential_Validate (c\<lparr>cr_SchemaVersion := SchemaVersion, cr_PersistedAt := now\<rparr>) = None \<and>
    (e = None \<or> fault = CrashRename \<or> fault = FaultOpenDir)"
  using assms
  by (auto simp add: file_Save_def Let_def temp_defs syncDir_def split: option.splits if_splits)

lemma file_Save_ok:
  assumes "credential_Validate (c\<lparr>cr_SchemaVersion := SchemaVersion, cr_PersistedAt := now\<rparr>) = None"
  shows "file_Save NoFault now d c =
    (d\<lparr>cd_file := Some (CredStored (c\<lparr>cr_SchemaVersion := SchemaVersion, cr_PersistedAt := now\<rparr>))\<rparr>, None)"
  using assms by (simp add: file_Save_def Let_def temp_defs syncDir_def)

lemma file_Load_stored:
  "cd_file d = Some (CredStored c) \<Longrightarrow> \<not> cd_read_fails d \<Longrightarrow> credential_Validate c = None \<Longrightarrow>
    file_Load d = Inr c"
  by (simp add: file_Load_def)

lemma validated_credential:
  "credential_Validate c = None \<longleftrightarrow> cr_SchemaVersion c = SchemaVersion \<and>
    validate prefixBridge (cr_BridgeID c) = None \<and> cr_Refresh c \<noteq> ''''"
  by (auto simp add: credential_Validate_def split: option.splits)

text \<open>A bridge that holds a token the Host can still be presented with.\<close>

definition client_holds :: "'s Verifier \<Rightarrow> cred_disk \<Rightarrow> string \<Rightarrow> Token \<Rightarrow> bool" where
  "client_holds V d b t = (\<exists>c. cd_file d = Some (CredStored c) \<and> \<not> cd_read_fails d \<and>
     credential_Validate c = None \<and> cr_BridgeID c = b \<and> cr_Refresh c = t)"

lemma Refresh_held:
  assumes "client_holds V d b t" "Rotate V now nxt s b t = (s', Inr r)" "r_Refresh r = nxt" "nxt \<noteq> ''''"
    "Refresh (Rotate V now nxt) fault pnow d s = (d', s2, res)"
  shows "s2 = s' \<and> (d' = d \<and> (\<exists>e. res = Inl e) \<or>
    client_holds V d' b nxt \<and> (res = Inr r \<or> fault = CrashRename \<or> fault = FaultOpenDir))
    \<and> (fault = NoFault \<longrightarrow> client_holds V d' b nxt \<and> res = Inr r)"
proof -
  obtain c where c: "cd_file d = Some (CredStored c)" "\<not> cd_read_fails d"
    "credential_Validate c = None" "cr_BridgeID c = b" "cr_Refresh c = t"
    using assms(1) by (auto simp add: client_holds_def)
  let ?n = "\<lparr>cr_SchemaVersion = 0, cr_BridgeID = b, cr_Refresh = nxt, cr_Generation = r_Generation r,
      cr_PersistedAt = 0\<rparr>"
  obtain d2 e where sv: "file_Save fault pnow d ?n = (d2, e)"
    by fastforce
  have res: "d' = d2" "s2 = s'" "res = (case e of Some e \<Rightarrow> Inl (ErrNotStored e) | None \<Rightarrow> Inr r)"
    using assms(2,3,5) sv file_Load_stored [OF c(1-3)] c(4,5)
    by (auto simp add: Refresh_def Let_def split: option.splits)
  have "credential_Validate (?n\<lparr>cr_SchemaVersion := SchemaVersion, cr_PersistedAt := pnow\<rparr>) = None"
    using c(3,4) assms(4) by (auto simp add: validated_credential)
  then show ?thesis
    using res file_Save_cases [OF sv] file_Save_ok [where c = ?n and now = pnow and d = d] sv c(2)
    by (auto simp add: client_holds_def split: option.splits)
qed

context credential_store
begin

lemma Rotate_current:
  assumes "inv s" "v_Load V s b = Some f" "\<not> fs_Revoked f" "token_Hash V t = fs_CurrentHash f"
    "v_Save V s (f\<lparr>fs_PreviousHash := fs_CurrentHash f, fs_PreviousIssuedAt := now,
       fs_PreviousConsumed := False, fs_CurrentHash := token_Hash V nxt,
       fs_Generation := fs_Generation f + 1\<rparr>) = Inr s'"
  shows "\<exists>r. Rotate V now nxt s b t = (s', Inr r) \<and> r_Refresh r = nxt"
  using assms load_key [OF assms(1,2)] by (simp add: Rotate_def equalHash_def Let_def)

text \<open>Whatever interrupts one refresh, the next one inside the grace window succeeds and
  leaves the bridge with the live credential.\<close>

lemma interrupted_refresh:
  assumes s: "inv s" "ready s"
    and saves: "\<And>x f. inv x \<Longrightarrow> ready x \<Longrightarrow> fs_BridgeID f = b \<Longrightarrow> \<exists>y. v_Save V x f = Inr y \<and> ready y"
    and live: "v_Load V s b = Some f" "\<not> fs_Revoked f" "token_Hash V t = fs_CurrentHash f"
      "fs_CurrentHash f \<noteq> ''''"
    and held: "client_holds V d b t"
    and fresh: "na \<noteq> ''''" "nb \<noteq> ''''"
    and one: "Refresh (Rotate V ta na) fault pa d s = (da, sa, resa)"
    and two: "Refresh (Rotate V tb nb) NoFault pb da sa = (db, sb, resb)"
    and inside: "tb - kept s ta \<le> verifier_grace V"
  shows "(\<exists>r. resb = Inr r \<and> r_Refresh r = nb) \<and> client_holds V db b nb \<and>
    Authenticate V sb b nb = None"
proof -
  have fb: "fs_BridgeID f = b"
    using load_key s(1) live(1) by blast
  let ?g = "f\<lparr>fs_PreviousHash := fs_CurrentHash f, fs_PreviousIssuedAt := ta,
     fs_PreviousConsumed := False, fs_CurrentHash := token_Hash V na, fs_Generation := fs_Generation f + 1\<rparr>"
  obtain sa' where sv: "v_Save V s ?g = Inr sa'" "ready sa'"
    using saves [OF s, of ?g] fb by auto
  obtain ra where ra: "Rotate V ta na s b t = (sa', Inr ra)" "r_Refresh ra = na"
    using Rotate_current [OF s(1) live(1,2,3) sv(1)] by blast
  have sa: "sa = sa'" and da: "da = d \<or> client_holds V da b na"
    using Refresh_held [OF held ra fresh(1) one] by auto
  have "inv sa" "ready sa"
    using s sv sa save_inv by auto
  let ?h = "?g\<lparr>fs_PreviousIssuedAt := kept s ta\<rparr>"
  have load: "v_Load V sa b = Some ?h"
    using load_save [OF s(1) sv(1), of b] fb sa by simp
  have saved: "\<exists>sc. v_Save V sa q = Inr sc" if "fs_BridgeID q = b" for q
    using saves [OF \<open>inv sa\<close> \<open>ready sa\<close> that] by blast
  have second: "\<exists>u sc rb. client_holds V da b u \<and> Rotate V tb nb sa b u = (sc, Inr rb) \<and> r_Refresh rb = nb"
  proof (cases "da = d \<and> token_Hash V t \<noteq> token_Hash V na")
    case True
    have "\<exists>sc. v_Save V sa (?h\<lparr>fs_PreviousConsumed := True, fs_CurrentHash := token_Hash V nb,
        fs_Generation := fs_Generation ?h + 1\<rparr>) = Inr sc"
      by (rule saved) (simp add: fb)
    then show ?thesis
      using Rotate_previous [OF \<open>inv sa\<close> load, of t tb nb] True live inside held by auto
  next
    case False
    then obtain u where u: "client_holds V da b u" "token_Hash V u = fs_CurrentHash ?h"
      using da held by auto
    have "\<exists>sc. v_Save V sa (?h\<lparr>fs_PreviousHash := fs_CurrentHash ?h, fs_PreviousIssuedAt := tb,
        fs_PreviousConsumed := False, fs_CurrentHash := token_Hash V nb,
        fs_Generation := fs_Generation ?h + 1\<rparr>) = Inr sc"
      by (rule saved) (simp add: fb)
    then show ?thesis
      using Rotate_current [OF \<open>inv sa\<close> load _ u(2)] u(1) live(2) by fastforce
  qed
  then obtain u sc rb where u: "client_holds V da b u" "Rotate V tb nb sa b u = (sc, Inr rb)" "r_Refresh rb = nb"
    by blast
  have "sb = sc" "client_holds V db b nb" "resb = Inr rb"
    using Refresh_held [OF u fresh(2) two] by auto
  then show ?thesis
    using Rotate_then_authenticates [OF \<open>inv sa\<close> u(2), of nb] u(3) by simp
qed

end

section \<open>Properties\<close>

text \<open>C4: one interrupted refresh is a non-event.  With the Host's table working, whatever
  failure or power loss strikes the bridge while it persists a rotated credential (before,
  during or after the rename), its next refresh inside the grace window succeeds, and the bridge
  then holds, on disk, the one credential the Host authenticates.\<close>

theorem interrupted_refresh_recovers:
  assumes "\<not> db_down h" "db_bridges h b \<noteq> None"
    and "bridge_cred_Load h b = Some f" "\<not> fs_Revoked f"
    and "token_Hash (table_verifier sha g) t = fs_CurrentHash f" "fs_CurrentHash f \<noteq> ''''"
    and "client_holds (table_verifier sha g) d b t" "na \<noteq> ''''" "nb \<noteq> ''''"
    and "Refresh (Rotate (table_verifier sha g) ta na) fault pa d h = (da, ha, resa)"
    and "Refresh (Rotate (table_verifier sha g) tb nb) NoFault pb da ha = (db, hb, resb)"
    and "tb - table_kept h ta \<le> (if g > 0 then g else GraceWindow)"
  shows "(\<exists>r. resb = Inr r \<and> r_Refresh r = nb) \<and> client_holds (table_verifier sha g) db b nb \<and>
    Authenticate (table_verifier sha g) hb b nb = None"
proof -
  have ops: "v_Load (table_verifier sha g) = bridge_cred_Load"
    "v_Save (table_verifier sha g) = bridge_cred_Save"
    "verifier_grace (table_verifier sha g) = (if g > 0 then g else GraceWindow)"
    by (simp_all add: table_verifier_def verifier_grace_def)
  let ?ready = "\<lambda>x. \<not> db_down x \<and> db_bridges x b \<noteq> None"
  have saves: "\<exists>y. v_Save (table_verifier sha g) x q = Inr y \<and> ?ready y"
    if "?ready x" "fs_BridgeID q = b" for x q
    using that by (simp add: ops bridge_cred_Save_def)
  show ?thesis
    by (rule tab.interrupted_refresh [where ready = ?ready and s = h and f = f and t = t and d = d
          and na = na and ta = ta and fault = fault and pa = pa and da = da and sa = ha and resa = resa
          and pb = pb and tb = tb])
      (use assms saves in \<open>simp_all add: ops\<close>)
qed

definition sample_disk :: cred_disk where
  "sample_disk = \<lparr>cd_file = Some (CredStored \<lparr>cr_SchemaVersion = 1, cr_BridgeID = sample_bridge,
       cr_Refresh = ''a'', cr_Generation = 1, cr_PersistedAt = 0\<rparr>), cd_temps = 0, cd_read_fails = False\<rparr>"

lemma sample_bridge_valid: "validate prefixBridge sample_bridge = None"
proof -
  have "id_encode prefixBridge (replicate 16 0) = sample_bridge"
    by code_simp
  then show ?thesis
    using validate_accepts [of "replicate 16 0" prefixBridge] by (simp add: idBytes_def)
qed

theorem interrupted_refresh_recovers_witness:
  "let V = table_verifier bytes_of 0;
       x = Refresh (Rotate V 1000 ''b'') CrashFsync 0 sample_disk sample_table;
       y = Refresh (Rotate V 30000000000 ''c'') NoFault 0 (fst x) (fst (snd x))
   in (\<exists>r. snd (snd y) = Inr r \<and> r_Refresh r = ''c'') \<and> client_holds V (fst y) sample_bridge ''c'' \<and>
      Authenticate V (fst (snd y)) sample_bridge ''c'' = None"
proof -
  let ?V = "table_verifier bytes_of 0"
  let ?x = "Refresh (Rotate ?V 1000 ''b'') CrashFsync 0 sample_disk sample_table"
  let ?y = "Refresh (Rotate ?V 30000000000 ''c'') NoFault 0 (fst ?x) (fst (snd ?x))"
  let ?f = "the (bridge_cred_Load sample_table sample_bridge)"
  have facts: "\<not> db_down sample_table" "db_bridges sample_table sample_bridge \<noteq> None"
    "bridge_cred_Load sample_table sample_bridge = Some ?f" "\<not> fs_Revoked ?f"
    "token_Hash ?V ''a'' = fs_CurrentHash ?f" "fs_CurrentHash ?f \<noteq> ''''"
    by (simp_all add: sample_defs sample_eval)
  have held: "client_holds ?V sample_disk sample_bridge ''a''"
    using sample_bridge_valid by (simp add: client_holds_def sample_disk_def validated_credential SchemaVersion_def)
  have eqs: "?x = (fst ?x, fst (snd ?x), snd (snd ?x))" "?y = (fst ?y, fst (snd ?y), snd (snd ?y))"
    by simp_all
  have time: "30000000000 - table_kept sample_table 1000 \<le> (if (0 :: int) > 0 then 0 else GraceWindow)"
    by (simp add: table_kept_def sample_table_def GraceWindow_def)
  show ?thesis
    unfolding Let_def
    by (rule interrupted_refresh_recovers [OF facts held _ _ eqs time]) simp_all
qed

end
