(* ===== verification/Manifest.thy ===== *)
theory Manifest
  imports Ids Digest DestState
begin

text \<open>
  The inventory manifest, \<open>src/protocol/manifest.go\<close>: items, manifests and deltas with
  their validation, and the per-platform fingerprints.  Optional pointers are options; the
  Go string types with fixed constants carry an \<open>Other\<close> constructor for any other string.
  SHA-256 is an argument of whatever derives a file identifier.
\<close>

section \<open>Platforms, classes, availability\<close>

type_synonym PlatformID = string
type_synonym FileID = string

definition PlatformGB :: PlatformID where "PlatformGB = ''gb''"
definition PlatformGBC :: PlatformID where "PlatformGBC = ''gbc''"
definition PlatformGBA :: PlatformID where "PlatformGBA = ''gba''"
definition PlatformNDS :: PlatformID where "PlatformNDS = ''nds''"
definition PlatformGenesis :: PlatformID where "PlatformGenesis = ''genesis''"

definition InitialPlatforms :: "PlatformID list" where
  "InitialPlatforms = [PlatformGB, PlatformGBC, PlatformGBA, PlatformNDS, PlatformGenesis]"

datatype Classification =
    ClassUnmatched
  | ClassMatchedUnverified
  | ClassVerifiedExcluded
  | ClassVerifiedEligible
  | ClassConflict
  | ClassOther string

definition class_Publishable :: "Classification \<Rightarrow> bool" where
  "class_Publishable c = (c = ClassVerifiedEligible)"

definition class_NeedsReview :: "Classification \<Rightarrow> bool" where
  "class_NeedsReview c = (c = ClassConflict)"

datatype Availability =
    AvailAvailable
  | AvailOffline
  | AvailStale
  | AvailRemoved
  | AvailOther string

definition CountsTowardResilience :: "Availability \<Rightarrow> bool" where
  "CountsTowardResilience a = (a = AvailAvailable)"

section \<open>Items\<close>

datatype ContainerKind = ContainerNone | ContainerZip | ContainerOther string

record ContainerMember =
  cm_Name :: string
  cm_Size :: int
  cm_CRC32 :: string

record ContainerInfo =
  ci_Kind :: ContainerKind
  ci_Members :: "ContainerMember list"

record ReferenceMatch =
  rm_Family :: string
  rm_SetName :: string
  rm_SetVersion :: string
  rm_EntryName :: string
  rm_CanonicalKey :: string
  rm_Strength :: StrengthLevel

record AdapterRef =
  ar_ID :: string
  ar_Version :: string

definition adapter_String :: "AdapterRef \<Rightarrow> string" where
  "adapter_String a = ar_ID a @ ''/'' @ ar_Version a"

record Item =
  it_FileID :: FileID
  it_GameID :: string
  it_Platform :: PlatformID
  it_Stored :: Digest
  it_Container :: "ContainerInfo option"
  it_Canonical :: Digest
  it_Adapter :: AdapterRef
  it_Classification :: Classification
  it_Reference :: "ReferenceMatch option"
  it_Notes :: "string list"
  it_Availability :: Availability
  it_Destination :: DestinationState
  it_LastVerifiedAt :: instant

definition item_Publishable :: "Item \<Rightarrow> bool" where
  "item_Publishable i = class_Publishable (it_Classification i)"

datatype item_error =
    ItemBadId id_error
  | ItemNoPlatform FileID
  | ItemNoSha FileID
  | ItemIdMismatch FileID
  | ItemNoReference FileID
  | ItemNoAdapter FileID

definition item_Validate :: "(bytes \<Rightarrow> bytes) \<Rightarrow> Item \<Rightarrow> item_error option" where
  "item_Validate sha i =
     (case validate prefixFile (it_FileID i) of
        Some e \<Rightarrow> Some (ItemBadId e)
      | None \<Rightarrow>
        if it_Platform i = '''' then Some (ItemNoPlatform (it_FileID i))
        else if d_SHA256 (it_Canonical i) = '''' then Some (ItemNoSha (it_FileID i))
        else if FileIDFromCanonicalDigest sha (d_SHA256 (it_Canonical i)) \<noteq> it_FileID i
          then Some (ItemIdMismatch (it_FileID i))
        else if class_Publishable (it_Classification i) \<and> it_Reference i = None
          then Some (ItemNoReference (it_FileID i))
        else if ar_ID (it_Adapter i) = '''' \<or> ar_Version (it_Adapter i) = ''''
          then Some (ItemNoAdapter (it_FileID i))
        else None)"

section \<open>Manifests\<close>

definition ManifestSchema :: int where "ManifestSchema = 1"

record Manifest =
  mf_SchemaVersion :: int
  mf_Swarm :: string
  mf_Alias :: string
  mf_Revision :: Revision
  mf_GeneratedAt :: instant
  mf_Items :: "Item list"
  mf_Fingerprints :: "PlatformID \<rightharpoonup> string"

datatype manifest_error =
    ManifestBadSchema int
  | ManifestBadSwarm id_error
  | ManifestBadAlias id_error
  | ManifestNoRevision
  | ManifestBadItem item_error
  | ManifestDuplicate FileID
  | ManifestUnpublishable FileID

fun validate_items :: "(bytes \<Rightarrow> bytes) \<Rightarrow> FileID list \<Rightarrow> Item list \<Rightarrow> manifest_error option" where
  "validate_items sha seen [] = None"
| "validate_items sha seen (it # rest) =
     (case item_Validate sha it of
        Some e \<Rightarrow> Some (ManifestBadItem e)
      | None \<Rightarrow>
        if it_FileID it \<in> set seen then Some (ManifestDuplicate (it_FileID it))
        else if \<not> item_Publishable it then Some (ManifestUnpublishable (it_FileID it))
        else validate_items sha (it_FileID it # seen) rest)"

definition manifest_Validate :: "(bytes \<Rightarrow> bytes) \<Rightarrow> Manifest \<Rightarrow> manifest_error option" where
  "manifest_Validate sha m =
     (if mf_SchemaVersion m \<noteq> ManifestSchema then Some (ManifestBadSchema (mf_SchemaVersion m))
      else case validate ''swm'' (mf_Swarm m) of
        Some e \<Rightarrow> Some (ManifestBadSwarm e)
      | None \<Rightarrow>
        (case validate prefixAlias (mf_Alias m) of
          Some e \<Rightarrow> Some (ManifestBadAlias e)
        | None \<Rightarrow>
          if revision_IsZero (mf_Revision m) then Some ManifestNoRevision
          else validate_items sha [] (mf_Items m)))"

text \<open>\<open>ComputeFingerprints\<close>: the file identifiers grouped by platform in the order of the
  items, then sorted and hashed with a zero byte after each.\<close>

definition group_item :: "(PlatformID \<Rightarrow> FileID list) \<Rightarrow> Item \<Rightarrow> PlatformID \<Rightarrow> FileID list" where
  "group_item byPlatform it = byPlatform(it_Platform it := byPlatform (it_Platform it) @ [it_FileID it])"

definition fingerprint_message :: "FileID list \<Rightarrow> bytes" where
  "fingerprint_message ids = concat (map (\<lambda>i. bytes_of i @ [0]) (sort ids))"

definition Fingerprints :: "(bytes \<Rightarrow> bytes) \<Rightarrow> Item list \<Rightarrow> PlatformID \<Rightarrow> string option" where
  "Fingerprints sha items p =
     (let ids = foldl group_item (\<lambda>_. []) items p in
      if ids = [] then None else Some (hex_encode (sha (fingerprint_message ids))))"

definition ComputeFingerprints :: "(bytes \<Rightarrow> bytes) \<Rightarrow> Manifest \<Rightarrow> Manifest" where
  "ComputeFingerprints sha m = m\<lparr>mf_Fingerprints := Fingerprints sha (mf_Items m)\<rparr>"

section \<open>Deltas\<close>

datatype DeltaOp = DeltaAdd | DeltaUpdate | DeltaTombstone | DeltaOther string

fun deltaop_String :: "DeltaOp \<Rightarrow> string" where
  "deltaop_String DeltaAdd = ''add''"
| "deltaop_String DeltaUpdate = ''update''"
| "deltaop_String DeltaTombstone = ''tombstone''"
| "deltaop_String (DeltaOther s) = s"

record DeltaEntry =
  de_Op :: DeltaOp
  de_FileID :: FileID
  de_Item :: "Item option"

record Delta =
  dl_SchemaVersion :: int
  dl_Swarm :: string
  dl_Alias :: string
  dl_From :: Revision
  dl_To :: Revision
  dl_Entries :: "DeltaEntry list"
  dl_EmittedAt :: instant

datatype delta_error =
    DeltaBadSchema int
  | DeltaBadSwarm id_error
  | DeltaBadAlias id_error
  | DeltaBadRevision Revision Revision
  | DeltaNoEntries
  | DeltaBadFile id_error
  | DeltaNoItem FileID
  | DeltaBadItem item_error
  | DeltaUnpublishable FileID
  | DeltaTombstoneItem FileID
  | DeltaUnknownOp string

definition validate_entry :: "(bytes \<Rightarrow> bytes) \<Rightarrow> DeltaEntry \<Rightarrow> delta_error option" where
  "validate_entry sha e =
     (case validate prefixFile (de_FileID e) of
        Some err \<Rightarrow> Some (DeltaBadFile err)
      | None \<Rightarrow>
        if de_Op e = DeltaAdd \<or> de_Op e = DeltaUpdate then
          (case de_Item e of
             None \<Rightarrow> Some (DeltaNoItem (de_FileID e))
           | Some it \<Rightarrow>
             (case item_Validate sha it of
                Some err \<Rightarrow> Some (DeltaBadItem err)
              | None \<Rightarrow> if \<not> item_Publishable it then Some (DeltaUnpublishable (de_FileID e)) else None))
        else if de_Op e = DeltaTombstone then
          (if de_Item e \<noteq> None then Some (DeltaTombstoneItem (de_FileID e)) else None)
        else Some (DeltaUnknownOp (deltaop_String (de_Op e))))"

fun validate_entries :: "(bytes \<Rightarrow> bytes) \<Rightarrow> DeltaEntry list \<Rightarrow> delta_error option" where
  "validate_entries sha [] = None"
| "validate_entries sha (e # es) =
     (case validate_entry sha e of Some err \<Rightarrow> Some err | None \<Rightarrow> validate_entries sha es)"

definition delta_Validate :: "(bytes \<Rightarrow> bytes) \<Rightarrow> Delta \<Rightarrow> delta_error option" where
  "delta_Validate sha d =
     (if dl_SchemaVersion d \<noteq> ManifestSchema then Some (DeltaBadSchema (dl_SchemaVersion d))
      else case validate ''swm'' (dl_Swarm d) of
        Some e \<Rightarrow> Some (DeltaBadSwarm e)
      | None \<Rightarrow>
        (case validate prefixAlias (dl_Alias d) of
          Some e \<Rightarrow> Some (DeltaBadAlias e)
        | None \<Rightarrow>
          if dl_To d \<noteq> revision_Next (dl_From d) then Some (DeltaBadRevision (dl_From d) (dl_To d))
          else if length (dl_Entries d) = 0 then Some DeltaNoEntries
          else validate_entries sha (dl_Entries d)))"

section \<open>Lemmas\<close>

lemma validate_items_iff:
  "validate_items sha seen its = None \<longleftrightarrow>
    list_all (\<lambda>i. item_Validate sha i = None \<and> item_Publishable i) its \<and>
    distinct (map it_FileID its) \<and> set (map it_FileID its) \<inter> set seen = {}"
  by (induction its arbitrary: seen) (auto split: option.splits)

lemma manifest_Validate_iff:
  "manifest_Validate sha m = None \<longleftrightarrow>
    mf_SchemaVersion m = ManifestSchema \<and> validate ''swm'' (mf_Swarm m) = None \<and>
    validate prefixAlias (mf_Alias m) = None \<and> mf_Revision m \<noteq> 0 \<and>
    list_all (\<lambda>i. item_Validate sha i = None \<and> item_Publishable i) (mf_Items m) \<and>
    distinct (map it_FileID (mf_Items m))"
  by (auto simp add: manifest_Validate_def validate_items_iff revision_IsZero_def split: option.splits)

lemma item_Validate_iff:
  "item_Validate sha i = None \<longleftrightarrow>
    validate prefixFile (it_FileID i) = None \<and> it_Platform i \<noteq> '''' \<and>
    d_SHA256 (it_Canonical i) \<noteq> '''' \<and>
    it_FileID i = FileIDFromCanonicalDigest sha (d_SHA256 (it_Canonical i)) \<and>
    (item_Publishable i \<longrightarrow> it_Reference i \<noteq> None) \<and>
    ar_ID (it_Adapter i) \<noteq> '''' \<and> ar_Version (it_Adapter i) \<noteq> ''''"
  by (auto simp add: item_Validate_def item_Publishable_def split: option.splits)

lemma validate_entries_iff:
  "validate_entries sha es = None \<longleftrightarrow> list_all (\<lambda>e. validate_entry sha e = None) es"
  by (induction es) (auto split: option.splits)

lemma foldl_group:
  "foldl group_item b items p = b p @ map it_FileID (filter (\<lambda>i. it_Platform i = p) items)"
  by (induction items arbitrary: b) (simp_all add: group_item_def)

lemma Fingerprints_eq:
  "Fingerprints sha items p =
    (let ids = map it_FileID (filter (\<lambda>i. it_Platform i = p) items) in
     if ids = [] then None else Some (hex_encode (sha (fingerprint_message ids))))"
  by (simp add: Fingerprints_def foldl_group)

text \<open>Only the multiset of identifiers per platform matters.\<close>

lemma Fingerprints_mset:
  assumes "mset items = mset items'"
  shows "Fingerprints sha items = Fingerprints sha items'"
proof
  fix p
  let ?f = "\<lambda>xs. map it_FileID (filter (\<lambda>i. it_Platform i = p) xs)"
  have "mset (?f items) = mset (?f items')"
    using assms by (simp add: mset_filter)
  then have "sort (?f items) = sort (?f items')" "?f items = [] \<longleftrightarrow> ?f items' = []"
    by (metis mset_sort properties_for_sort sorted_sort, metis mset_zero_iff)
  then show "Fingerprints sha items p = Fingerprints sha items' p"
    unfolding Fingerprints_eq Let_def fingerprint_message_def by simp
qed

end
