(* ===== verification/Publish.thy ===== *)
theory Publish
  imports Manifest
begin

text \<open>
  What a bridge tells one Swarm, \<open>src/bridge/publish/publish.go\<close>: the sharing policy,
  the filtered snapshot, the delta between what was told and what is held now, and the
  owner's preview.  Go maps keyed by file are association lists in the order of first
  insertion; the code sorts what it builds from them.
\<close>

section \<open>Policy and membership\<close>

record Policy =
  po_Swarm :: string
  po_ShareAll :: bool
  po_Platforms :: "PlatformID list"
  po_ExcludedPlatforms :: "PlatformID list"
  po_ExcludedFiles :: "FileID list"
  po_MaxItemBytes :: int

definition Permits :: "Policy \<Rightarrow> Item \<Rightarrow> bool" where
  "Permits p item =
     (if \<not> class_Publishable (it_Classification item) then False
      else if it_FileID item \<in> set (po_ExcludedFiles p) then False
      else if it_Platform item \<in> set (po_ExcludedPlatforms p) then False
      else if po_MaxItemBytes p > 0 \<and> d_Size (it_Canonical item) > po_MaxItemBytes p then False
      else if po_ShareAll p then True
      else it_Platform item \<in> set (po_Platforms p))"

datatype publish_error =
    PublishBadSwarm id_error
  | PublishBadAlias id_error
  | PublishSharesNothing string
  | PublishWrongPolicy string string
  | ErrNothingToPublish
  | PublishBadManifest manifest_error
  | PublishBadDelta delta_error

definition policy_Validate :: "Policy \<Rightarrow> publish_error option" where
  "policy_Validate p =
     (case validate ''swm'' (po_Swarm p) of
        Some e \<Rightarrow> Some (PublishBadSwarm e)
      | None \<Rightarrow>
        if \<not> po_ShareAll p \<and> length (po_Platforms p) = 0 then Some (PublishSharesNothing (po_Swarm p))
        else None)"

record Membership =
  me_Swarm :: string
  me_Alias :: string
  me_Policy :: Policy
  me_Revision :: Revision

definition membership_Validate :: "Membership \<Rightarrow> publish_error option" where
  "membership_Validate m =
     (case validate ''swm'' (me_Swarm m) of
        Some e \<Rightarrow> Some (PublishBadSwarm e)
      | None \<Rightarrow>
        (case validate prefixAlias (me_Alias m) of
           Some e \<Rightarrow> Some (PublishBadAlias e)
         | None \<Rightarrow>
           if po_Swarm (me_Policy m) \<noteq> me_Swarm m
           then Some (PublishWrongPolicy (po_Swarm (me_Policy m)) (me_Swarm m))
           else policy_Validate (me_Policy m)))"

section \<open>Snapshot\<close>

fun snapshot_items :: "Policy \<Rightarrow> FileID list \<Rightarrow> Item list \<Rightarrow> Item list" where
  "snapshot_items p seen [] = []"
| "snapshot_items p seen (item # rest) =
     (if \<not> Permits p item then snapshot_items p seen rest
      else if it_FileID item \<in> set seen then snapshot_items p seen rest
      else item # snapshot_items p (it_FileID item # seen) rest)"

definition Snapshot :: "(bytes \<Rightarrow> bytes) \<Rightarrow> Membership \<Rightarrow> Item list \<Rightarrow> instant \<Rightarrow> publish_error + Manifest" where
  "Snapshot sha m holdings at =
     (case membership_Validate m of
        Some e \<Rightarrow> Inl e
      | None \<Rightarrow>
        (let items = snapshot_items (me_Policy m) [] holdings in
         if length items = 0 then Inl ErrNothingToPublish
         else let manifest = ComputeFingerprints sha \<lparr>mf_SchemaVersion = ManifestSchema,
             mf_Swarm = me_Swarm m, mf_Alias = me_Alias m, mf_Revision = revision_Next (me_Revision m),
             mf_GeneratedAt = at, mf_Items = sort_key it_FileID items, mf_Fingerprints = Map.empty\<rparr> in
         case manifest_Validate sha manifest of
           Some e \<Rightarrow> Inl (PublishBadManifest e)
         | None \<Rightarrow> Inr manifest))"

section \<open>Diff\<close>

definition indexByFile :: "Item list \<Rightarrow> (FileID \<times> Item) list" where
  "indexByFile items = foldl (\<lambda>out item. al_put (it_FileID item) item out) [] items"

definition referenceChanged :: "ReferenceMatch option \<Rightarrow> ReferenceMatch option \<Rightarrow> bool" where
  "referenceChanged a b = (a \<noteq> b)"

definition changed :: "Item \<Rightarrow> Item \<Rightarrow> bool" where
  "changed before after =
     (d_SHA256 (it_Canonical before) \<noteq> d_SHA256 (it_Canonical after) \<or>
      it_Availability before \<noteq> it_Availability after \<or>
      it_Platform before \<noteq> it_Platform after \<or>
      it_Adapter before \<noteq> it_Adapter after \<or>
      referenceChanged (it_Reference before) (it_Reference after))"

definition add_or_update :: "(FileID \<times> Item) list \<Rightarrow> FileID \<times> Item \<Rightarrow> DeltaEntry list" where
  "add_or_update before e =
     (case map_of before (fst e) of
        None \<Rightarrow> [\<lparr>de_Op = DeltaAdd, de_FileID = fst e, de_Item = Some (snd e)\<rparr>]
      | Some old \<Rightarrow>
        if changed old (snd e) then [\<lparr>de_Op = DeltaUpdate, de_FileID = fst e, de_Item = Some (snd e)\<rparr>]
        else [])"

definition tombstones :: "(FileID \<times> Item) list \<Rightarrow> FileID \<times> Item \<Rightarrow> DeltaEntry list" where
  "tombstones after e =
     (if map_of after (fst e) = None
      then [\<lparr>de_Op = DeltaTombstone, de_FileID = fst e, de_Item = None\<rparr>] else [])"

text \<open>\<open>sort.Slice\<close> by operation, then by file.\<close>

definition sort_entries :: "DeltaEntry list \<Rightarrow> DeltaEntry list" where
  "sort_entries es = sort_key (\<lambda>e. deltaop_String (de_Op e)) (sort_key de_FileID es)"

definition diff_entries :: "Item list \<Rightarrow> Item list \<Rightarrow> DeltaEntry list" where
  "diff_entries previous current =
     (let before = indexByFile previous; after = indexByFile current in
      sort_entries (concat (map (add_or_update before) after) @ concat (map (tombstones after) before)))"

text \<open>The snapshot a delta is computed against: nothing to publish is the empty one.\<close>

definition snapshot_or_empty :: "publish_error + Manifest \<Rightarrow> publish_error + Item list" where
  "snapshot_or_empty cur =
     (case cur of
        Inl e \<Rightarrow> (if e \<noteq> ErrNothingToPublish then Inl e else Inr [])
      | Inr current \<Rightarrow> Inr (mf_Items current))"

definition Diff :: "(bytes \<Rightarrow> bytes) \<Rightarrow> Manifest \<Rightarrow> Membership \<Rightarrow> Item list \<Rightarrow> instant
    \<Rightarrow> publish_error + Delta option" where
  "Diff sha previous m holdings at =
     (case membership_Validate m of
        Some e \<Rightarrow> Inl e
      | None \<Rightarrow>
        (case snapshot_or_empty (Snapshot sha (m\<lparr>me_Revision := mf_Revision previous\<rparr>) holdings at) of
           Inl e \<Rightarrow> Inl e
         | Inr current \<Rightarrow>
           (let entries = diff_entries (mf_Items previous) current in
            if length entries = 0 then Inr None
            else let delta = \<lparr>dl_SchemaVersion = ManifestSchema, dl_Swarm = me_Swarm m,
                dl_Alias = me_Alias m, dl_From = mf_Revision previous,
                dl_To = revision_Next (mf_Revision previous), dl_Entries = entries, dl_EmittedAt = at\<rparr> in
              (case delta_Validate sha delta of
                 Some e \<Rightarrow> Inl (PublishBadDelta e)
               | None \<Rightarrow> Inr (Some delta)))))"

section \<open>Preview\<close>

record Preview =
  pv_Swarm :: string
  pv_Published :: int
  pv_Withheld :: int
  pv_PublishedBytes :: int
  pv_ByPlatform :: "PlatformID \<Rightarrow> int"
  pv_WithheldReasons :: "string \<Rightarrow> int"

definition withheldReason :: "Policy \<Rightarrow> Item \<Rightarrow> string" where
  "withheldReason p item =
     (if \<not> class_Publishable (it_Classification item) then ''not verified against the reference catalogue''
      else if it_FileID item \<in> set (po_ExcludedFiles p) then ''excluded individually''
      else if it_Platform item \<in> set (po_ExcludedPlatforms p) then ''platform excluded''
      else if po_MaxItemBytes p > 0 \<and> d_Size (it_Canonical item) > po_MaxItemBytes p
        then ''larger than the size limit''
      else ''platform not shared with this Swarm'')"

definition preview_item :: "Policy \<Rightarrow> Preview \<Rightarrow> Item \<Rightarrow> Preview" where
  "preview_item p out item =
     (if Permits p item then out\<lparr>pv_Published := pv_Published out + 1,
        pv_PublishedBytes := wrap64 (pv_PublishedBytes out + d_Size (it_Canonical item)),
        pv_ByPlatform := (pv_ByPlatform out)(it_Platform item := pv_ByPlatform out (it_Platform item) + 1)\<rparr>
      else out\<lparr>pv_Withheld := pv_Withheld out + 1,
        pv_WithheldReasons := (pv_WithheldReasons out)(withheldReason p item :=
          pv_WithheldReasons out (withheldReason p item) + 1)\<rparr>)"

definition PreviewPolicy :: "Policy \<Rightarrow> Item list \<Rightarrow> Preview" where
  "PreviewPolicy p holdings = foldl (preview_item p) \<lparr>pv_Swarm = po_Swarm p, pv_Published = 0,
     pv_Withheld = 0, pv_PublishedBytes = 0, pv_ByPlatform = (\<lambda>_. 0), pv_WithheldReasons = (\<lambda>_. 0)\<rparr> holdings"

section \<open>Lemmas\<close>

text \<open>A snapshot keeps the first permitted holding of each file.\<close>

lemma snapshot_items_set:
  "set (snapshot_items p seen h) \<subseteq> {i \<in> set h. Permits p i \<and> it_FileID i \<notin> set seen}"
proof (induction h arbitrary: seen)
  case (Cons i h)
  then show ?case
    using Cons.IH [of seen] Cons.IH [of "it_FileID i # seen"] by auto
qed simp

lemma snapshot_items_ids:
  "it_FileID ` set (snapshot_items p seen h) =
    {it_FileID i |i. i \<in> set h \<and> Permits p i} - set seen"
  by (induction h arbitrary: seen) auto

lemma snapshot_items_distinct: "distinct (map it_FileID (snapshot_items p seen h))"
proof (induction h arbitrary: seen)
  case (Cons i h)
  then show ?case
    using snapshot_items_ids [of p "it_FileID i # seen" h] by auto
qed simp

lemma snapshot_items_filter:
  "snapshot_items p seen (filter (Permits p) h) = snapshot_items p seen h"
  by (induction h arbitrary: seen) simp_all

lemma Snapshot_ok:
  assumes "Snapshot sha m h at = Inr mf"
  shows "membership_Validate m = None" "manifest_Validate sha mf = None"
    "mf_Items mf = sort_key it_FileID (snapshot_items (me_Policy m) [] h)"
    "mf_Fingerprints mf = Fingerprints sha (mf_Items mf)"
    "mf_Swarm mf = me_Swarm m" "mf_Alias mf = me_Alias m" "mf_Revision mf = me_Revision m + 1"
    "mf_Items mf \<noteq> []"
proof -
  have "membership_Validate m = None \<and> manifest_Validate sha mf = None \<and>
    mf_Items mf = sort_key it_FileID (snapshot_items (me_Policy m) [] h) \<and>
    mf_Fingerprints mf = Fingerprints sha (mf_Items mf) \<and>
    mf_Swarm mf = me_Swarm m \<and> mf_Alias mf = me_Alias m \<and> mf_Revision mf = me_Revision m + 1 \<and>
    snapshot_items (me_Policy m) [] h \<noteq> []"
    using assms
    by (auto simp add: Snapshot_def Let_def ComputeFingerprints_def revision_Next_def
        split: option.splits if_splits)
  moreover from this have "mf_Items mf \<noteq> []"
    by (metis length_0_conv length_sort)
  ultimately show "membership_Validate m = None" "manifest_Validate sha mf = None"
    "mf_Items mf = sort_key it_FileID (snapshot_items (me_Policy m) [] h)"
    "mf_Fingerprints mf = Fingerprints sha (mf_Items mf)"
    "mf_Swarm mf = me_Swarm m" "mf_Alias mf = me_Alias m" "mf_Revision mf = me_Revision m + 1"
    "mf_Items mf \<noteq> []"
    by simp_all
qed

text \<open>The index of a list of items: one entry per file, the last item of the file.\<close>

lemma index_snoc: "indexByFile (items @ [i]) = al_put (it_FileID i) i (indexByFile items)"
  by (simp add: indexByFile_def)

lemma index_distinct: "distinct (map fst (indexByFile items))"
  by (induction items rule: rev_induct) (simp_all add: indexByFile_def al_put_distinct)

lemma index_lookup:
  "map_of (indexByFile items) f = Some i \<Longrightarrow> i \<in> set items \<and> it_FileID i = f"
  by (induction items rule: rev_induct) (auto simp add: index_snoc indexByFile_def split: if_splits)

lemma index_dom: "map_of (indexByFile items) f = None \<longleftrightarrow> f \<notin> it_FileID ` set items"
  by (induction items rule: rev_induct) (auto simp add: index_snoc indexByFile_def)

lemma index_of_member:
  assumes "distinct (map it_FileID items)" "i \<in> set items"
  shows "map_of (indexByFile items) (it_FileID i) = Some i"
proof -
  obtain j where j: "map_of (indexByFile items) (it_FileID i) = Some j"
    using assms(2) index_dom [of items "it_FileID i"] by (cases "map_of (indexByFile items) (it_FileID i)") auto
  then have "j = i"
    using index_lookup [OF j] assms by (metis distinct_map inj_on_contraD)
  then show ?thesis
    using j by simp
qed

text \<open>What a delta means to the map of items a Swarm was told about.\<close>

definition apply_entry :: "(FileID \<rightharpoonup> Item) \<Rightarrow> DeltaEntry \<Rightarrow> (FileID \<rightharpoonup> Item)" where
  "apply_entry known e = known(de_FileID e := de_Item e)"

lemma apply_entries:
  assumes "distinct (map de_FileID es)"
  shows "foldl apply_entry known es f =
    (case map_of (map (\<lambda>e. (de_FileID e, de_Item e)) es) f of None \<Rightarrow> known f | Some x \<Rightarrow> x)"
  using assms
  by (induction es arbitrary: known)
    (auto simp add: apply_entry_def split: option.splits dest!: map_of_SomeD)

text \<open>The entries of a delta, one by one.\<close>

definition raw_entries :: "(FileID \<times> Item) list \<Rightarrow> (FileID \<times> Item) list \<Rightarrow> DeltaEntry list" where
  "raw_entries before after =
     concat (map (add_or_update before) after) @ concat (map (tombstones after) before)"

lemma diff_entries_perm:
  "mset (diff_entries p c) = mset (raw_entries (indexByFile p) (indexByFile c))"
  by (simp add: diff_entries_def sort_entries_def raw_entries_def Let_def)

lemma raw_add_ids: "set (map de_FileID (concat (map (add_or_update before) xs))) \<subseteq> fst ` set xs"
  by (induction xs) (auto simp add: add_or_update_def split: option.splits if_splits)

lemma raw_tomb_ids:
  "set (map de_FileID (concat (map (tombstones after) xs))) \<subseteq> fst ` set xs \<inter> {f. map_of after f = None}"
  by (induction xs) (auto simp add: tombstones_def split: if_splits)

lemma raw_add_distinct:
  "distinct (map fst xs) \<Longrightarrow> distinct (map de_FileID (concat (map (add_or_update before) xs)))"
proof (induction xs)
  case (Cons e xs)
  have "fst e \<notin> de_FileID ` set (concat (map (add_or_update before) xs))"
    using raw_add_ids [of before xs] Cons.prems by auto
  then show ?case
    using Cons by (auto simp add: add_or_update_def split: option.splits)
qed simp

lemma raw_tomb_distinct:
  "distinct (map fst xs) \<Longrightarrow> distinct (map de_FileID (concat (map (tombstones after) xs)))"
proof (induction xs)
  case (Cons e xs)
  have "fst e \<notin> de_FileID ` set (concat (map (tombstones after) xs))"
    using raw_tomb_ids [of after xs] Cons.prems by auto
  then show ?case
    using Cons by (auto simp add: tombstones_def)
qed simp

lemma raw_distinct:
  assumes "distinct (map fst before)" "distinct (map fst after)"
  shows "distinct (map de_FileID (raw_entries before after))"
proof -
  have "set (map de_FileID (concat (map (add_or_update before) after))) \<inter>
      set (map de_FileID (concat (map (tombstones after) before))) = {}"
    using raw_add_ids [of before after] raw_tomb_ids [of after before]
    unfolding map_of_eq_None_iff by blast
  then show ?thesis
    using assms raw_add_distinct raw_tomb_distinct by (simp add: raw_entries_def)
qed

lemma diff_entries_distinct: "distinct (map de_FileID (diff_entries p c))"
proof -
  have "mset (map de_FileID (diff_entries p c)) =
      mset (map de_FileID (raw_entries (indexByFile p) (indexByFile c)))"
    using diff_entries_perm by simp
  then show ?thesis
    using raw_distinct [OF index_distinct index_distinct] mset_eq_imp_distinct_iff by blast
qed

lemma diff_entries_mem:
  "e \<in> set (diff_entries p c) \<longleftrightarrow>
    (\<exists>x \<in> set (indexByFile c). e \<in> set (add_or_update (indexByFile p) x)) \<or>
    (\<exists>x \<in> set (indexByFile p). e \<in> set (tombstones (indexByFile c) x))"
proof -
  have "set (diff_entries p c) = set (raw_entries (indexByFile p) (indexByFile c))"
    using diff_entries_perm by (rule mset_eq_setD)
  then show ?thesis
    by (auto simp add: raw_entries_def)
qed

lemma diff_entry_ids:
  "de_FileID ` set (diff_entries p c) \<subseteq> fst ` set (indexByFile c) \<union> fst ` set (indexByFile p)"
proof -
  have "set (diff_entries p c) = set (raw_entries (indexByFile p) (indexByFile c))"
    using diff_entries_perm by (rule mset_eq_setD)
  then have "de_FileID ` set (diff_entries p c) =
      set (map de_FileID (concat (map (add_or_update (indexByFile p)) (indexByFile c)))) \<union>
      set (map de_FileID (concat (map (tombstones (indexByFile c)) (indexByFile p))))"
    by (simp add: raw_entries_def image_Un)
  then show ?thesis
    using raw_add_ids [of "indexByFile p" "indexByFile c"] raw_tomb_ids [of "indexByFile c" "indexByFile p"]
    by blast
qed

text \<open>What the Swarm knows after the delta, file by file.\<close>

lemma apply_mem:
  assumes "distinct (map de_FileID es)" "e \<in> set es"
  shows "foldl apply_entry known es (de_FileID e) = de_Item e"
proof -
  have "distinct (map fst (map (\<lambda>e. (de_FileID e, de_Item e)) es))"
    using assms(1) by (simp add: comp_def)
  moreover have "(de_FileID e, de_Item e) \<in> set (map (\<lambda>e. (de_FileID e, de_Item e)) es)"
    using assms(2) by auto
  ultimately have "map_of (map (\<lambda>e. (de_FileID e, de_Item e)) es) (de_FileID e) = Some (de_Item e)"
    by (rule map_of_is_SomeI)
  then show ?thesis
    unfolding apply_entries [OF assms(1)] by simp
qed

lemma apply_not_mem:
  assumes "distinct (map de_FileID es)" "f \<notin> de_FileID ` set es"
  shows "foldl apply_entry known es f = known f"
proof -
  have "map_of (map (\<lambda>e. (de_FileID e, de_Item e)) es) f = None"
    using assms(2) by (auto simp add: map_of_eq_None_iff)
  then show ?thesis
    unfolding apply_entries [OF assms(1)] by simp
qed

definition told :: "Item list \<Rightarrow> DeltaEntry list \<Rightarrow> FileID \<Rightarrow> Item option" where
  "told previous es = foldl apply_entry (map_of (indexByFile previous)) es"

lemma told_after_diff:
  assumes "distinct (map it_FileID cur)"
  shows "(i \<in> set cur \<longrightarrow> (\<exists>j. told prev (diff_entries prev cur) (it_FileID i) = Some j \<and> \<not> changed j i)) \<and>
    (f \<notin> it_FileID ` set cur \<longrightarrow> told prev (diff_entries prev cur) f = None)"
proof (intro conjI impI)
  assume i: "i \<in> set cur"
  let ?f = "it_FileID i"
  have after: "map_of (indexByFile cur) ?f = Some i"
    by (rule index_of_member [OF assms i])
  show "\<exists>j. told prev (diff_entries prev cur) ?f = Some j \<and> \<not> changed j i"
  proof (cases "add_or_update (indexByFile prev) (?f, i)")
    case (Cons e r)
    have "e \<in> set (diff_entries prev cur)"
      using Cons map_of_SomeD [OF after] unfolding diff_entries_mem by (metis list.set_intros(1))
    moreover have "de_FileID e = ?f" "de_Item e = Some i"
      using Cons by (auto simp add: add_or_update_def split: option.splits if_splits)
    ultimately have "told prev (diff_entries prev cur) ?f = Some i"
      using apply_mem [OF diff_entries_distinct] unfolding told_def by metis
    then show ?thesis
      by (simp add: changed_def referenceChanged_def)
  next
    case Nil
    then obtain old where old: "map_of (indexByFile prev) ?f = Some old" "\<not> changed old i"
      by (auto simp add: add_or_update_def split: option.splits if_splits)
    have "?f \<notin> de_FileID ` set (diff_entries prev cur)"
    proof
      assume "?f \<in> de_FileID ` set (diff_entries prev cur)"
      then obtain e where e: "e \<in> set (diff_entries prev cur)" "de_FileID e = ?f"
        by (metis imageE)
      from e(1) consider x where "x \<in> set (indexByFile cur)" "e \<in> set (add_or_update (indexByFile prev) x)"
        | x where "x \<in> set (indexByFile prev)" "e \<in> set (tombstones (indexByFile cur) x)"
        unfolding diff_entries_mem by blast
      then show False
      proof cases
        case 1
        then have "fst x = ?f"
          using e(2) by (auto simp add: add_or_update_def split: option.splits if_splits)
        then have "x = (?f, i)"
          using 1(1) after index_distinct [of cur] by (metis map_of_is_SomeI option.inject prod.collapse)
        then show False
          using 1(2) Nil by simp
      next
        case 2
        then show False
          using e(2) after by (auto simp add: tombstones_def split: if_splits)
      qed
    qed
    then show ?thesis
      using old apply_not_mem [OF diff_entries_distinct] unfolding told_def by metis
  qed
next
  assume f: "f \<notin> it_FileID ` set cur"
  then have after: "map_of (indexByFile cur) f = None"
    by (simp only: index_dom) blast
  show "told prev (diff_entries prev cur) f = None"
  proof (cases "map_of (indexByFile prev) f")
    case (Some old)
    let ?e = "\<lparr>de_Op = DeltaTombstone, de_FileID = f, de_Item = None\<rparr>"
    have "?e \<in> set (diff_entries prev cur)"
      unfolding diff_entries_mem using map_of_SomeD [OF Some] after
      by (intro disjI2 bexI [of _ "(f, old)"]) (simp_all add: tombstones_def)
    then show ?thesis
      using apply_mem [OF diff_entries_distinct, of ?e] unfolding told_def by simp
  next
    case None
    have "f \<notin> de_FileID ` set (diff_entries prev cur)"
      using after None diff_entry_ids [of prev cur] unfolding map_of_eq_None_iff by blast
    then show ?thesis
      using None apply_not_mem [OF diff_entries_distinct] unfolding told_def by metis
  qed
qed

lemma Diff_ok:
  assumes "Diff sha prev m h at = Inr r"
  obtains cur where
    "snapshot_or_empty (Snapshot sha (m\<lparr>me_Revision := mf_Revision prev\<rparr>) h at) = Inr cur"
    "case r of None \<Rightarrow> diff_entries (mf_Items prev) cur = []
     | Some d \<Rightarrow> dl_Entries d = diff_entries (mf_Items prev) cur \<and> delta_Validate sha d = None \<and>
         dl_From d = mf_Revision prev \<and> dl_To d = mf_Revision prev + 1"
proof -
  obtain cur where cur:
    "snapshot_or_empty (Snapshot sha (m\<lparr>me_Revision := mf_Revision prev\<rparr>) h at) = Inr cur"
    using assms by (auto simp add: Diff_def split: option.splits sum.splits)
  show thesis
    by (rule that [OF cur])
      (use assms cur in \<open>auto simp add: Diff_def Let_def revision_Next_def split: option.splits if_splits\<close>)
qed

lemma snapshot_or_empty_distinct:
  "snapshot_or_empty (Snapshot sha m h at) = Inr cur \<Longrightarrow> distinct (map it_FileID cur)"
proof (cases "Snapshot sha m h at")
  case (Inr mf)
  assume "snapshot_or_empty (Snapshot sha m h at) = Inr cur"
  then have "cur = mf_Items mf"
    using Inr by (simp add: snapshot_or_empty_def)
  then show ?thesis
    using Snapshot_ok(2) [OF Inr] by (simp add: manifest_Validate_iff)
qed (auto simp add: snapshot_or_empty_def split: if_splits)

text \<open>Revalidation moves only the time of the last check, which the policy does not read.\<close>

lemma snapshot_items_touch:
  "snapshot_items p seen (map (\<lambda>i. i\<lparr>it_LastVerifiedAt := t i\<rparr>) h) =
    map (\<lambda>i. i\<lparr>it_LastVerifiedAt := t i\<rparr>) (snapshot_items p seen h)"
  by (induction h arbitrary: seen) (simp_all add: Permits_def)

lemma insort_key_map_touch:
  "insort_key it_FileID (x\<lparr>it_LastVerifiedAt := t x\<rparr>) (map (\<lambda>i. i\<lparr>it_LastVerifiedAt := t i\<rparr>) xs) =
    map (\<lambda>i. i\<lparr>it_LastVerifiedAt := t i\<rparr>) (insort_key it_FileID x xs)"
  by (induction xs) simp_all

lemma sort_key_map_touch:
  "sort_key it_FileID (map (\<lambda>i. i\<lparr>it_LastVerifiedAt := t i\<rparr>) xs) =
    map (\<lambda>i. i\<lparr>it_LastVerifiedAt := t i\<rparr>) (sort_key it_FileID xs)"
  unfolding sort_key_def by (induction xs) (simp_all add: insort_key_map_touch)

lemma item_touch_valid:
  "item_Validate sha (i\<lparr>it_LastVerifiedAt := t\<rparr>) = item_Validate sha i"
  "item_Publishable (i\<lparr>it_LastVerifiedAt := t\<rparr>) = item_Publishable i"
  by (simp_all add: item_Validate_def item_Publishable_def cong: option.case_cong)

text \<open>A delta between two lists that differ in nothing the Swarm needs to know is empty.\<close>

lemma diff_entries_quiet:
  assumes "distinct (map it_FileID xs)" "\<And>i. it_FileID (g i) = it_FileID i" "\<And>i. \<not> changed i (g i)"
  shows "diff_entries xs (map g xs) = []"
proof -
  have ids: "map it_FileID (map g xs) = map it_FileID xs"
    using assms(2) by simp
  have "e \<notin> set (diff_entries xs (map g xs))" for e
  proof
    assume "e \<in> set (diff_entries xs (map g xs))"
    then consider x where "x \<in> set (indexByFile (map g xs))" "e \<in> set (add_or_update (indexByFile xs) x)"
      | x where "x \<in> set (indexByFile xs)" "e \<in> set (tombstones (indexByFile (map g xs)) x)"
      unfolding diff_entries_mem by blast
    then show False
    proof cases
      case 1
      then have "map_of (indexByFile (map g xs)) (fst x) = Some (snd x)"
        using index_distinct [of "map g xs"] by (simp add: map_of_is_SomeI)
      then obtain i where i: "i \<in> set xs" "snd x = g i" "fst x = it_FileID i"
        using index_lookup assms(2) by fastforce
      then have "map_of (indexByFile xs) (fst x) = Some i"
        using index_of_member [OF assms(1)] by simp
      then show False
        using 1(2) i assms(3) by (simp add: add_or_update_def)
    next
      case 2
      then have "map_of (indexByFile xs) (fst x) \<noteq> None"
        by (auto simp add: map_of_eq_None_iff)
      moreover have "map_of (indexByFile (map g xs)) (fst x) = None"
        using 2(2) by (auto simp add: tombstones_def split: if_splits)
      ultimately show False
        unfolding index_dom using ids by (metis set_map)
    qed
  qed
  then show ?thesis
    by (metis list.set_intros(1) neq_Nil_conv)
qed

lemma membership_ids:
  "membership_Validate m = None \<Longrightarrow>
    validate ''swm'' (me_Swarm m) = None \<and> validate prefixAlias (me_Alias m) = None"
  by (simp add: membership_Validate_def split: option.splits)

lemma Snapshot_intro:
  assumes "membership_Validate m = None" "snapshot_items (me_Policy m) [] h \<noteq> []"
    "me_Revision m + 1 \<noteq> 0"
    "\<forall>i \<in> set (snapshot_items (me_Policy m) [] h). item_Validate sha i = None \<and> item_Publishable i"
  shows "\<exists>mf. Snapshot sha m h at = Inr mf \<and>
    mf_Items mf = sort_key it_FileID (snapshot_items (me_Policy m) [] h) \<and>
    mf_Revision mf = me_Revision m + 1"
proof -
  let ?its = "snapshot_items (me_Policy m) [] h"
  let ?mf = "ComputeFingerprints sha \<lparr>mf_SchemaVersion = ManifestSchema, mf_Swarm = me_Swarm m,
    mf_Alias = me_Alias m, mf_Revision = revision_Next (me_Revision m), mf_GeneratedAt = at,
    mf_Items = sort_key it_FileID ?its, mf_Fingerprints = Map.empty\<rparr>"
  have "mset (map it_FileID (sort_key it_FileID ?its)) = mset (map it_FileID ?its)"
    by simp
  then have "distinct (map it_FileID (sort_key it_FileID ?its))"
    using snapshot_items_distinct mset_eq_imp_distinct_iff by blast
  then have "manifest_Validate sha ?mf = None"
    using membership_ids [OF assms(1)] assms(3,4)
    by (simp add: manifest_Validate_iff ComputeFingerprints_def revision_Next_def list_all_iff)
  then have "Snapshot sha m h at = Inr ?mf"
    using assms(1,2) by (simp add: Snapshot_def Let_def)
  then show ?thesis
    by (simp add: ComputeFingerprints_def revision_Next_def)
qed

lemma membership_Validate_rev [simp]:
  "membership_Validate (m\<lparr>me_Revision := r\<rparr>) = membership_Validate m"
  by (simp add: membership_Validate_def cong: option.case_cong)

lemma Snapshot_touched:
  assumes mf: "Snapshot sha m h at = Inr mf" and rev: "mf_Revision mf + 1 \<noteq> 0"
  shows "\<exists>mf'. Snapshot sha (m\<lparr>me_Revision := mf_Revision mf\<rparr>)
      (map (\<lambda>i. i\<lparr>it_LastVerifiedAt := t i\<rparr>) h) at' = Inr mf' \<and>
    mf_Items mf' = map (\<lambda>i. i\<lparr>it_LastVerifiedAt := t i\<rparr>) (mf_Items mf)"
proof -
  note ok = Snapshot_ok [OF mf]
  let ?touch = "\<lambda>i. i\<lparr>it_LastVerifiedAt := t i\<rparr>"
  let ?m = "m\<lparr>me_Revision := mf_Revision mf\<rparr>"
  have its: "snapshot_items (me_Policy ?m) [] (map ?touch h) = map ?touch (snapshot_items (me_Policy m) [] h)"
    by (simp add: snapshot_items_touch)
  have "snapshot_items (me_Policy m) [] h \<noteq> []"
    using ok(3,8) by (metis length_0_conv length_sort)
  moreover have "\<forall>i \<in> set (snapshot_items (me_Policy m) [] h). item_Validate sha i = None \<and> item_Publishable i"
    using ok(2,3) by (simp add: manifest_Validate_iff list_all_iff)
  ultimately have "\<exists>mf'. Snapshot sha ?m (map ?touch h) at' = Inr mf' \<and>
      mf_Items mf' = sort_key it_FileID (snapshot_items (me_Policy ?m) [] (map ?touch h)) \<and>
      mf_Revision mf' = me_Revision ?m + 1"
    using ok(1) rev by (intro Snapshot_intro) (simp_all add: snapshot_items_touch item_touch_valid)
  then show ?thesis
    unfolding its sort_key_map_touch ok(3) by blast
qed

text \<open>A holding that validates, and a membership that shares everything but one file.\<close>

definition sample_sha :: "bytes \<Rightarrow> bytes" where
  "sample_sha b = replicate 32 (of_nat (length b))"

definition sample_item :: "string \<Rightarrow> Item" where
  "sample_item hx = \<lparr>it_FileID = FileIDFromCanonicalDigest sample_sha hx, it_GameID = '''',
     it_Platform = PlatformGB,
     it_Stored = \<lparr>d_Size = 1, d_CRC32 = '''', d_MD5 = '''', d_SHA1 = '''', d_SHA256 = ''''\<rparr>,
     it_Container = None,
     it_Canonical = \<lparr>d_Size = 1, d_CRC32 = '''', d_MD5 = '''', d_SHA1 = '''', d_SHA256 = hx\<rparr>,
     it_Adapter = \<lparr>ar_ID = ''gb'', ar_Version = ''1''\<rparr>, it_Classification = ClassVerifiedEligible,
     it_Reference = Some \<lparr>rm_Family = ''f'', rm_SetName = ''s'', rm_SetVersion = ''v'',
       rm_EntryName = ''e'', rm_CanonicalKey = ''k'', rm_Strength = StrengthStrong\<rparr>,
     it_Notes = [], it_Availability = AvailAvailable, it_Destination = StateOther '''',
     it_LastVerifiedAt = 5\<rparr>"

definition sample_membership :: Membership where
  "sample_membership = (let swarm = id_encode ''swm'' (replicate 16 1) in
     \<lparr>me_Swarm = swarm, me_Alias = id_encode prefixAlias (replicate 16 2),
      me_Policy = \<lparr>po_Swarm = swarm, po_ShareAll = True, po_Platforms = [],
        po_ExcludedPlatforms = [], po_ExcludedFiles = [], po_MaxItemBytes = 0\<rparr>,
      me_Revision = 0\<rparr>)"

definition sample_previous :: Manifest where
  "sample_previous = \<lparr>mf_SchemaVersion = ManifestSchema, mf_Swarm = me_Swarm sample_membership,
     mf_Alias = me_Alias sample_membership, mf_Revision = 1, mf_GeneratedAt = 3,
     mf_Items = [sample_item ''c''], mf_Fingerprints = Map.empty\<rparr>"

definition withheld_item :: "string \<Rightarrow> Item" where
  "withheld_item hx = (sample_item hx)\<lparr>it_Classification := ClassConflict\<rparr>"

lemma sample_item_valid: "hx \<noteq> '''' \<Longrightarrow> item_Validate sample_sha (sample_item hx) = None"
proof -
  have "length (derive sample_sha domainFile [bytes_of (to_lower hx)]) = idBytes"
    by (simp add: derive_def sample_sha_def idBytes_def)
  then have "validate prefixFile (FileIDFromCanonicalDigest sample_sha hx) = None"
    unfolding FileIDFromCanonicalDigest_def by (rule validate_accepts)
  then show "hx \<noteq> '''' \<Longrightarrow> item_Validate sample_sha (sample_item hx) = None"
    by (simp add: item_Validate_def sample_item_def PlatformGB_def)
qed

lemma sample_membership_valid: "membership_Validate sample_membership = None"
  using validate_accepts [of "replicate 16 1" "''swm''"] validate_accepts [of "replicate 16 2" prefixAlias]
  by (simp add: membership_Validate_def sample_membership_def Let_def policy_Validate_def idBytes_def)

lemma sample_snapshot:
  "\<exists>mf. Snapshot sample_sha sample_membership [withheld_item ''b'', sample_item ''a''] 9 = Inr mf \<and>
    mf_Items mf = [sample_item ''a''] \<and> mf_Revision mf = 1"
proof -
  have its: "snapshot_items (me_Policy sample_membership) [] [withheld_item ''b'', sample_item ''a''] = [sample_item ''a'']"
    by (simp add: Permits_def sample_membership_def Let_def withheld_item_def sample_item_def class_Publishable_def)
  have "item_Publishable (sample_item ''a'')"
    by (simp add: item_Publishable_def class_Publishable_def sample_item_def)
  moreover have "me_Revision sample_membership = 0"
    by (simp add: sample_membership_def Let_def)
  ultimately show ?thesis
    using Snapshot_intro [of sample_membership "[withheld_item ''b'', sample_item ''a'']" sample_sha 9]
      sample_membership_valid sample_item_valid [of "''a''"] unfolding its by simp
qed

lemma preview_fold:
  "pv_Published (foldl (preview_item p) out h) = pv_Published out + int (length (filter (Permits p) h)) \<and>
   pv_Withheld (foldl (preview_item p) out h) = pv_Withheld out + int (length (filter (\<lambda>i. \<not> Permits p i) h))"
  by (induction h arbitrary: out) (simp_all add: preview_item_def)

lemma snapshot_items_length:
  "length (snapshot_items p [] h) = card (set (map it_FileID (filter (Permits p) h)))"
proof -
  have "length (snapshot_items p [] h) = card (it_FileID ` set (snapshot_items p [] h))"
    using distinct_card [OF snapshot_items_distinct [of p "[]" h]] by simp
  moreover have "it_FileID ` set (snapshot_items p [] h) = set (map it_FileID (filter (Permits p) h))"
    unfolding snapshot_items_ids by auto
  ultimately show ?thesis
    by simp
qed

section \<open>Properties\<close>

text \<open>C10: a snapshot is exactly what the policy permits: its items are permitted holdings, one
  for every permitted file and none for any other, in the order of their identifiers; the manifest
  validates, carries the next revision, and its fingerprints read the published items only.\<close>

theorem snapshot_is_permitted_set:
  assumes "Snapshot sha m h at = Inr mf"
  shows "set (mf_Items mf) \<subseteq> {i \<in> set h. Permits (me_Policy m) i} \<and>
    it_FileID ` set (mf_Items mf) = {it_FileID i |i. i \<in> set h \<and> Permits (me_Policy m) i} \<and>
    sorted (map it_FileID (mf_Items mf)) \<and> distinct (map it_FileID (mf_Items mf)) \<and>
    manifest_Validate sha mf = None \<and> mf_Revision mf = me_Revision m + 1 \<and>
    mf_Fingerprints mf = Fingerprints sha (mf_Items mf)"
proof -
  note ok = Snapshot_ok [OF assms]
  have its: "set (mf_Items mf) = set (snapshot_items (me_Policy m) [] h)"
    unfolding ok(3) by simp
  have "set (mf_Items mf) \<subseteq> {i \<in> set h. Permits (me_Policy m) i}"
    unfolding its using snapshot_items_set [of "me_Policy m" "[]" h] by blast
  moreover have "it_FileID ` set (mf_Items mf) = {it_FileID i |i. i \<in> set h \<and> Permits (me_Policy m) i}"
    unfolding its using snapshot_items_ids [of "me_Policy m" "[]" h] by simp
  moreover have "sorted (map it_FileID (mf_Items mf))"
    unfolding ok(3) by simp
  moreover have "distinct (map it_FileID (mf_Items mf))"
    using ok(2) unfolding manifest_Validate_iff by blast
  ultimately show ?thesis
    using ok(2,4,7) by blast
qed

theorem snapshot_is_permitted_set_witness:
  "\<exists>mf :: Manifest. set (mf_Items mf) \<subseteq> {i \<in> set [withheld_item ''b'', sample_item ''a'']. Permits (me_Policy sample_membership) i} \<and>
    mf_Items mf = [sample_item ''a''] \<and> mf_Fingerprints mf = Fingerprints sample_sha (mf_Items mf)"
proof -
  obtain mf where mf: "Snapshot sample_sha sample_membership [withheld_item ''b'', sample_item ''a''] 9 = Inr mf"
    "mf_Items mf = [sample_item ''a'']"
    using sample_snapshot by blast
  show ?thesis
    by (rule exI [of _ mf]) (use snapshot_is_permitted_set [OF mf(1)] mf(2) in \<open>simp only: simp_thms\<close>)
qed

text \<open>C7: what a policy withholds has no influence on what leaves the bridge: two libraries
  with the same permitted holdings give the same snapshot (items, revision and fingerprints) and the
  same delta, whatever else they hold and wherever it sits.\<close>

theorem withheld_does_not_leak:
  assumes "filter (Permits (me_Policy m)) h = filter (Permits (me_Policy m)) h'"
  shows "Snapshot sha m h at = Snapshot sha m h' at \<and> Diff sha prev m h at = Diff sha prev m h' at"
proof -
  have "snapshot_items (me_Policy m) [] h = snapshot_items (me_Policy m) [] h'"
    using assms snapshot_items_filter by metis
  then have "Snapshot sha (m\<lparr>me_Revision := r\<rparr>) h at = Snapshot sha (m\<lparr>me_Revision := r\<rparr>) h' at"
    and "Snapshot sha m h at = Snapshot sha m h' at" for r
    by (simp_all add: Snapshot_def cong: option.case_cong)
  then show ?thesis
    unfolding Diff_def by metis
qed

theorem withheld_does_not_leak_witness:
  "Snapshot sample_sha sample_membership [withheld_item ''b'', sample_item ''a''] 9 =
     Snapshot sample_sha sample_membership [sample_item ''a''] 9 \<and>
   Diff sample_sha sample_previous sample_membership [withheld_item ''b'', sample_item ''a''] 9 =
     Diff sample_sha sample_previous sample_membership [sample_item ''a''] 9"
  by (rule withheld_does_not_leak)
    (simp add: Permits_def withheld_item_def class_Publishable_def)

text \<open>C18: a delta is sound and complete: applied to what the Swarm was told, it leaves exactly
  the files the new snapshot publishes, and for each of them an item that differs in nothing the
  Swarm needs to know; no delta is sent only when that already held.\<close>

theorem delta_brings_up_to_date:
  assumes "Diff sha prev m h at = Inr r"
  shows "\<exists>cur. snapshot_or_empty (Snapshot sha (m\<lparr>me_Revision := mf_Revision prev\<rparr>) h at) = Inr cur \<and>
    (let known = told (mf_Items prev) (case r of None \<Rightarrow> [] | Some d \<Rightarrow> dl_Entries d) in
     (\<forall>i \<in> set cur. \<exists>j. known (it_FileID i) = Some j \<and> \<not> changed j i) \<and>
     (\<forall>f. f \<notin> it_FileID ` set cur \<longrightarrow> known f = None)) \<and>
    (\<forall>d. r = Some d \<longrightarrow> dl_From d = mf_Revision prev \<and> dl_To d = mf_Revision prev + 1 \<and>
       delta_Validate sha d = None)"
proof -
  obtain cur where cur:
    "snapshot_or_empty (Snapshot sha (m\<lparr>me_Revision := mf_Revision prev\<rparr>) h at) = Inr cur"
    and r: "case r of None \<Rightarrow> diff_entries (mf_Items prev) cur = []
     | Some d \<Rightarrow> dl_Entries d = diff_entries (mf_Items prev) cur \<and> delta_Validate sha d = None \<and>
         dl_From d = mf_Revision prev \<and> dl_To d = mf_Revision prev + 1"
    by (rule Diff_ok [OF assms])
  have es: "(case r of None \<Rightarrow> [] | Some d \<Rightarrow> dl_Entries d) = diff_entries (mf_Items prev) cur"
    using r by (simp split: option.splits)
  show ?thesis
    unfolding es Let_def
    using cur r told_after_diff [OF snapshot_or_empty_distinct [OF cur], of _ "mf_Items prev"]
    by (intro exI [of _ cur]) auto
qed

theorem delta_brings_up_to_date_witness:
  "\<exists>cur. snapshot_or_empty (Snapshot sample_sha (sample_membership\<lparr>me_Revision := mf_Revision sample_previous\<rparr>)
      [withheld_item ''b''] 9) = Inr cur \<and>
    (let known = told (mf_Items sample_previous) (case (projr (Diff sample_sha sample_previous sample_membership
        [withheld_item ''b''] 9)) of None \<Rightarrow> [] | Some d \<Rightarrow> dl_Entries d) in
     (\<forall>i \<in> set cur. \<exists>j. known (it_FileID i) = Some j \<and> \<not> changed j i) \<and>
     (\<forall>f. f \<notin> it_FileID ` set cur \<longrightarrow> known f = None)) \<and>
    (\<forall>d. projr (Diff sample_sha sample_previous sample_membership [withheld_item ''b''] 9) = Some d \<longrightarrow>
       dl_From d = mf_Revision sample_previous \<and> dl_To d = mf_Revision sample_previous + 1 \<and>
       delta_Validate sample_sha d = None)"
proof (rule delta_brings_up_to_date)
  have "snapshot_items (me_Policy sample_membership) [] [withheld_item ''b''] = []"
    by (simp add: Permits_def withheld_item_def class_Publishable_def)
  moreover have "membership_Validate (sample_membership\<lparr>me_Revision := 1\<rparr>) = None"
    using sample_membership_valid by simp
  ultimately have cur: "snapshot_or_empty (Snapshot sample_sha
      (sample_membership\<lparr>me_Revision := mf_Revision sample_previous\<rparr>) [withheld_item ''b''] 9) = Inr []"
    by (simp add: Snapshot_def snapshot_or_empty_def sample_previous_def)
  have tomb: "diff_entries (mf_Items sample_previous) [] =
      [\<lparr>de_Op = DeltaTombstone, de_FileID = it_FileID (sample_item ''c''), de_Item = None\<rparr>]"
    by (simp add: diff_entries_def indexByFile_def sample_previous_def sort_entries_def tombstones_def)
  have "validate prefixFile (it_FileID (sample_item ''c'')) = None"
    using sample_item_valid [of "''c''"] unfolding item_Validate_iff by blast
  moreover have "validate ''swm'' (me_Swarm sample_membership) = None"
    "validate prefixAlias (me_Alias sample_membership) = None"
    using membership_ids [OF sample_membership_valid] by simp_all
  ultimately have "\<exists>d. Diff sample_sha sample_previous sample_membership [withheld_item ''b''] 9 = Inr d"
    unfolding Diff_def using sample_membership_valid cur tomb
    by (simp add: delta_Validate_def validate_entry_def)
  then show "Diff sample_sha sample_previous sample_membership [withheld_item ''b''] 9 =
      Inr (projr (Diff sample_sha sample_previous sample_membership [withheld_item ''b''] 9))"
    by auto
qed

text \<open>Repeated scans of an unchanged library publish nothing: after a snapshot, revalidating
  every holding (which moves only the time of its last check) gives no delta at all.\<close>

theorem unchanged_rescan_is_quiet:
  assumes "Snapshot sha m h at = Inr mf" and "mf_Revision mf + 1 \<noteq> 0"
  shows "Diff sha mf m (map (\<lambda>i. i\<lparr>it_LastVerifiedAt := t i\<rparr>) h) at' = Inr None"
proof -
  let ?touch = "\<lambda>i. i\<lparr>it_LastVerifiedAt := t i\<rparr>"
  obtain mf' where mf': "Snapshot sha (m\<lparr>me_Revision := mf_Revision mf\<rparr>) (map ?touch h) at' = Inr mf'"
    "mf_Items mf' = map ?touch (mf_Items mf)"
    using Snapshot_touched [OF assms] by blast
  have "distinct (map it_FileID (mf_Items mf))"
    using Snapshot_ok(2) [OF assms(1)] by (simp add: manifest_Validate_iff)
  then have "diff_entries (mf_Items mf) (map ?touch (mf_Items mf)) = []"
    by (rule diff_entries_quiet) (simp_all add: changed_def referenceChanged_def)
  then show ?thesis
    using Snapshot_ok(1) [OF assms(1)] mf' by (simp add: Diff_def snapshot_or_empty_def)
qed

theorem unchanged_rescan_is_quiet_witness:
  "\<exists>mf. Snapshot sample_sha sample_membership [withheld_item ''b'', sample_item ''a''] 9 = Inr mf \<and>
    Diff sample_sha mf sample_membership
      (map (\<lambda>i. i\<lparr>it_LastVerifiedAt := 77\<rparr>) [withheld_item ''b'', sample_item ''a'']) 80 = Inr None"
proof -
  obtain mf where mf: "Snapshot sample_sha sample_membership [withheld_item ''b'', sample_item ''a''] 9 = Inr mf"
    "mf_Revision mf = 1"
    using sample_snapshot by blast
  then have "mf_Revision mf + 1 \<noteq> 0"
    by simp
  then show ?thesis
    using mf(1) unchanged_rescan_is_quiet [OF mf(1), of "\<lambda>_. 77" 80] by blast
qed

text \<open>The owner's preview counts every permitted holding and every withheld one; it agrees
  with the number of items the Swarm would be told exactly when no permitted file is held twice, and
  overstates it otherwise.\<close>

theorem preview_against_snapshot:
  assumes "Snapshot sha m h at = Inr mf"
  shows "pv_Published (PreviewPolicy (me_Policy m) h) + pv_Withheld (PreviewPolicy (me_Policy m) h) = int (length h) \<and>
    int (length (mf_Items mf)) \<le> pv_Published (PreviewPolicy (me_Policy m) h) \<and>
    (int (length (mf_Items mf)) = pv_Published (PreviewPolicy (me_Policy m) h) \<longleftrightarrow>
      distinct (map it_FileID (filter (Permits (me_Policy m)) h)))"
proof -
  let ?ids = "map it_FileID (filter (Permits (me_Policy m)) h)"
  have "length (mf_Items mf) = card (set ?ids)"
    unfolding Snapshot_ok(3) [OF assms] length_sort snapshot_items_length ..
  moreover have "pv_Published (PreviewPolicy (me_Policy m) h) = int (length ?ids)"
    using preview_fold by (simp add: PreviewPolicy_def)
  moreover have "pv_Published (PreviewPolicy (me_Policy m) h) + pv_Withheld (PreviewPolicy (me_Policy m) h) = int (length h)"
    using preview_fold sum_length_filter_compl [of "Permits (me_Policy m)" h]
    by (simp add: PreviewPolicy_def flip: of_nat_add)
  moreover have "card (set ?ids) \<le> length ?ids" "card (set ?ids) = length ?ids \<longleftrightarrow> distinct ?ids"
    using card_length [of ?ids] card_distinct [of ?ids] distinct_card [of ?ids] by blast+
  ultimately show ?thesis
    by simp
qed

theorem preview_against_snapshot_witness:
  "\<exists>mf :: Manifest. pv_Published (PreviewPolicy (me_Policy sample_membership) [withheld_item ''b'', sample_item ''a'']) +
      pv_Withheld (PreviewPolicy (me_Policy sample_membership) [withheld_item ''b'', sample_item ''a'']) =
      int (length [withheld_item ''b'', sample_item ''a'']) \<and> length (mf_Items mf) = 1"
proof -
  obtain mf where mf: "Snapshot sample_sha sample_membership [withheld_item ''b'', sample_item ''a''] 9 = Inr mf"
    "mf_Items mf = [sample_item ''a'']"
    using sample_snapshot by blast
  show ?thesis
    by (rule exI [of _ mf], intro conjI, rule conjunct1 [OF preview_against_snapshot [OF mf(1)]])
      (simp add: mf(2))
qed

end
