(* ===== verification/Preservation.thy ===== *)
theory Preservation
  imports Manifest
begin

text \<open>
  Preservation risk, \<open>src/preservation/risk.go\<close>: the aggregation of replica records by
  bridge and by failure domain, the risk of one item, and the coverage of a platform.  The Go
  map of bridge summaries is a map; the second loop ranges over its keys in the order given by
  the list of aliases, and the result is shown not to depend on it.
\<close>

section \<open>Data\<close>

datatype RiskState =
    RiskResilient
  | RiskFragile
  | RiskAtRisk
  | RiskStale
  | RiskUnavailable
  | RiskMissing
  | RiskOther string

fun NeedsReplication :: "RiskState \<Rightarrow> bool" where
  "NeedsReplication RiskResilient = False"
| "NeedsReplication _ = True"

record Replica =
  rp_Alias :: string
  rp_FailureDomain :: string
  rp_Availability :: Availability
  rp_LastVerifiedAt :: instant

record Rules =
  ru_Version :: string
  ru_RevalidationWindow :: int
  ru_AtRiskAt :: int
  ru_FragileAt :: int
  ru_ResilientAt :: int

definition DefaultRules :: Rules where
  "DefaultRules = \<lparr>ru_Version = ''2'', ru_RevalidationWindow = 30 * 24 * 3600 * 1000000000,
     ru_AtRiskAt = 1, ru_FragileAt = 2, ru_ResilientAt = 3\<rparr>"

record Assessment =
  as_Confirmed :: int
  as_Online :: int
  as_Independent :: int
  as_Risk :: RiskState
  as_RulesVersion :: string

section \<open>One item\<close>

definition recentlyRevalidated :: "Replica \<Rightarrow> Rules \<Rightarrow> instant \<Rightarrow> bool" where
  "recentlyRevalidated r rules now =
     (if rp_LastVerifiedAt r = 0 then False
      else if rp_LastVerifiedAt r > now then False
      else \<not> rp_LastVerifiedAt r < now - ru_RevalidationWindow rules)"

record bridgeSummary =
  bs_removed :: bool
  bs_present :: bool
  bs_online :: bool
  bs_recentDomains :: "string set"

definition fresh_summary :: bridgeSummary where
  "fresh_summary = \<lparr>bs_removed = False, bs_present = False, bs_online = False, bs_recentDomains = {}\<rparr>"

definition domain_key :: "Replica \<Rightarrow> string" where
  "domain_key r = (if rp_FailureDomain r = '''' then ''unknown'' else rp_FailureDomain r)"

text \<open>The body of the first loop, on the summary of the record's bridge.\<close>

definition summarise :: "Rules \<Rightarrow> instant \<Rightarrow> bridgeSummary \<Rightarrow> Replica \<Rightarrow> bridgeSummary" where
  "summarise rules now s r =
     (if rp_Availability r = AvailRemoved then s\<lparr>bs_removed := True\<rparr>
      else let s1 = s\<lparr>bs_present := True\<rparr>;
               s2 = (if CountsTowardResilience (rp_Availability r) then s1\<lparr>bs_online := True\<rparr> else s1)
           in if \<not> recentlyRevalidated r rules now then s2
              else if \<not> CountsTowardResilience (rp_Availability r) then s2
              else s2\<lparr>bs_recentDomains := insert (domain_key r) (bs_recentDomains s2)\<rparr>)"

definition add_replica :: "Rules \<Rightarrow> instant \<Rightarrow> (string \<rightharpoonup> bridgeSummary) \<Rightarrow> Replica \<Rightarrow> (string \<rightharpoonup> bridgeSummary)" where
  "add_replica rules now byBridge r =
     (let s = (case byBridge (rp_Alias r) of None \<Rightarrow> fresh_summary | Some s \<Rightarrow> s)
      in byBridge(rp_Alias r \<mapsto> summarise rules now s r))"

record tally =
  ta_confirmed :: int
  ta_online :: int
  ta_domains :: "string set"

text \<open>The body of the second loop.\<close>

definition count_bridge :: "tally \<Rightarrow> bridgeSummary \<Rightarrow> tally" where
  "count_bridge t s =
     (if bs_removed s \<or> \<not> bs_present s then t
      else let t1 = t\<lparr>ta_confirmed := ta_confirmed t + 1\<rparr>;
               t2 = (if bs_online s then t1\<lparr>ta_online := ta_online t1 + 1\<rparr> else t1)
           in if card (bs_recentDomains s) = 1
              then t2\<lparr>ta_domains := ta_domains t2 \<union> bs_recentDomains s\<rparr>
              else if card (bs_recentDomains s) > 1
              then t2\<lparr>ta_domains := insert ''unknown'' (ta_domains t2)\<rparr>
              else t2)"

definition risk_of :: "Rules \<Rightarrow> int \<Rightarrow> int \<Rightarrow> int \<Rightarrow> RiskState" where
  "risk_of rules confirmed online independent =
     (if confirmed = 0 then RiskMissing
      else if independent \<ge> ru_ResilientAt rules then RiskResilient
      else if independent \<ge> ru_FragileAt rules then RiskFragile
      else if independent \<ge> ru_AtRiskAt rules then RiskAtRisk
      else if online > 0 then RiskStale
      else RiskUnavailable)"

definition assess_keys :: "string list \<Rightarrow> Replica list \<Rightarrow> Rules \<Rightarrow> instant \<Rightarrow> Assessment" where
  "assess_keys keys replicas rules now =
     (let byBridge = foldl (add_replica rules now) Map.empty replicas;
          t = foldl count_bridge \<lparr>ta_confirmed = 0, ta_online = 0, ta_domains = {}\<rparr>
                (map (\<lambda>a. the (byBridge a)) keys)
      in \<lparr>as_Confirmed = ta_confirmed t, as_Online = ta_online t,
          as_Independent = int (card (ta_domains t)),
          as_Risk = risk_of rules (ta_confirmed t) (ta_online t) (int (card (ta_domains t))),
          as_RulesVersion = ru_Version rules\<rparr>)"

definition Assess :: "Replica list \<Rightarrow> Rules \<Rightarrow> instant \<Rightarrow> Assessment" where
  "Assess replicas rules now =
     (if length replicas = 0
      then \<lparr>as_Confirmed = 0, as_Online = 0, as_Independent = 0, as_Risk = RiskMissing,
            as_RulesVersion = ru_Version rules\<rparr>
      else assess_keys (remdups (map rp_Alias replicas)) replicas rules now)"

section \<open>A platform\<close>

record Coverage =
  cv_Platform :: PlatformID
  cv_ProfileRef :: string
  cv_SetRef :: string
  cv_RulesVersion :: string
  cv_Expected :: int
  cv_Content :: int
  cv_Available :: int
  cv_Resilient :: int
  cv_AtRisk :: int
  cv_Fragile :: int
  cv_Stale :: int
  cv_Unavailable :: int
  cv_Missing :: int
  cv_PlayabilityKnown :: bool

fun count_risk :: "RiskState \<Rightarrow> Coverage \<Rightarrow> Coverage" where
  "count_risk RiskResilient cov = cov\<lparr>cv_Resilient := cv_Resilient cov + 1\<rparr>"
| "count_risk RiskFragile cov = cov\<lparr>cv_Fragile := cv_Fragile cov + 1\<rparr>"
| "count_risk RiskAtRisk cov = cov\<lparr>cv_AtRisk := cv_AtRisk cov + 1\<rparr>"
| "count_risk RiskStale cov = cov\<lparr>cv_Stale := cv_Stale cov + 1\<rparr>"
| "count_risk RiskUnavailable cov = cov\<lparr>cv_Unavailable := cv_Unavailable cov + 1\<rparr>"
| "count_risk RiskMissing cov = cov\<lparr>cv_Missing := cv_Missing cov + 1\<rparr>"
| "count_risk (RiskOther s) cov = cov"

definition cover_entry :: "(FileID \<Rightarrow> Replica list) \<Rightarrow> Rules \<Rightarrow> instant \<Rightarrow> Coverage \<Rightarrow> FileID \<Rightarrow> Coverage" where
  "cover_entry replicasByFile rules now cov f =
     (let a = Assess (replicasByFile f) rules now;
          c1 = (if as_Confirmed a > 0 then cov\<lparr>cv_Content := cv_Content cov + 1\<rparr> else cov);
          c2 = (if as_Online a > 0 then c1\<lparr>cv_Available := cv_Available c1 + 1\<rparr> else c1)
      in count_risk (as_Risk a) c2)"

definition ComputeCoverage :: "PlatformID \<Rightarrow> string \<Rightarrow> string \<Rightarrow> FileID list \<Rightarrow> (FileID \<Rightarrow> Replica list)
    \<Rightarrow> Rules \<Rightarrow> instant \<Rightarrow> Coverage" where
  "ComputeCoverage platform profileRef setRef expected replicasByFile rules now =
     foldl (cover_entry replicasByFile rules now)
       \<lparr>cv_Platform = platform, cv_ProfileRef = profileRef, cv_SetRef = setRef,
        cv_RulesVersion = ru_Version rules, cv_Expected = int (length expected), cv_Content = 0,
        cv_Available = 0, cv_Resilient = 0, cv_AtRisk = 0, cv_Fragile = 0, cv_Stale = 0,
        cv_Unavailable = 0, cv_Missing = 0, cv_PlayabilityKnown = False\<rparr> expected"

definition RiskOrder :: "RiskState list" where
  "RiskOrder = [RiskMissing, RiskUnavailable, RiskAtRisk, RiskStale, RiskFragile, RiskResilient]"

definition SortReplicas :: "Replica list \<Rightarrow> Replica list" where
  "SortReplicas replicas = sort_key rp_Alias replicas"

section \<open>What the aggregation reads: the set of records\<close>

text \<open>The records of one bridge, and the summary they determine.\<close>

definition bridge_removed :: "Replica set \<Rightarrow> string \<Rightarrow> bool" where
  "bridge_removed R b = (\<exists>r \<in> R. rp_Alias r = b \<and> rp_Availability r = AvailRemoved)"

definition bridge_present :: "Replica set \<Rightarrow> string \<Rightarrow> bool" where
  "bridge_present R b = (\<exists>r \<in> R. rp_Alias r = b \<and> rp_Availability r \<noteq> AvailRemoved)"

definition bridge_online :: "Replica set \<Rightarrow> string \<Rightarrow> bool" where
  "bridge_online R b = (\<exists>r \<in> R. rp_Alias r = b \<and> rp_Availability r = AvailAvailable)"

definition bridge_domains :: "Rules \<Rightarrow> instant \<Rightarrow> Replica set \<Rightarrow> string \<Rightarrow> string set" where
  "bridge_domains rules now R b =
     domain_key ` {r \<in> R. rp_Alias r = b \<and> rp_Availability r = AvailAvailable \<and> recentlyRevalidated r rules now}"

definition summary_of :: "Rules \<Rightarrow> instant \<Rightarrow> Replica set \<Rightarrow> string \<Rightarrow> bridgeSummary" where
  "summary_of rules now R b = \<lparr>bs_removed = bridge_removed R b, bs_present = bridge_present R b,
     bs_online = bridge_online R b, bs_recentDomains = bridge_domains rules now R b\<rparr>"

lemma summarise_step:
  "summarise rules now (summary_of rules now R b) r = summary_of rules now (insert r R) b"
  if "rp_Alias r = b"
proof -
  have "bridge_domains rules now (insert r R) b = (if rp_Availability r = AvailAvailable \<and>
      recentlyRevalidated r rules now then insert (domain_key r) (bridge_domains rules now R b)
      else bridge_domains rules now R b)"
    using that by (auto simp add: bridge_domains_def)
  then show ?thesis
    using that by (auto simp add: summarise_def summary_of_def Let_def CountsTowardResilience_def
        bridge_removed_def bridge_present_def bridge_online_def)
qed

lemma summary_other:
  "rp_Alias r \<noteq> b \<Longrightarrow> summary_of rules now (insert r R) b = summary_of rules now R b"
  by (auto simp add: summary_of_def bridge_removed_def bridge_present_def bridge_online_def bridge_domains_def)

lemma summary_fresh:
  "b \<notin> rp_Alias ` R \<Longrightarrow> summary_of rules now R b = fresh_summary"
  by (auto simp add: summary_of_def fresh_summary_def bridge_removed_def bridge_present_def
      bridge_online_def bridge_domains_def)

lemma add_replica_apply:
  "add_replica rules now m r b = (if b = rp_Alias r
    then Some (summarise rules now (case m b of None \<Rightarrow> fresh_summary | Some s \<Rightarrow> s) r) else m b)"
  by (simp add: add_replica_def Let_def)

lemma byBridge_spec:
  "foldl (add_replica rules now) Map.empty rs b =
    (if b \<in> rp_Alias ` set rs then Some (summary_of rules now (set rs) b) else None)"
proof (induction rs rule: rev_induct)
  case (snoc r rs)
  let ?m = "foldl (add_replica rules now) Map.empty rs"
  have step: "foldl (add_replica rules now) Map.empty (rs @ [r]) b = (if b = rp_Alias r
      then Some (summarise rules now (case ?m b of None \<Rightarrow> fresh_summary | Some s \<Rightarrow> s) r) else ?m b)"
    unfolding foldl_append foldl.simps by (rule add_replica_apply)
  show ?case
  proof (cases "rp_Alias r = b")
    case True
    then have "(case ?m b of None \<Rightarrow> fresh_summary | Some s \<Rightarrow> s) = summary_of rules now (set rs) b"
      using snoc summary_fresh [of b "set rs" rules now] by auto
    then show ?thesis
      unfolding step using True summarise_step [OF True, of rules now "set rs"] by simp
  next
    case False
    then show ?thesis
      unfolding step using snoc summary_other [of r b rules now "set rs"] by auto
  qed
qed simp

text \<open>A bridge counts when it is present and not removed; it contributes its one domain, or
  the unknown bucket when its records disagree.\<close>

definition bridge_live :: "Replica set \<Rightarrow> string \<Rightarrow> bool" where
  "bridge_live R b = (\<not> bridge_removed R b \<and> bridge_present R b)"

definition bridge_contribution :: "Rules \<Rightarrow> instant \<Rightarrow> Replica set \<Rightarrow> string \<Rightarrow> string set" where
  "bridge_contribution rules now R b =
     (let D = bridge_domains rules now R b in
      if card D = 1 then D else if card D > 1 then {''unknown''} else {})"

definition assess_spec :: "Rules \<Rightarrow> instant \<Rightarrow> Replica set \<Rightarrow> Assessment" where
  "assess_spec rules now R =
     (let live = {b \<in> rp_Alias ` R. bridge_live R b};
          confirmed = int (card live);
          online = int (card {b \<in> live. bridge_online R b});
          independent = int (card (\<Union>b \<in> live. bridge_contribution rules now R b))
      in \<lparr>as_Confirmed = confirmed, as_Online = online, as_Independent = independent,
          as_Risk = risk_of rules confirmed online independent, as_RulesVersion = ru_Version rules\<rparr>)"

lemma count_bridge_summary:
  "count_bridge t (summary_of rules now R b) =
    (if bridge_live R b then \<lparr>ta_confirmed = ta_confirmed t + 1,
       ta_online = ta_online t + (if bridge_online R b then 1 else 0),
       ta_domains = ta_domains t \<union> bridge_contribution rules now R b\<rparr> else t)"
  by (cases t) (simp add: count_bridge_def summary_of_def bridge_live_def bridge_contribution_def Let_def)

lemma count_bridges:
  "foldl count_bridge t (map (summary_of rules now R) keys) =
    \<lparr>ta_confirmed = ta_confirmed t + int (length (filter (bridge_live R) keys)),
     ta_online = ta_online t + int (length (filter (\<lambda>b. bridge_live R b \<and> bridge_online R b) keys)),
     ta_domains = ta_domains t \<union> (\<Union>b \<in> {b \<in> set keys. bridge_live R b}. bridge_contribution rules now R b)\<rparr>"
proof (induction keys arbitrary: t)
  case (Cons b keys)
  then show ?case
    by (simp add: count_bridge_summary) (auto simp add: Collect_disj_eq conj_disj_distribR)
qed simp

lemma filter_keys_card:
  "distinct keys \<Longrightarrow> length (filter P keys) = card {b \<in> set keys. P b}"
  by (metis distinct_card distinct_filter set_filter)

text \<open>Any order of the bridges gives the same assessment.\<close>

lemma assess_keys_spec:
  assumes "distinct keys" "set keys = rp_Alias ` set rs"
  shows "assess_keys keys rs rules now = assess_spec rules now (set rs)"
proof -
  have summaries: "map (\<lambda>a. the (foldl (add_replica rules now) Map.empty rs a)) keys =
      map (summary_of rules now (set rs)) keys"
    using assms(2) by (auto simp only: byBridge_spec map_eq_conv split: if_split) auto
  have "{b \<in> set keys. bridge_live (set rs) b \<and> bridge_online (set rs) b} =
      {b \<in> {b \<in> rp_Alias ` set rs. bridge_live (set rs) b}. bridge_online (set rs) b}"
    using assms(2) by auto
  then show ?thesis
    unfolding assess_keys_def Let_def summaries count_bridges
    using assms by (simp add: assess_spec_def Let_def filter_keys_card)
qed

lemma Assess_spec: "Assess rs rules now = assess_spec rules now (set rs)"
proof (cases rs)
  case Nil
  then show ?thesis
    by (simp add: Assess_def assess_spec_def risk_of_def)
next
  case (Cons r rs')
  then have "Assess rs rules now = assess_keys (remdups (map rp_Alias rs)) rs rules now"
    unfolding Assess_def by (simp del: remdups.simps)
  also have "\<dots> = assess_spec rules now (set rs)"
    by (rule assess_keys_spec) (simp_all only: set_remdups set_map distinct_remdups)
  finally show ?thesis .
qed

text \<open>No count exceeds the one before it.\<close>

lemma card_UN_small:
  assumes "finite B" "\<And>b. b \<in> B \<Longrightarrow> finite (f b) \<and> card (f b) \<le> 1"
  shows "card (\<Union>b \<in> B. f b) \<le> card {b \<in> B. f b \<noteq> {}}"
proof -
  have "(\<Union>b \<in> B. f b) = (\<Union>b \<in> {b \<in> B. f b \<noteq> {}}. f b)"
    by auto
  moreover have "card (\<Union>b \<in> {b \<in> B. f b \<noteq> {}}. f b) \<le> (\<Sum>b \<in> {b \<in> B. f b \<noteq> {}}. card (f b))"
    using assms(1) by (intro card_UN_le) simp
  moreover have "(\<Sum>b \<in> {b \<in> B. f b \<noteq> {}}. card (f b)) \<le> (\<Sum>b \<in> {b \<in> B. f b \<noteq> {}}. 1)"
    using assms(2) by (intro sum_mono) simp
  ultimately show ?thesis
    by simp
qed

lemma contribution_small:
  "finite R \<Longrightarrow> finite (bridge_contribution rules now R b) \<and> card (bridge_contribution rules now R b) \<le> 1"
  by (simp add: bridge_contribution_def Let_def bridge_domains_def)

lemma contribution_online:
  "bridge_contribution rules now R b \<noteq> {} \<Longrightarrow> bridge_online R b"
  by (auto simp add: bridge_contribution_def Let_def bridge_domains_def bridge_online_def split: if_splits)
    (metis (mono_tags, lifting) Collect_empty_eq card.empty image_is_empty less_nat_zero_code)

lemma Assess_counts:
  "as_Confirmed (Assess rs rules now) = int (card {b \<in> rp_Alias ` set rs. bridge_live (set rs) b})"
  "as_Online (Assess rs rules now) =
    int (card {b \<in> rp_Alias ` set rs. bridge_live (set rs) b \<and> bridge_online (set rs) b})"
  "as_Independent (Assess rs rules now) =
    int (card (\<Union>b \<in> {b \<in> rp_Alias ` set rs. bridge_live (set rs) b}. bridge_contribution rules now (set rs) b))"
  "as_Risk (Assess rs rules now) = risk_of rules (as_Confirmed (Assess rs rules now))
    (as_Online (Assess rs rules now)) (as_Independent (Assess rs rules now))"
  by (simp_all add: Assess_spec assess_spec_def Let_def)

text \<open>The bridges that hold a live, online, recently verified copy.\<close>

definition recent_holders :: "Rules \<Rightarrow> instant \<Rightarrow> Replica list \<Rightarrow> string set" where
  "recent_holders rules now rs = {b \<in> rp_Alias ` set rs. bridge_live (set rs) b \<and>
     bridge_domains rules now (set rs) b \<noteq> {}}"

lemma independent_le_holders:
  "as_Independent (Assess rs rules now) \<le> int (card (recent_holders rules now rs))"
proof -
  let ?B = "{b \<in> rp_Alias ` set rs. bridge_live (set rs) b}"
  have "card (\<Union>b \<in> ?B. bridge_contribution rules now (set rs) b) \<le>
      card {b \<in> ?B. bridge_contribution rules now (set rs) b \<noteq> {}}"
    using contribution_small [of "set rs" rules now] by (intro card_UN_small) auto
  also have "\<dots> \<le> card (recent_holders rules now rs)"
    by (rule card_mono) (auto simp add: recent_holders_def bridge_contribution_def Let_def split: if_splits)
  finally show ?thesis
    by (simp add: Assess_counts)
qed

lemma holders_le_online:
  "int (card (recent_holders rules now rs)) \<le> as_Online (Assess rs rules now)"
  unfolding Assess_counts of_nat_le_iff
  by (rule card_mono) (auto simp add: recent_holders_def bridge_domains_def bridge_online_def)

lemma online_le_confirmed: "as_Online (Assess rs rules now) \<le> as_Confirmed (Assess rs rules now)"
  unfolding Assess_counts of_nat_le_iff by (rule card_mono) auto

lemma confirmed_le_bridges:
  "as_Confirmed (Assess rs rules now) \<le> int (card (rp_Alias ` set rs))"
  unfolding Assess_counts of_nat_le_iff by (rule card_mono) auto

text \<open>Coverage: every entry lands in one class.\<close>

definition cov_total :: "Coverage \<Rightarrow> int" where
  "cov_total c = cv_Resilient c + cv_Fragile c + cv_AtRisk c + cv_Stale c + cv_Unavailable c + cv_Missing c"

lemma risk_of_known: "risk_of rules c on i \<noteq> RiskOther s"
  by (simp add: risk_of_def)

lemma count_risk_sums:
  assumes "\<And>s. r \<noteq> RiskOther s"
  shows "cov_total (count_risk r c) = cov_total c + 1"
    "cv_Content (count_risk r c) = cv_Content c" "cv_Available (count_risk r c) = cv_Available c"
    "cv_Expected (count_risk r c) = cv_Expected c"
    "cv_Missing (count_risk r c) = cv_Missing c + (if r = RiskMissing then 1 else 0)"
  using assms by (cases r; simp add: cov_total_def)+

lemma cover_entry_step:
  "cov_total (cover_entry rf rules now c f) = cov_total c + 1 \<and>
   cv_Content (cover_entry rf rules now c f) + cv_Missing (cover_entry rf rules now c f) =
     cv_Content c + cv_Missing c + 1 \<and>
   cv_Content (cover_entry rf rules now c f) - cv_Available (cover_entry rf rules now c f) \<ge>
     cv_Content c - cv_Available c \<and>
   cv_Expected (cover_entry rf rules now c f) = cv_Expected c"
proof -
  let ?a = "Assess (rf f) rules now"
  have known: "\<And>s. as_Risk ?a \<noteq> RiskOther s"
    by (simp add: Assess_counts(4) risk_of_known)
  have missing: "as_Risk ?a = RiskMissing \<longleftrightarrow> as_Confirmed ?a = 0"
    unfolding Assess_counts(4) by (simp add: risk_of_def)
  have "0 \<le> as_Online ?a" "as_Online ?a \<le> as_Confirmed ?a"
    using online_le_confirmed by (simp_all add: Assess_counts)
  then show ?thesis
    using missing by (simp add: cover_entry_def Let_def count_risk_sums [OF known]) (simp add: cov_total_def)
qed

lemma cover_fold:
  "cov_total (foldl (cover_entry rf rules now) c fs) = cov_total c + int (length fs) \<and>
   cv_Content (foldl (cover_entry rf rules now) c fs) + cv_Missing (foldl (cover_entry rf rules now) c fs) =
     cv_Content c + cv_Missing c + int (length fs) \<and>
   cv_Content (foldl (cover_entry rf rules now) c fs) - cv_Available (foldl (cover_entry rf rules now) c fs) \<ge>
     cv_Content c - cv_Available c \<and>
   cv_Expected (foldl (cover_entry rf rules now) c fs) = cv_Expected c"
proof (induction fs arbitrary: c)
  case (Cons f fs)
  then show ?case
    using Cons.IH [of "cover_entry rf rules now c f"] cover_entry_step [of rf rules now c f]
    by simp (meson order_trans)
qed simp

section \<open>Properties\<close>

text \<open>C24: the assessment of an item is the reference definition over the set of its records:
  duplicates of a record and the order in which records arrive (and in which the map of bridges is
  walked) change nothing.\<close>

theorem assess_reads_the_set:
  "Assess rs rules now = assess_spec rules now (set rs) \<and>
   (distinct keys \<and> set keys = rp_Alias ` set rs \<longrightarrow> assess_keys keys rs rules now = Assess rs rules now)"
  using Assess_spec assess_keys_spec by metis

theorem assess_reads_the_set_witness:
  "let r = \<lparr>rp_Alias = ''x'', rp_FailureDomain = ''d'', rp_Availability = AvailAvailable, rp_LastVerifiedAt = 5\<rparr>
   in assess_keys [''x''] [r, r] DefaultRules 6 = Assess [r, r] DefaultRules 6"
  unfolding Let_def
  by (rule assess_reads_the_set [THEN conjunct2, THEN mp]) simp

text \<open>The counts are ordered and bounded by distinct bridges: independent replicas are at most
  the bridges with a live, online, recently verified copy, those at most the online ones, those at
  most the confirmed ones, those at most the bridges with a record; so an item is called resilient
  only when three different bridges hold such a copy.\<close>

theorem independence_needs_bridges:
  "as_Independent (Assess rs rules now) \<le> int (card (recent_holders rules now rs)) \<and>
   int (card (recent_holders rules now rs)) \<le> as_Online (Assess rs rules now) \<and>
   as_Online (Assess rs rules now) \<le> as_Confirmed (Assess rs rules now) \<and>
   as_Confirmed (Assess rs rules now) \<le> int (card (rp_Alias ` set rs)) \<and>
   (as_Risk (Assess rs DefaultRules now) = RiskResilient \<longrightarrow> 3 \<le> card (recent_holders DefaultRules now rs))"
proof -
  have "3 \<le> card (recent_holders DefaultRules now rs)"
    if "as_Risk (Assess rs DefaultRules now) = RiskResilient"
  proof -
    have "3 \<le> as_Independent (Assess rs DefaultRules now)"
      using that unfolding Assess_counts(4) by (simp add: risk_of_def DefaultRules_def split: if_splits)
    then show ?thesis
      using independent_le_holders [of rs DefaultRules now] by linarith
  qed
  then show ?thesis
    using independent_le_holders holders_le_online online_le_confirmed confirmed_le_bridges by blast
qed

definition sample_replica :: "string \<Rightarrow> string \<Rightarrow> Replica" where
  "sample_replica a d = \<lparr>rp_Alias = a, rp_FailureDomain = d, rp_Availability = AvailAvailable,
     rp_LastVerifiedAt = 5\<rparr>"

theorem independence_needs_bridges_witness:
  "3 \<le> card (recent_holders DefaultRules 6 [sample_replica ''x'' ''d'', sample_replica ''y'' ''e'', sample_replica ''z'' ''f''])"
proof -
  let ?rs = "[sample_replica ''x'' ''d'', sample_replica ''y'' ''e'', sample_replica ''z'' ''f'']"
  have "as_Risk (Assess ?rs DefaultRules 6) = RiskResilient"
    by (simp add: Assess_def assess_keys_def add_replica_def summarise_def count_bridge_def risk_of_def
        fresh_summary_def sample_replica_def DefaultRules_def recentlyRevalidated_def domain_key_def
        CountsTowardResilience_def Let_def)
  then show ?thesis
    using independence_needs_bridges [where rs = ?rs and now = 6 and rules = DefaultRules] by blast
qed

text \<open>A copy of unknown ownership is evidence of independence after all, next to one of known
  ownership: a bridge in a named domain and a bridge whose domain is unknown make two independent
  replicas, although they may be in the same place.\<close>

theorem unknown_domain_counts:
  assumes "rp_Alias r \<noteq> rp_Alias u" "rp_FailureDomain u = ''''"
    and "rp_FailureDomain r \<noteq> ''''" "rp_FailureDomain r \<noteq> ''unknown''"
    and "rp_Availability r = AvailAvailable" "rp_Availability u = AvailAvailable"
    and "recentlyRevalidated r DefaultRules now" "recentlyRevalidated u DefaultRules now"
  shows "as_Independent (Assess [r, u] DefaultRules now) = 2 \<and>
    as_Risk (Assess [r, u] DefaultRules now) = RiskFragile"
  using assms
  by (simp add: Assess_def assess_keys_def add_replica_def summarise_def count_bridge_def risk_of_def
      fresh_summary_def DefaultRules_def domain_key_def CountsTowardResilience_def Let_def)

theorem unknown_domain_counts_witness:
  "as_Independent (Assess [sample_replica ''x'' ''d'', sample_replica ''y'' ''''] DefaultRules 6) = 2 \<and>
   as_Risk (Assess [sample_replica ''x'' ''d'', sample_replica ''y'' ''''] DefaultRules 6) = RiskFragile"
  by (rule unknown_domain_counts) (simp_all add: sample_replica_def recentlyRevalidated_def DefaultRules_def)

text \<open>The coverage figures of a platform account for every expected entry: the six risk
  classes partition the expected set, the entries held and the missing ones add up to it, and no more
  entries are available than held.\<close>

theorem coverage_partitions_expected:
  "cov_total (ComputeCoverage p pr sr expected rf rules now) = int (length expected) \<and>
   cv_Content (ComputeCoverage p pr sr expected rf rules now) +
     cv_Missing (ComputeCoverage p pr sr expected rf rules now) = int (length expected) \<and>
   cv_Available (ComputeCoverage p pr sr expected rf rules now) \<le>
     cv_Content (ComputeCoverage p pr sr expected rf rules now) \<and>
   cv_Expected (ComputeCoverage p pr sr expected rf rules now) = int (length expected)"
  using cover_fold [of rf rules now "\<lparr>cv_Platform = p, cv_ProfileRef = pr, cv_SetRef = sr,
        cv_RulesVersion = ru_Version rules, cv_Expected = int (length expected), cv_Content = 0,
        cv_Available = 0, cv_Resilient = 0, cv_AtRisk = 0, cv_Fragile = 0, cv_Stale = 0,
        cv_Unavailable = 0, cv_Missing = 0, cv_PlayabilityKnown = False\<rparr>" expected]
  by (simp add: ComputeCoverage_def cov_total_def)

end
