(* ===== verification/Destination.thy ===== *)
theory Destination
  imports Digest
begin

text \<open>
  Staging and filesystem publication, \<open>src/bridge/destination/staging.go\<close>,
  \<open>publish.go\<close> and \<open>fs_unix.go\<close>.  The disk is a map from clean paths to files; a hard
  link gives a second name to the same contents and mode, and nothing the code does
  afterwards writes through either name.  The device of a path, the free space, the name of
  a temporary file and the system call that fails are arguments (\<open>syscalls\<close>), and so is what a
  device stores when bytes are written to it (\<open>sc_store\<close>, the identity on a sound device).
\<close>

section \<open>Files and system calls\<close>

record stored_file =
  fi_content :: bytes
  fi_mode :: nat

type_synonym disk = "path \<rightharpoonup> stored_file"

text \<open>The permission bits 0600 and 0644.\<close>

definition mode_private :: nat where "mode_private = 6 * 64"
definition mode_shared :: nat where "mode_shared = 6 * 64 + 4 * 8 + 4"

datatype fault =
    NoFail
  | FailMkdir
  | FailLstat
  | FailStagedDev
  | FailDestDev
  | FailOpen
  | FailCreateTemp
  | FailWrite
  | FailSync
  | FailClose
  | FailChmod
  | FailLink
  | FailSyncDir
  | FailRemove

record syscalls =
  sc_fail :: fault
  sc_isdir :: "path \<Rightarrow> bool"
  sc_device :: "path \<Rightarrow> nat"
  sc_store :: "path \<Rightarrow> bytes \<Rightarrow> bytes"
  sc_temp :: path
  sc_free :: "string + int"

datatype dest_error =
    ErrInsufficientSpace int int int
  | ErrFreeSpace string
  | ErrStaging string
  | ErrMismatch
  | ErrTooWeak StrengthLevel
  | ErrDestinationExists path
  | ErrUnsafePath string
  | ErrPublishing string
  | ErrCopyMismatch

section \<open>Staging\<close>

definition PartSuffix :: string where "PartSuffix = ''.part''"

definition DefaultAbandonedAfter :: int where "DefaultAbandonedAfter = 48 * 3600 * 1000000000"

definition SpaceHeadroom :: int where "SpaceHeadroom = 2"

definition PathFor :: "path \<Rightarrow> string \<Rightarrow> path" where
  "PathFor dir tid = clean_onto dir (split_char CHR ''/'' (tid @ PartSuffix))"

text \<open>\<open>freeSpace\<close>: the two counts of \<open>statfs\<close> multiplied as \<open>int64\<close>.\<close>

definition freeSpace :: "int \<Rightarrow> int \<Rightarrow> int" where
  "freeSpace bavail bsize = wrap64 (bavail * bsize)"

definition CheckSpace :: "syscalls \<Rightarrow> int \<Rightarrow> dest_error option" where
  "CheckSpace sc expectedSize =
     (if expectedSize \<le> 0 then None
      else case sc_free sc of
        Inl e \<Rightarrow> Some (ErrFreeSpace e)
      | Inr free \<Rightarrow>
        (let need = wrap64 (expectedSize * SpaceHeadroom) in
         if free < need then Some (ErrInsufficientSpace free need expectedSize) else None))"

text \<open>\<open>Receive\<close>: the reader is the bytes it delivers before its end or its error.\<close>

definition staging_Receive :: "syscalls \<Rightarrow> path \<Rightarrow> disk \<Rightarrow> string \<Rightarrow> bytes \<Rightarrow> string option
    \<Rightarrow> disk \<times> dest_error option" where
  "staging_Receive sc dir d tid payload ending =
     (let p = PathFor dir tid in
      if sc_fail sc = FailOpen then (d, Some (ErrStaging ''opening the staging file''))
      else let d' = d(p \<mapsto> \<lparr>fi_content = sc_store sc p payload,
          fi_mode = (case d p of None \<Rightarrow> mode_private | Some f \<Rightarrow> fi_mode f)\<rparr>) in
      if ending \<noteq> None \<or> sc_fail sc = FailWrite then (d', Some (ErrStaging ''writing to staging''))
      else if sc_fail sc = FailSync then (d', Some (ErrStaging ''flushing the staging file''))
      else (d', None))"

definition Abandon :: "syscalls \<Rightarrow> path \<Rightarrow> disk \<Rightarrow> string \<Rightarrow> disk \<times> dest_error option" where
  "Abandon sc dir d tid =
     (if d (PathFor dir tid) = None then (d, None)
      else if sc_fail sc = FailRemove then (d, Some (ErrStaging ''removing the staging file''))
      else (d(PathFor dir tid := None), None))"

definition staging_Verify :: "hashes \<Rightarrow> path \<Rightarrow> disk \<Rightarrow> string \<Rightarrow> Digest \<Rightarrow> dest_error option" where
  "staging_Verify H dir d tid expected =
     (case d (PathFor dir tid) of
        None \<Rightarrow> Some (ErrStaging ''opening the staged file for verification'')
      | Some f \<Rightarrow>
        (let (strength, ok) = Compare (DigestBytes H (fi_content f)) expected in
         if \<not> ok then Some ErrMismatch
         else if strength < StrengthStrong then Some (ErrTooWeak strength)
         else None))"

text \<open>\<open>CleanupAbandoned\<close> over the directory listing: for each entry its name, whether it is
  a directory, its modification time if it can be read, and whether removing it works.\<close>

record dir_entry =
  en_name :: string
  en_isdir :: bool
  en_mtime :: "instant option"
  en_removable :: bool

fun cleanup_loop :: "int \<Rightarrow> instant \<Rightarrow> dir_entry list \<Rightarrow> string list \<times> bool" where
  "cleanup_loop olderThan now [] = ([], False)"
| "cleanup_loop olderThan now (e # es) =
     (let (removed, failed) = cleanup_loop olderThan now es in
      if en_isdir e \<or> \<not> has_suffix (en_name e) PartSuffix then (removed, failed)
      else case en_mtime e of
        None \<Rightarrow> (removed, True)
      | Some t \<Rightarrow>
        if now - t < olderThan then (removed, failed)
        else if \<not> en_removable e then (removed, True)
        else (en_name e # removed, failed))"

definition CleanupAbandoned :: "int \<Rightarrow> instant \<Rightarrow> dir_entry list \<Rightarrow> string list \<times> bool" where
  "CleanupAbandoned olderThan now entries =
     cleanup_loop (if olderThan \<le> 0 then DefaultAbandonedAfter else olderThan) now entries"

section \<open>Containment\<close>

definition within :: "path \<Rightarrow> path \<Rightarrow> bool" where
  "within p root =
     (let rel = path_rel root p in
      if rel = [] then True else hd rel \<noteq> ''..'')"

definition safeJoin :: "path \<Rightarrow> string \<Rightarrow> dest_error + path" where
  "safeJoin root rel =
     (if trim_space rel = '''' then Inl (ErrUnsafePath rel)
      else if CHR 0x00 \<in> set rel then Inl (ErrUnsafePath rel)
      else if has_prefix rel ''/'' then Inl (ErrUnsafePath rel)
      else let joined = clean_onto root (split_char CHR ''/'' rel) in
      if \<not> within joined root then Inl (ErrUnsafePath rel) else Inr joined)"

section \<open>Preflight\<close>

record Config =
  cfg_LibraryRoot :: string
  cfg_ReceiveStagingDir :: string
  cfg_PublishStagingDir :: string

record Check =
  ck_Name :: string
  ck_OK :: bool
  ck_Fatal :: bool

record PreflightReport =
  pr_Checks :: "Check list"
  pr_SameFilesystem :: bool
  pr_PublishStagingDir :: path

text \<open>What the host answers: path resolution, directories, writability, devices.\<close>

record probes =
  pb_supported :: bool
  pb_resolve :: "string \<Rightarrow> path option"
  pb_resolve_path :: "path \<Rightarrow> path option"
  pb_isdir :: "path \<Rightarrow> bool"
  pb_writable :: "path \<Rightarrow> bool"
  pb_mkdir :: "path \<Rightarrow> bool"
  pb_device :: "path \<Rightarrow> nat option"
  pb_abs :: "string \<Rightarrow> path"

definition check :: "string \<Rightarrow> bool \<Rightarrow> bool \<Rightarrow> Check" where
  "check name ok fatal = \<lparr>ck_Name = name, ck_OK = ok, ck_Fatal = fatal\<rparr>"

definition report_OK :: "PreflightReport \<Rightarrow> bool" where
  "report_OK r = list_all (\<lambda>c. ck_OK c \<or> \<not> ck_Fatal c) (pr_Checks r)"

definition report_Err :: "PreflightReport \<Rightarrow> string list option" where
  "report_Err r =
     (let reasons = map ck_Name (filter (\<lambda>c. \<not> ck_OK c \<and> ck_Fatal c) (pr_Checks r)) in
      if length reasons = 0 then None else Some reasons)"

definition DefaultPublishStagingDir :: "path \<Rightarrow> path" where
  "DefaultPublishStagingDir lib =
     (if lib = [] then [''-romm-swarm-publish'']
      else butlast lib @ [''.'' @ last lib @ ''-romm-swarm-publish''])"

definition Preflight :: "probes \<Rightarrow> Config \<Rightarrow> PreflightReport" where
  "Preflight pb cfg =
     (let rep = (\<lambda>cs same dir. \<lparr>pr_Checks = cs, pr_SameFilesystem = same, pr_PublishStagingDir = dir\<rparr>) in
      if \<not> pb_supported pb then rep [check ''platform'' False True] False []
      else if trim_space (cfg_LibraryRoot cfg) = '''' then rep [check ''library root'' False True] False []
      else case pb_resolve pb (cfg_LibraryRoot cfg) of
        None \<Rightarrow> rep [check ''library root'' False True] False []
      | Some libRoot \<Rightarrow>
      if \<not> pb_isdir pb libRoot then rep [check ''library root'' False True] False []
      else let c1 = [check ''library root'' True True, check ''library writable'' (pb_writable pb libRoot) True] in
      case pb_resolve pb (cfg_ReceiveStagingDir cfg) of
        None \<Rightarrow> rep (c1 @ [check ''receive staging'' False True]) False []
      | Some recvDir \<Rightarrow>
      let c2 = c1 @ [check ''receive staging'' (\<not> within recvDir libRoot) True];
          pubDir0 = (if trim_space (cfg_PublishStagingDir cfg) = '''' then DefaultPublishStagingDir libRoot
                     else pb_abs pb (cfg_PublishStagingDir cfg)) in
      if \<not> pb_mkdir pb pubDir0 then rep (c2 @ [check ''publish staging'' False True]) False []
      else case pb_resolve_path pb pubDir0 of
        None \<Rightarrow> rep (c2 @ [check ''publish staging'' False True]) False []
      | Some pubDir \<Rightarrow>
      let c3 = c2 @ [check ''publish staging'' (\<not> within pubDir libRoot) True];
          libDev = pb_device pb libRoot; pubDev = pb_device pb pubDir;
          c4 = c3 @ [check ''publish staging filesystem''
                 (libDev \<noteq> None \<and> pubDev \<noteq> None \<and> libDev = pubDev) True] in
      (case pb_device pb recvDir of
         Some recvDev \<Rightarrow> if libDev \<noteq> None
           then rep (c4 @ [check ''receive staging filesystem'' True False]) (Some recvDev = libDev) pubDir
           else rep c4 False pubDir
       | None \<Rightarrow> rep c4 False pubDir))"

record Publisher =
  pu_Config :: Config
  pu_report :: PreflightReport

definition NewPublisher :: "probes \<Rightarrow> Config \<Rightarrow> string list + Publisher" where
  "NewPublisher pb cfg =
     (let rep = Preflight pb cfg in
      case report_Err rep of
        Some e \<Rightarrow> Inl e
      | None \<Rightarrow> Inr \<lparr>pu_Config = cfg, pu_report = rep\<rparr>)"

section \<open>Publication\<close>

text \<open>\<open>copyToDestinationFilesystem\<close>: the hasher reads the bytes on their way to the
  temporary file; what the device keeps of them is \<open>sc_store\<close>.\<close>

definition copyToDestinationFilesystem :: "hashes \<Rightarrow> syscalls \<Rightarrow> disk \<Rightarrow> path \<Rightarrow> Digest
    \<Rightarrow> disk \<times> (dest_error + path)" where
  "copyToDestinationFilesystem H sc d staged expected =
     (case d staged of
        None \<Rightarrow> (d, Inl (ErrPublishing ''opening the staged payload''))
      | Some f \<Rightarrow>
        if sc_fail sc = FailOpen then (d, Inl (ErrPublishing ''opening the staged payload''))
        else if sc_fail sc = FailCreateTemp
          then (d, Inl (ErrPublishing ''creating a temporary file on the library filesystem''))
        else let tmp = sc_temp sc; fail = d(tmp := None) in
        if sc_fail sc = FailWrite then (fail, Inl (ErrPublishing ''copying onto the library filesystem''))
        else if sc_fail sc = FailSync then (fail, Inl (ErrPublishing ''flushing the copy''))
        else if sc_fail sc = FailClose then (fail, Inl (ErrPublishing ''closing the copy''))
        else let (strength, ok) = Compare (DigestBytes H (fi_content f)) expected in
        if \<not> ok \<or> strength < StrengthStrong then (fail, Inl ErrCopyMismatch)
        else if sc_fail sc = FailChmod then (fail, Inl (ErrPublishing ''setting permissions on the copy''))
        else (d(tmp \<mapsto> \<lparr>fi_content = sc_store sc tmp (fi_content f), fi_mode = mode_shared\<rparr>), Inr tmp))"

definition Publish :: "hashes \<Rightarrow> syscalls \<Rightarrow> path \<Rightarrow> disk \<Rightarrow> path \<Rightarrow> string \<Rightarrow> Digest
    \<Rightarrow> disk \<times> (dest_error + path)" where
  "Publish H sc libRoot d stagedPath relativeDest expected =
     (case safeJoin libRoot relativeDest of
        Inl e \<Rightarrow> (d, Inl e)
      | Inr finalPath \<Rightarrow>
        if sc_fail sc = FailMkdir then (d, Inl (ErrPublishing ''creating the destination directory''))
        else if d finalPath \<noteq> None \<or> sc_isdir sc finalPath then (d, Inl (ErrDestinationExists finalPath))
        else if sc_fail sc = FailLstat then (d, Inl (ErrPublishing ''checking the destination''))
        else if d stagedPath = None \<or> sc_fail sc = FailStagedDev
          then (d, Inl (ErrPublishing ''inspecting the staged file''))
        else if sc_fail sc = FailDestDev then (d, Inl (ErrPublishing ''inspecting the destination''))
        else let cross = (sc_device sc stagedPath \<noteq> sc_device sc (butlast finalPath)) in
        (case (if cross then copyToDestinationFilesystem H sc d stagedPath expected else (d, Inr stagedPath)) of
           (d1, Inl e) \<Rightarrow> (d1, Inl e)
         | (d1, Inr source) \<Rightarrow>
           (let undo = (\<lambda>x. if cross then x(source := None) else x) in
            if d1 finalPath \<noteq> None \<or> sc_isdir sc finalPath then (undo d1, Inl (ErrDestinationExists finalPath))
            else if sc_fail sc = FailLink then (undo d1, Inl (ErrPublishing ''publishing''))
            else let d2 = d1(finalPath := d1 source) in
            if sc_fail sc = FailSyncDir then (undo d2, Inl (ErrPublishing ''opening to flush it''))
            else if cross then (undo d2, Inr finalPath)
            else if sc_fail sc = FailRemove then (d2, Inr finalPath)
            else (d2(stagedPath := None), Inr finalPath))))"

section \<open>Lemmas\<close>

text \<open>Containment: the relative path of a target does not begin with \<open>..\<close> exactly when
  the root is a prefix of it.\<close>

lemma path_rel_prefix: "path_rel root (root @ ts) = ts"
  by (induction root) (cases ts, simp_all)

lemma within_iff:
  assumes "clean_path p"
  shows "within p root \<longleftrightarrow> (\<exists>ts. p = root @ ts)"
proof
  assume "within p root"
  then show "\<exists>ts. p = root @ ts"
    using assms
  proof (induction root p rule: path_rel.induct)
    case (1 b bs t ts)
    then show ?case
      by (auto simp add: within_def Let_def clean_path_def split: if_splits)
  qed (auto simp add: within_def Let_def hd_map split: if_splits)
next
  assume "\<exists>ts. p = root @ ts"
  then obtain ts where "p = root @ ts"
    by blast
  then show "within p root"
    using assms path_rel_prefix [of root ts]
    by (cases ts) (auto simp add: within_def Let_def clean_path_def)
qed

lemma safeJoin_within:
  assumes "safeJoin root rel = Inr p" "clean_path root"
  shows "clean_path p \<and> (\<exists>ts. p = root @ ts)"
proof -
  have p: "p = clean_onto root (split_char CHR ''/'' rel)" "within p root"
    using assms(1) by (auto simp add: safeJoin_def Let_def split: if_splits)
  have "clean_path p"
    unfolding p(1) using assms(2) split_char_pieces by (intro clean_onto_clean) auto
  then show ?thesis
    using p(2) within_iff by blast
qed

text \<open>A copy that was accepted agreed at full strength, in flight.\<close>

lemma copy_result:
  assumes "copyToDestinationFilesystem H sc d staged expected = (d', r)" "d (sc_temp sc) = None"
  shows "(\<forall>p. p \<noteq> sc_temp sc \<longrightarrow> d' p = d p)"
    "r = Inr src \<Longrightarrow> src = sc_temp sc \<and> (\<exists>f. d staged = Some f \<and>
       Compare (DigestBytes H (fi_content f)) expected = (StrengthStrong, True) \<and>
       d' src = Some \<lparr>fi_content = sc_store sc src (fi_content f), fi_mode = mode_shared\<rparr>)"
    "r = Inl e \<Longrightarrow> d' = d"
proof -
  have tmp: "d(sc_temp sc := None) = d"
    using assms(2) by (simp add: fun_upd_idem)
  have strong: "(s = StrengthStrong) = (\<not> s < StrengthStrong)" for s :: StrengthLevel
    by (cases s) (simp_all add: strength_order)
  show "\<forall>p. p \<noteq> sc_temp sc \<longrightarrow> d' p = d p"
    using assms(1) tmp
    by (auto simp add: copyToDestinationFilesystem_def Let_def split: option.splits if_splits prod.splits)
  show "r = Inr src \<Longrightarrow> src = sc_temp sc \<and> (\<exists>f. d staged = Some f \<and>
       Compare (DigestBytes H (fi_content f)) expected = (StrengthStrong, True) \<and>
       d' src = Some \<lparr>fi_content = sc_store sc src (fi_content f), fi_mode = mode_shared\<rparr>)"
    using assms(1)
    by (auto simp add: copyToDestinationFilesystem_def Let_def strong
        split: option.splits if_splits prod.splits)
  show "r = Inl e \<Longrightarrow> d' = d"
    using assms(1) tmp
    by (auto simp add: copyToDestinationFilesystem_def Let_def split: option.splits if_splits prod.splits)
qed

text \<open>The two ways a publication gets its source: the staged file itself, or a checked copy
  of it on the library's device.\<close>

definition crosses :: "syscalls \<Rightarrow> path \<Rightarrow> path \<Rightarrow> bool" where
  "crosses sc staged final = (sc_device sc staged \<noteq> sc_device sc (butlast final))"

lemma Publish_result:
  assumes "Publish H sc root d staged rel expected = (d', r)" "safeJoin root rel = Inr final"
    "d (sc_temp sc) = None" "sc_temp sc \<noteq> staged" "sc_temp sc \<noteq> final"
  shows "(\<exists>e. r = Inl e \<and> d' = d) \<or>
    (\<exists>f g. d staged = Some f \<and> d final = None \<and> final \<noteq> staged \<and>
      g = (if crosses sc staged final
           then \<lparr>fi_content = sc_store sc (sc_temp sc) (fi_content f), fi_mode = mode_shared\<rparr> else f) \<and>
      (crosses sc staged final \<longrightarrow> Compare (DigestBytes H (fi_content f)) expected = (StrengthStrong, True)) \<and>
      (d' = d(final \<mapsto> g) \<or> r = Inr final \<and> \<not> crosses sc staged final \<and> d' = d(final \<mapsto> g, staged := None)) \<and>
      (r = Inr final \<or> sc_fail sc = FailSyncDir \<and> (\<exists>e. r = Inl e)))"
proof -
  let ?cross = "crosses sc staged final"
  show ?thesis
  proof (cases "sc_fail sc = FailMkdir \<or> d final \<noteq> None \<or> sc_isdir sc final \<or> sc_fail sc = FailLstat \<or>
      d staged = None \<or> sc_fail sc = FailStagedDev \<or> sc_fail sc = FailDestDev")
    case True
    then have "\<exists>e. r = Inl e \<and> d' = d"
      using assms(1,2) by (auto simp add: Publish_def split: if_splits)
    then show ?thesis
      by blast
  next
    case False
    then obtain f where f: "d staged = Some f" "d final = None" "\<not> sc_isdir sc final"
      by auto
    then have ne: "final \<noteq> staged"
      by auto
    obtain d1 s1 where src: "(if ?cross then copyToDestinationFilesystem H sc d staged expected else (d, Inr staged)) = (d1, s1)"
      by fastforce
    show ?thesis
    proof (cases s1)
      case (Inl e)
      then have cp: "?cross" "copyToDestinationFilesystem H sc d staged expected = (d1, Inl e)"
        using src by (auto split: if_splits)
      then have "d1 = d"
        using copy_result(3) [OF cp(2) assms(3) refl] by simp
      then have "r = Inl e \<and> d' = d"
        using assms(1,2) False cp f by (auto simp add: Publish_def crosses_def Let_def)
      then show ?thesis
        by blast
    next
      case (Inr source)
      show ?thesis
      proof (cases ?cross)
        case True
        then have cp: "copyToDestinationFilesystem H sc d staged expected = (d1, Inr source)"
          using src Inr by simp
        note c = copy_result [OF cp assms(3)]
        have s: "source = sc_temp sc" "d1 source = Some \<lparr>fi_content = sc_store sc (sc_temp sc) (fi_content f), fi_mode = mode_shared\<rparr>"
          "Compare (DigestBytes H (fi_content f)) expected = (StrengthStrong, True)"
          using c(2) [OF refl] f(1) by auto
        have gone1: "d1(source := None) = d"
          using c(1) s(1) assms(3) by (auto simp add: fun_eq_iff)
        have gone2: "d1(final := d1 source, source := None) = d(final := d1 source)"
          using gone1 assms(5) s(1) by (metis fun_upd_twist)
        have "d1 final = None"
          using c(1) f(2) assms(5) by simp
        then show ?thesis
          using assms(1,2) False True cp s f ne gone1 gone2 unfolding Publish_def
          by (auto simp add: crosses_def Let_def split: if_splits)
      next
        case noncross: False
        then have "source = staged" "d1 = d"
          using src Inr by auto
        then show ?thesis
          using assms(1,2) False noncross f ne unfolding Publish_def
          by (auto simp add: crosses_def Let_def split: if_splits)
      qed
    qed
  qed
qed

lemma Publish_unsafe:
  "safeJoin root rel = Inl e \<Longrightarrow> Publish H sc root d staged rel expected = (d, Inl e)"
  by (simp add: Publish_def)

lemma check_space_small:
  "0 < n \<Longrightarrow> n < 2 ^ 62 \<Longrightarrow> wrap64 (n * SpaceHeadroom) = 2 * n"
  by (simp add: SpaceHeadroom_def wrap64_def)

lemma wrap64_over:
  assumes "2 ^ 62 \<le> n" "n < 2 ^ 63"
  shows "wrap64 (n * 2) = 2 * n - 2 ^ 64"
proof -
  have "(n * 2 + 2 ^ 63) mod 2 ^ 64 = (n * 2 + 2 ^ 63 - 2 ^ 64) mod (2 ^ 64 :: int)"
    by (rule minus_mod_self2 [symmetric])
  also have "\<dots> = n * 2 + 2 ^ 63 - 2 ^ 64"
    using assms by (intro mod_pos_pos_trivial) simp_all
  finally show ?thesis
    by (simp add: wrap64_def)
qed

lemma cleanup_removed:
  "set (fst (cleanup_loop w now es)) \<subseteq> {en_name e |e. e \<in> set es \<and> \<not> en_isdir e \<and>
     has_suffix (en_name e) PartSuffix \<and> (\<exists>t. en_mtime e = Some t \<and> w \<le> now - t)}"
proof (induction es)
  case (Cons e es)
  obtain rm fl where rm: "cleanup_loop w now es = (rm, fl)"
    by fastforce
  then have "set (fst (cleanup_loop w now (e # es))) \<subseteq> set rm \<union> {en_name x |x. x = e \<and> \<not> en_isdir x \<and>
      has_suffix (en_name x) PartSuffix \<and> (\<exists>t. en_mtime x = Some t \<and> w \<le> now - t)}"
    by (cases "en_mtime e") (auto simp add: Let_def)
  then show ?case
    using Cons rm by fastforce
qed simp

text \<open>A small disk for the witnesses: a staged payload in \<open>/s\<close>, a library in \<open>/lib\<close>.\<close>

definition sample_hashes :: hashes where
  "sample_hashes = \<lparr>hash_crc = (\<lambda>b. replicate 4 0), hash_md5 = (\<lambda>b. replicate 16 1),
     hash_sha1 = (\<lambda>b. replicate 20 2), hash_sha256 = (\<lambda>b. replicate 32 (of_nat (length b)))\<rparr>"

definition sample_files :: disk where
  "sample_files = [[''s'', ''t.part''] \<mapsto> \<lparr>fi_content = [1, 2], fi_mode = mode_private\<rparr>]"

definition sample_calls :: "fault \<Rightarrow> syscalls" where
  "sample_calls fl = \<lparr>sc_fail = fl, sc_isdir = (\<lambda>p. p = [''lib'']),
     sc_device = (\<lambda>p. if p = [''s'', ''t.part''] then 1 else 2), sc_store = (\<lambda>p b. b),
     sc_temp = [''pub'', ''x.tmp''], sc_free = Inr 100\<rparr>"

lemma sample_join: "safeJoin [''lib''] ''k.gb'' = Inr [''lib'', ''k.gb'']"
  by (simp add: safeJoin_def trim_space_def is_space_def has_prefix_def clean_onto_def clean_step_def
      within_def Let_def)

section \<open>Properties\<close>

text \<open>C11: publication stays inside the library and never overwrites: the destination is refused
  or a clean path beneath the root, and whatever the outcome every file that existed before, other
  than the staged one, is still there with its contents; a success puts a file where none was.\<close>

theorem publish_contained_no_overwrite:
  assumes "Publish H sc root d staged rel expected = (d', r)" and "clean_path root"
    and "d (sc_temp sc) = None" and "sc_temp sc \<noteq> staged" and "safeJoin root rel \<noteq> Inr (sc_temp sc)"
    and "p \<noteq> staged" and "d p = Some f"
  shows "d' p = Some f \<and>
    (case r of Inl e \<Rightarrow> True
     | Inr final \<Rightarrow> (\<exists>ts. final = root @ ts) \<and> clean_path final \<and> d final = None \<and> d' final \<noteq> None)"
proof (cases "safeJoin root rel")
  case (Inl e)
  then have "d' = d" "r = Inl e"
    using assms(1) Publish_unsafe [OF Inl, of H sc d staged expected] by simp_all
  then show ?thesis
    using assms(7) by simp
next
  case (Inr final)
  have "sc_temp sc \<noteq> final"
    using assms(5) Inr by auto
  then show ?thesis
    using Publish_result [OF assms(1) Inr assms(3,4)] safeJoin_within [OF Inr assms(2)] assms(6,7)
    by auto
qed

theorem publish_contained_no_overwrite_witness:
  "let x = Publish sample_hashes (sample_calls NoFail) [''lib'']
       (sample_files([''lib'', ''old.gb''] \<mapsto> \<lparr>fi_content = [9], fi_mode = 0\<rparr>))
       [''s'', ''t.part''] ''k.gb'' (DigestBytes sample_hashes [1, 2])
   in fst x [''lib'', ''old.gb''] = Some \<lparr>fi_content = [9], fi_mode = 0\<rparr> \<and>
    (case snd x of Inl e \<Rightarrow> True
     | Inr final \<Rightarrow> (\<exists>ts. final = [''lib''] @ ts) \<and> clean_path final \<and>
        (sample_files([''lib'', ''old.gb''] \<mapsto> \<lparr>fi_content = [9], fi_mode = 0\<rparr>)) final = None \<and> fst x final \<noteq> None)"
  unfolding Let_def
  by (rule publish_contained_no_overwrite [OF prod.collapse [symmetric]])
    (simp_all add: clean_path_def sample_files_def sample_calls_def sample_join)

text \<open>On sound devices what is published is the verified payload: when a publication
  succeeds for a payload that \<open>Verify\<close> accepted in staging, or that had to be copied to the
  library's device, the file at its final name matches the expected identity at full strength.\<close>

theorem published_content_is_verified:
  assumes "Publish H sc root d (PathFor dir tid) rel expected = (d', Inr final)"
    and "staging_Verify H dir d tid expected = None"
    and "d (sc_temp sc) = None" and "sc_temp sc \<noteq> PathFor dir tid" and "sc_temp sc \<noteq> final"
    and "\<And>p b. sc_store sc p b = b"
  shows "\<exists>f. d' final = Some f \<and> Compare (DigestBytes H (fi_content f)) expected = (StrengthStrong, True)"
proof -
  have join: "safeJoin root rel = Inr final"
  proof (cases "safeJoin root rel")
    case (Inl e)
    then show ?thesis
      using assms(1) Publish_unsafe [OF Inl] by simp
  next
    case (Inr x)
    then show ?thesis
      using assms(1) by (auto simp add: Publish_def Let_def split: if_splits prod.splits sum.splits)
  qed
  have strong: "(s = StrengthStrong) = (\<not> s < StrengthStrong)" for s :: StrengthLevel
    by (cases s) (simp_all add: strength_order)
  obtain f where f: "d (PathFor dir tid) = Some f"
    "Compare (DigestBytes H (fi_content f)) expected = (StrengthStrong, True)"
    using assms(2) by (auto simp add: staging_Verify_def strong split: option.splits if_splits prod.splits)
  show ?thesis
    using Publish_result [OF assms(1) join assms(3,4,5)] f assms(6) by (auto split: if_splits)
qed

theorem published_content_is_verified_witness:
  "let x = Publish sample_hashes (sample_calls NoFail) [''lib''] sample_files
       (PathFor [''s''] ''t'') ''k.gb'' (DigestBytes sample_hashes [1, 2])
   in \<exists>f. fst x [''lib'', ''k.gb''] = Some f \<and>
     Compare (DigestBytes sample_hashes (fi_content f)) (DigestBytes sample_hashes [1, 2]) = (StrengthStrong, True)"
proof -
  let ?e = "DigestBytes sample_hashes [1, 2]"
  have path: "PathFor [''s''] ''t'' = [''s'', ''t.part'']"
    by (simp add: PathFor_def PartSuffix_def clean_onto_def clean_step_def)
  have strong: "Compare ?e ?e = (StrengthStrong, True)"
    by (simp add: Compare_strong digests_conflict_def fields_conflict_def fields_agree_def DigestBytes_def
        hasher_Digest_def hasher_Write_def NewHasher_def sample_hashes_def)
  then have ok: "staging_Verify sample_hashes [''s''] sample_files ''t'' ?e = None"
    by (simp add: staging_Verify_def path sample_files_def)
  have "copyToDestinationFilesystem sample_hashes (sample_calls NoFail) sample_files [''s'', ''t.part''] ?e =
      (sample_files([''pub'', ''x.tmp''] \<mapsto> \<lparr>fi_content = [1, 2], fi_mode = mode_shared\<rparr>), Inr [''pub'', ''x.tmp''])"
    using strong by (simp add: copyToDestinationFilesystem_def sample_calls_def sample_files_def Let_def)
  then have "snd (Publish sample_hashes (sample_calls NoFail) [''lib''] sample_files
       (PathFor [''s''] ''t'') ''k.gb'' ?e) = Inr [''lib'', ''k.gb'']"
    unfolding Publish_def path sample_join
    by (simp add: Let_def) (simp add: sample_calls_def sample_files_def)
  then have "Publish sample_hashes (sample_calls NoFail) [''lib''] sample_files
       (PathFor [''s''] ''t'') ''k.gb'' ?e = (fst (Publish sample_hashes (sample_calls NoFail) [''lib''] sample_files
       (PathFor [''s''] ''t'') ''k.gb'' ?e), Inr [''lib'', ''k.gb''])"
    by (metis prod.collapse)
  then show ?thesis
    unfolding Let_def
    by (rule published_content_is_verified [OF _ ok]) (simp_all add: path sample_calls_def sample_files_def)
qed

text \<open>An error from a publication does not always mean that nothing reached the library:
  when the directory cannot be opened for the final flush, the payload is already linked at its
  final name and the call reports a failure.\<close>

theorem failed_flush_leaves_file:
  assumes "safeJoin root rel = Inr final" and "d staged = Some f" and "d final = None"
    and "\<not> sc_isdir sc final" and "sc_fail sc = FailSyncDir"
    and "sc_device sc staged = sc_device sc (butlast final)"
  shows "snd (Publish H sc root d staged rel expected) = Inl (ErrPublishing ''opening to flush it'') \<and>
    fst (Publish H sc root d staged rel expected) = d(final \<mapsto> f)"
  using assms by (simp add: Publish_def Let_def)

theorem failed_flush_leaves_file_witness:
  "let sc = (sample_calls FailSyncDir)\<lparr>sc_device := (\<lambda>_. 1)\<rparr>;
       x = Publish sample_hashes sc [''lib''] sample_files [''s'', ''t.part''] ''k.gb'' (DigestBytes sample_hashes [1, 2])
   in snd x = Inl (ErrPublishing ''opening to flush it'') \<and>
      fst x = sample_files([''lib'', ''k.gb''] \<mapsto> \<lparr>fi_content = [1, 2], fi_mode = mode_private\<rparr>)"
  unfolding Let_def
  by (rule failed_flush_leaves_file [OF sample_join]) (simp_all add: sample_files_def sample_calls_def)

text \<open>The space check asks for twice the payload for every size below 2 to the 62, and lets
  every larger size through on any disk, because the doubled size wraps around.\<close>

theorem space_check_exact:
  assumes "sc_free sc = Inr free" and "0 \<le> free" and "0 < n" and "n < 2 ^ 63"
  shows "CheckSpace sc n = None \<longleftrightarrow> 2 * n \<le> free \<or> 2 ^ 62 \<le> n"
proof (cases "n < 2 ^ 62")
  case True
  then show ?thesis
    using assms check_space_small [of n] by (auto simp add: CheckSpace_def Let_def)
next
  case False
  then have "wrap64 (n * SpaceHeadroom) = 2 * n - 2 ^ 64"
    using assms(4) by (simp add: SpaceHeadroom_def wrap64_over)
  then show ?thesis
    using False assms by (simp add: CheckSpace_def Let_def)
qed

theorem space_check_exact_witness:
  "CheckSpace (sample_calls NoFail) (2 ^ 62) = None \<longleftrightarrow> 2 * 2 ^ 62 \<le> (100 :: int) \<or> 2 ^ 62 \<le> (2 ^ 62 :: int)"
  by (rule space_check_exact) (simp_all add: sample_calls_def)

text \<open>A publisher is only made for a safe configuration: the library resolves to a writable
  directory, downloads and the temporary copies land outside the watched tree, and the temporary
  copies are on the library's own device.\<close>

theorem publisher_only_when_safe:
  assumes "NewPublisher pb cfg = Inr pub"
  shows "pb_supported pb \<and>
    (\<exists>lib recv dev. pb_resolve pb (cfg_LibraryRoot cfg) = Some lib \<and> pb_isdir pb lib \<and> pb_writable pb lib \<and>
      pb_resolve pb (cfg_ReceiveStagingDir cfg) = Some recv \<and> \<not> within recv lib \<and>
      \<not> within (pr_PublishStagingDir (pu_report pub)) lib \<and>
      pb_device pb lib = Some dev \<and> pb_device pb (pr_PublishStagingDir (pu_report pub)) = Some dev)"
proof -
  have pub: "pu_report pub = Preflight pb cfg" and none: "report_Err (Preflight pb cfg) = None"
    using assms by (auto simp add: NewPublisher_def Let_def split: option.splits)
  then have ok: "report_OK (Preflight pb cfg)"
    by (auto simp add: report_Err_def report_OK_def Let_def list_all_iff filter_empty_conv split: if_splits)
  show ?thesis
    using ok unfolding pub
    by (auto simp add: Preflight_def Let_def report_OK_def check_def split: option.splits if_splits)
qed

theorem publisher_only_when_safe_witness:
  "\<exists>pub. NewPublisher \<lparr>pb_supported = True, pb_resolve = (\<lambda>s. Some [s]), pb_resolve_path = Some,
      pb_isdir = (\<lambda>_. True), pb_writable = (\<lambda>_. True), pb_mkdir = (\<lambda>_. True),
      pb_device = (\<lambda>_. Some 1), pb_abs = (\<lambda>s. [s])\<rparr>
     \<lparr>cfg_LibraryRoot = ''lib'', cfg_ReceiveStagingDir = ''in'', cfg_PublishStagingDir = ''''\<rparr> = Inr pub \<and>
    \<not> within (pr_PublishStagingDir (pu_report pub)) [''lib'']"
proof -
  let ?pb = "\<lparr>pb_supported = True, pb_resolve = (\<lambda>s. Some [s]), pb_resolve_path = Some,
      pb_isdir = (\<lambda>_. True), pb_writable = (\<lambda>_. True), pb_mkdir = (\<lambda>_. True),
      pb_device = (\<lambda>_. Some 1), pb_abs = (\<lambda>s. [s])\<rparr>"
  let ?cfg = "\<lparr>cfg_LibraryRoot = ''lib'', cfg_ReceiveStagingDir = ''in'', cfg_PublishStagingDir = ''''\<rparr>"
  obtain pub where pub: "NewPublisher ?pb ?cfg = Inr pub"
    by (simp add: NewPublisher_def Preflight_def report_Err_def check_def Let_def trim_space_def is_space_def
        within_def DefaultPublishStagingDir_def)
  show ?thesis
    using publisher_only_when_safe [OF pub] pub by (intro exI [of _ pub]) simp
qed

end
