(* ===== verification/Ingest.thy ===== *)
theory Ingest
  imports DestState Manifest Destination
begin

text \<open>
  The receiving flow, \<open>src/bridge/ingest/reconcile.go\<close>, \<open>flow.go\<close> and
  \<open>filejournal.go\<close>.  \<open>ingest.Journal\<close> is the locale \<open>journal\<close>, with the in-memory and the
  file journal as its instances; \<open>Library\<close>, \<open>Uploader\<close> and \<open>Publisher\<close> (the manifest) are
  what they answer.  The poll loop runs on fuel; its environment gives the observation, the
  clock readings and the cancellation of every attempt.
\<close>

section \<open>Expectations and observations\<close>

record Expected =
  ex_Platform :: PlatformID
  ex_FileID :: FileID
  ex_Canonical :: Digest
  ex_Reference :: "ReferenceMatch option"

datatype ingest_error =
    ErrNoPlatform
  | ErrNoCanonical
  | ErrBadFileID id_error
  | ErrNoLibrary
  | ErrUnsupportedMode DestinationMode
  | ErrTransition transition_error
  | ErrMustBegin DestinationState
  | ErrJournal string
  | ErrNoUploader
  | ErrNoPublisher
  | ErrUpload string
  | ErrPublish dest_error
  | ErrRepublish string
  | ErrCancelled

definition expected_Validate :: "Expected \<Rightarrow> ingest_error option" where
  "expected_Validate e =
     (if ex_Platform e = '''' then Some ErrNoPlatform
      else if d_SHA256 (ex_Canonical e) = '''' then Some ErrNoCanonical
      else case validate prefixFile (ex_FileID e) of Some err \<Rightarrow> Some (ErrBadFileID err) | None \<Rightarrow> None)"

record Observation =
  ob_Present :: bool
  ob_Platform :: PlatformID
  ob_Canonical :: Digest
  ob_Name :: string

text \<open>What the operator is told, with the values the message is formatted from.\<close>

datatype detail =
    DetailText string
  | DetailUnreachable string
  | DetailContent string
  | DetailPlatform PlatformID PlatformID
  | DetailMatched string
  | DetailDeadline int
  | DetailWaitCancelled
  | DetailStaging dest_error
  | DetailUploadFailed string
  | DetailPublished path
  | DetailRepublishFailed string

definition classify :: "Expected \<Rightarrow> Observation \<Rightarrow> (DestinationState \<times> detail) option" where
  "classify expected obs =
     (if d_SHA256 (ob_Canonical obs) = '''' then None
      else let (strength, ok) = Compare (ob_Canonical obs) (ex_Canonical expected) in
      if \<not> ok \<or> strength < StrengthStrong
        then Some (StateRommUnmatched, DetailContent (ob_Name obs))
      else if ob_Platform obs \<noteq> '''' \<and> ob_Platform obs \<noteq> ex_Platform expected
        then Some (StateRommUnmatched, DetailPlatform (ob_Platform obs) (ex_Platform expected))
      else Some (StateRommMatched, DetailMatched (ob_Name obs)))"

section \<open>Waiting for ingestion\<close>

record Reconciler =
  rc_has_library :: bool
  rc_Poll :: int
  rc_Timeout :: int


definition rc_timeout :: "Reconciler \<Rightarrow> int" where
  "rc_timeout r = (if rc_Timeout r > 0 then rc_Timeout r else DefaultIngestionTimeout)"

record await_result =
  ar_State :: DestinationState
  ar_Attempts :: nat
  ar_Elapsed :: int
  ar_Detail :: detail

text \<open>One attempt: the library's answer, the clock where the loop reads it (after an error,
  for the elapsed time, at the deadline check) and whether the context ends before the next poll.\<close>

record attempt =
  at_obs :: "string + Observation"
  at_clock_err :: instant
  at_clock_elapsed :: instant
  at_clock_check :: instant
  at_done :: bool

definition await_step :: "Reconciler \<Rightarrow> Expected \<Rightarrow> instant \<Rightarrow> instant \<Rightarrow> nat \<Rightarrow> attempt
    \<Rightarrow> (await_result \<times> ingest_error option) option" where
  "await_step r expected start deadline attempts a =
     (let result = (\<lambda>st d. \<lparr>ar_State = st, ar_Attempts = attempts,
            ar_Elapsed = at_clock_elapsed a - start, ar_Detail = d\<rparr>);
          settled = (case at_obs a of
              Inl e \<Rightarrow> (if at_clock_err a > deadline
                then Some (result StateIngestionTimeout (DetailUnreachable e)) else None)
            | Inr obs \<Rightarrow> (if ob_Present obs
                then map_option (\<lambda>(st, d). result st d) (classify expected obs) else None))
      in case settled of
          Some res \<Rightarrow> Some (res, None)
        | None \<Rightarrow>
          if \<not> at_clock_check a < deadline
            then Some (result StateIngestionTimeout (DetailDeadline (rc_timeout r)), None)
          else if at_done a
            then Some (result StateIngestionTimeout DetailWaitCancelled, Some ErrCancelled)
          else None)"

fun await_loop :: "nat \<Rightarrow> Reconciler \<Rightarrow> Expected \<Rightarrow> instant \<Rightarrow> instant \<Rightarrow> (nat \<Rightarrow> attempt) \<Rightarrow> nat
    \<Rightarrow> (await_result \<times> ingest_error option) option" where
  "await_loop 0 r expected start deadline env n = None"
| "await_loop (Suc fuel) r expected start deadline env n =
     (case await_step r expected start deadline (n + 1) (env n) of
        Some res \<Rightarrow> Some res
      | None \<Rightarrow> await_loop fuel r expected start deadline env (n + 1))"

text \<open>\<open>Await\<close>: the outer option is the fuel.\<close>

definition Await :: "nat \<Rightarrow> Reconciler \<Rightarrow> Expected \<Rightarrow> instant \<Rightarrow> (nat \<Rightarrow> attempt)
    \<Rightarrow> (ingest_error + (await_result \<times> ingest_error option)) option" where
  "Await fuel r expected start env =
     (case expected_Validate expected of
        Some e \<Rightarrow> Some (Inl e)
      | None \<Rightarrow>
        if \<not> rc_has_library r then Some (Inl ErrNoLibrary)
        else map_option Inr (await_loop fuel r expected start (start + rc_timeout r) env 0))"

section \<open>Journals\<close>

record JTransition =
  tr_From :: "DestinationState option"
  tr_To :: DestinationState
  tr_At :: instant
  tr_Detail :: detail

text \<open>The check both journals make before they record a transition.\<close>

definition append_check :: "JTransition list \<Rightarrow> JTransition \<Rightarrow> ingest_error option" where
  "append_check existing t =
     (if length existing > 0
      then map_option ErrTransition (Transition (tr_To (last existing)) (tr_To t))
      else if tr_To t \<noteq> StateReceiving then Some (ErrMustBegin (tr_To t))
      else None)"

type_synonym MemoryJournal = "string \<Rightarrow> JTransition list"

definition memory_Append :: "MemoryJournal \<Rightarrow> string \<Rightarrow> JTransition \<Rightarrow> ingest_error + MemoryJournal" where
  "memory_Append j tid t =
     (case append_check (j tid) t of
        Some e \<Rightarrow> Inl e
      | None \<Rightarrow> Inr (j(tid := j tid @ [t])))"

definition memory_Current :: "MemoryJournal \<Rightarrow> string \<Rightarrow> DestinationState option" where
  "memory_Current j tid = (if length (j tid) = 0 then None else Some (tr_To (last (j tid))))"

definition memory_History :: "MemoryJournal \<Rightarrow> string \<Rightarrow> JTransition list" where
  "memory_History j tid = j tid"

text \<open>The file journal: one file per transfer, its decoded transitions or unreadable, and the
  step at which a write fails.\<close>

datatype journal_file = JStored "JTransition list" | JCorrupt

datatype journal_fault = JNone | JFailTemp | JFailWrite | JFailRename | JFailOpenDir

record FileJournal =
  fj_files :: "string \<rightharpoonup> journal_file"
  fj_fault :: "string \<Rightarrow> JTransition \<Rightarrow> journal_fault"

definition readLocked :: "FileJournal \<Rightarrow> string \<Rightarrow> ingest_error + JTransition list" where
  "readLocked j tid =
     (case fj_files j tid of
        None \<Rightarrow> Inr []
      | Some JCorrupt \<Rightarrow> Inl (ErrJournal ''journal is corrupt'')
      | Some (JStored ts) \<Rightarrow> Inr ts)"

definition writeLocked :: "FileJournal \<Rightarrow> journal_fault \<Rightarrow> string \<Rightarrow> JTransition list
    \<Rightarrow> FileJournal \<times> ingest_error option" where
  "writeLocked j fl tid history =
     (if fl = JFailTemp then (j, Some (ErrJournal ''creating temporary journal file''))
      else if fl = JFailWrite then (j, Some (ErrJournal ''writing journal''))
      else if fl = JFailRename then (j, Some (ErrJournal ''publishing journal''))
      else let j' = j\<lparr>fj_files := (fj_files j)(tid \<mapsto> JStored history)\<rparr> in
      if fl = JFailOpenDir then (j', Some (ErrJournal ''opening journal directory''))
      else (j', None))"

definition file_Append :: "FileJournal \<Rightarrow> string \<Rightarrow> JTransition \<Rightarrow> FileJournal \<times> ingest_error option" where
  "file_Append j tid t =
     (case readLocked j tid of
        Inl e \<Rightarrow> (j, Some e)
      | Inr existing \<Rightarrow>
        (case append_check existing t of
           Some e \<Rightarrow> (j, Some e)
         | None \<Rightarrow> writeLocked j (fj_fault j tid t) tid (existing @ [t])))"

definition file_Current :: "FileJournal \<Rightarrow> string \<Rightarrow> DestinationState option" where
  "file_Current j tid =
     (case readLocked j tid of
        Inl e \<Rightarrow> None
      | Inr h \<Rightarrow> if length h = 0 then None else Some (tr_To (last h)))"

definition file_History :: "FileJournal \<Rightarrow> string \<Rightarrow> JTransition list" where
  "file_History j tid = (case readLocked j tid of Inl e \<Rightarrow> [] | Inr h \<Rightarrow> h)"

text \<open>\<open>Recent\<close>: the listing's journal files by modification time, newest first.\<close>

definition Recent :: "int \<Rightarrow> (string \<times> bool \<times> instant option) list \<Rightarrow> string list" where
  "Recent limit entries =
     (let items = concat (map (\<lambda>(name, isdir, mtime).
            if isdir \<or> \<not> has_suffix name ''.json'' then []
            else case mtime of None \<Rightarrow> []
              | Some t \<Rightarrow> [(take (length name - length ''.json'') name, t)]) entries);
          sorted = sort_key (\<lambda>i. - snd i) items;
          cut = (if limit > 0 \<and> int (length sorted) > limit then take (nat limit) sorted else sorted)
      in map fst cut)"

section \<open>The flow\<close>

text \<open>\<open>ingest.Journal\<close>: its three operations.\<close>

record 'j JournalOps =
  j_Append :: "'j \<Rightarrow> string \<Rightarrow> JTransition \<Rightarrow> 'j \<times> ingest_error option"
  j_Current :: "'j \<Rightarrow> string \<Rightarrow> DestinationState option"
  j_History :: "'j \<Rightarrow> string \<Rightarrow> JTransition list"

definition memory_ops :: "MemoryJournal JournalOps" where
  "memory_ops = \<lparr>j_Append = (\<lambda>j tid t. case memory_Append j tid t of Inl e \<Rightarrow> (j, Some e) | Inr j' \<Rightarrow> (j', None)),
     j_Current = memory_Current, j_History = memory_History\<rparr>"

definition file_ops :: "FileJournal JournalOps" where
  "file_ops = \<lparr>j_Append = file_Append, j_Current = file_Current, j_History = file_History\<rparr>"

text \<open>What one run of the flow meets: the payload its reader delivers, the system calls of each
  disk operation, the answers of the upload API and of the manifest publisher, the attempts of the
  reconciler, and the clock at each recorded state.\<close>

record 'j Flow =
  fw_Mode :: DestinationMode
  fw_Journal :: "'j JournalOps"
  fw_StagingDir :: path
  fw_LibRoot :: path
  fw_Hashes :: hashes
  fw_HasPublisher :: bool
  fw_Uploader :: "(Expected \<Rightarrow> string option) option"
  fw_Reconciler :: Reconciler
  fw_Manifest :: "(Expected \<Rightarrow> string option) option"
  fw_Payload :: bytes
  fw_Ending :: "string option"
  fw_ScSpace :: syscalls
  fw_ScReceive :: syscalls
  fw_ScAbandon :: syscalls
  fw_ScPublish :: syscalls
  fw_Start :: instant
  fw_Attempts :: "nat \<Rightarrow> attempt"
  fw_Fuel :: nat
  fw_Now :: "DestinationState \<Rightarrow> instant"

definition advance :: "'j Flow \<Rightarrow> 'j \<Rightarrow> string \<Rightarrow> DestinationState \<Rightarrow> detail \<Rightarrow> 'j \<times> ingest_error option" where
  "advance f j tid to d =
     (let src = j_Current (fw_Journal f) j tid;
          bad = (case src of None \<Rightarrow> None | Some s \<Rightarrow> Transition s to) in
      case bad of
        Some e \<Rightarrow> (j, Some (ErrTransition e))
      | None \<Rightarrow> j_Append (fw_Journal f) j tid
          \<lparr>tr_From = src, tr_To = to, tr_At = fw_Now f to, tr_Detail = d\<rparr>)"

text \<open>The result of a run: the journal and the disk after it, the state returned (none for Go's
  empty string) and the error.\<close>

type_synonym 'j flow_result = "('j \<times> disk) \<times> DestinationState option \<times> ingest_error option"

text \<open>From the hand-off's wait to activation.\<close>

definition flow_finish :: "'j Flow \<Rightarrow> string \<Rightarrow> Expected \<Rightarrow> 'j \<Rightarrow> disk \<Rightarrow> 'j flow_result option" where
  "flow_finish f tid expected j d =
     (case advance f j tid StateAwaitingRommIngestion (DetailText ''waiting for RomM to index the item'') of
        (j1, Some e) \<Rightarrow> Some ((j1, d), None, Some e)
      | (j1, None) \<Rightarrow>
        (case Await (fw_Fuel f) (fw_Reconciler f) expected (fw_Start f) (fw_Attempts f) of
           None \<Rightarrow> None
         | Some (Inl e) \<Rightarrow> Some ((j1, d), None, Some e)
         | Some (Inr (res, _)) \<Rightarrow>
           (case advance f j1 tid (ar_State res) (ar_Detail res) of
              (j2, Some e) \<Rightarrow> Some ((j2, d), None, Some e)
            | (j2, None) \<Rightarrow>
              if ar_State res \<noteq> StateRommMatched then Some ((j2, d), Some (ar_State res), None)
              else case (case fw_Manifest f of None \<Rightarrow> None | Some republish \<Rightarrow> republish expected) of
                Some e \<Rightarrow>
                  (case advance f j2 tid StateQuarantined (DetailRepublishFailed e) of
                     (j3, _) \<Rightarrow> Some ((j3, d), Some StateQuarantined, Some (ErrRepublish e)))
              | None \<Rightarrow>
                  (case advance f j2 tid StateSourceActive (DetailText ''the item is now an active source'') of
                     (j3, Some e) \<Rightarrow> Some ((j3, d), None, Some e)
                   | (j3, None) \<Rightarrow> Some ((j3, d), Some StateSourceActive, None)))))"

text \<open>Exactly one destination-mode flow.\<close>

definition flow_handoff :: "'j Flow \<Rightarrow> string \<Rightarrow> Expected \<Rightarrow> string \<Rightarrow> 'j \<Rightarrow> disk \<Rightarrow> 'j flow_result option" where
  "flow_handoff f tid expected rel j d =
     (case HandOffState (fw_Mode f) of
        Inl m \<Rightarrow> Some ((j, d), None, Some (ErrUnsupportedMode m))
      | Inr handOff \<Rightarrow>
        if fw_Mode f = ModeAPIOnly then
          (case fw_Uploader f of
             None \<Rightarrow> Some ((j, d), None, Some ErrNoUploader)
           | Some upload \<Rightarrow>
             (case advance f j tid handOff (DetailText ''handing the verified payload to RomM's upload API'') of
                (j1, Some e) \<Rightarrow> Some ((j1, d), None, Some e)
              | (j1, None) \<Rightarrow>
                (case upload expected of
                   Some e \<Rightarrow>
                     (case advance f j1 tid StateVerificationConflict (DetailUploadFailed e) of
                        (j2, _) \<Rightarrow> Some ((j2, d), Some StateVerificationConflict, Some (ErrUpload e)))
                 | None \<Rightarrow> flow_finish f tid expected j1 d)))
        else if \<not> fw_HasPublisher f then Some ((j, d), None, Some ErrNoPublisher)
        else (case Publish (fw_Hashes f) (fw_ScPublish f) (fw_LibRoot f) d (PathFor (fw_StagingDir f) tid) rel
                (ex_Canonical expected) of
             (d1, Inl e) \<Rightarrow>
               (case advance f j tid StateCancelled (DetailStaging e) of
                  (j1, _) \<Rightarrow> Some ((j1, d1), Some StateCancelled, Some (ErrPublish e)))
           | (d1, Inr published) \<Rightarrow>
               (case advance f j tid handOff (DetailPublished published) of
                  (j1, Some e) \<Rightarrow> Some ((j1, d1), None, Some e)
                | (j1, None) \<Rightarrow> flow_finish f tid expected j1 d1)))"

definition flow_Receive :: "'j Flow \<Rightarrow> string \<Rightarrow> Expected \<Rightarrow> string \<Rightarrow> 'j \<Rightarrow> disk \<Rightarrow> 'j flow_result option" where
  "flow_Receive f tid expected rel j d =
     (if \<not> dmode_valid (fw_Mode f) then Some ((j, d), None, Some (ErrUnsupportedMode (fw_Mode f)))
      else case expected_Validate expected of
        Some e \<Rightarrow> Some ((j, d), None, Some e)
      | None \<Rightarrow>
        (case advance f j tid StateReceiving (DetailText ''receiving into staging'') of
           (j1, Some e) \<Rightarrow> Some ((j1, d), None, Some e)
         | (j1, None) \<Rightarrow>
           (case (if d_Size (ex_Canonical expected) > 0
                then CheckSpace (fw_ScSpace f) (d_Size (ex_Canonical expected)) else None) of
              Some e \<Rightarrow>
                (case advance f j1 tid StateCancelled (DetailStaging e) of
                   (j2, _) \<Rightarrow> Some ((j2, d), Some StateCancelled, None))
            | None \<Rightarrow>
              (case staging_Receive (fw_ScReceive f) (fw_StagingDir f) d tid (fw_Payload f) (fw_Ending f) of
                 (d1, Some e) \<Rightarrow>
                   (case advance f j1 tid StateCancelled (DetailStaging e) of
                      (j2, _) \<Rightarrow> Some ((j2, d1), Some StateCancelled, None))
               | (d1, None) \<Rightarrow>
                 (case staging_Verify (fw_Hashes f) (fw_StagingDir f) d1 tid (ex_Canonical expected) of
                    Some e \<Rightarrow>
                      (case Abandon (fw_ScAbandon f) (fw_StagingDir f) d1 tid of
                         (d2, _) \<Rightarrow>
                           (case advance f j1 tid StateVerificationConflict (DetailStaging e) of
                              (j2, _) \<Rightarrow> Some ((j2, d2), Some StateVerificationConflict, None)))
                  | None \<Rightarrow>
                    (case advance f j1 tid StateVerifiedInStaging
                        (DetailText ''the payload matched its expected identity while staged'') of
                       (j2, Some e) \<Rightarrow> Some ((j2, d1), None, Some e)
                     | (j2, None) \<Rightarrow> flow_handoff f tid expected rel j2 d1))))))"

definition journal_Path :: "'j JournalOps \<Rightarrow> 'j \<Rightarrow> string \<Rightarrow> DestinationState list" where
  "journal_Path J j tid = map tr_To (j_History J j tid)"

section \<open>The wait\<close>

text \<open>Full evidence: the recomputed identity agrees at full strength and the platform is the
  expected one or unreported.\<close>

definition full_evidence :: "Expected \<Rightarrow> Observation \<Rightarrow> bool" where
  "full_evidence expected obs =
     (ob_Present obs \<and> Compare (ob_Canonical obs) (ex_Canonical expected) = (StrengthStrong, True) \<and>
      (ob_Platform obs = '''' \<or> ob_Platform obs = ex_Platform expected))"

lemma not_less_strong: "\<not> s < StrengthStrong \<longleftrightarrow> s = StrengthStrong"
  by (cases s) (simp_all add: strength_order)

lemma classify_matched:
  "ob_Present obs \<Longrightarrow> classify ex obs = Some (StateRommMatched, d) \<Longrightarrow> full_evidence ex obs"
  by (auto simp add: classify_def full_evidence_def not_less_strong Let_def split: if_splits prod.splits)

lemma classify_states:
  "classify ex obs = Some (s, d) \<Longrightarrow> s = StateRommMatched \<or> s = StateRommUnmatched"
  by (auto simp add: classify_def Let_def split: if_splits prod.splits)

lemma await_step_state:
  "await_step r ex st dl n a = Some (res, e) \<Longrightarrow>
    ar_State res \<in> {StateRommMatched, StateRommUnmatched, StateIngestionTimeout} \<and>
    (ar_State res = StateRommMatched \<longrightarrow> (\<exists>obs. at_obs a = Inr obs \<and> full_evidence ex obs))"
  by (auto simp add: await_step_def Let_def dest: classify_matched classify_states
      split: option.splits sum.splits if_splits)

lemma await_loop_state:
  "await_loop fuel r ex st dl env n = Some (res, e) \<Longrightarrow>
    ar_State res \<in> {StateRommMatched, StateRommUnmatched, StateIngestionTimeout} \<and>
    (ar_State res = StateRommMatched \<longrightarrow> (\<exists>k obs. at_obs (env k) = Inr obs \<and> full_evidence ex obs))"
proof (induction fuel arbitrary: n)
  case (Suc fuel)
  then show ?case
  proof (cases "await_step r ex st dl (n + 1) (env n)")
    case None
    then show ?thesis
      using Suc by simp
  next
    case (Some x)
    then have "await_step r ex st dl (n + 1) (env n) = Some (res, e)"
      using Suc.prems by simp
    then show ?thesis
      using await_step_state by blast
  qed
qed simp



lemma Await_state:
  "Await fuel r ex st env = Some (Inr (res, e)) \<Longrightarrow>
    ar_State res \<in> {StateRommMatched, StateRommUnmatched, StateIngestionTimeout} \<and>
    (ar_State res = StateRommMatched \<longrightarrow> (\<exists>k obs. at_obs (env k) = Inr obs \<and> full_evidence ex obs))"
  using await_loop_state by (auto simp add: Await_def split: option.splits if_splits)

section \<open>The steps of a run\<close>

text \<open>Which steps a run that activated must have taken.\<close>

lemma flow_finish_steps:
  assumes "flow_finish f tid ex j d = Some ((j', d'), Some StateSourceActive, None)"
  shows "\<exists>t1 j1 j2 res e t2 t3. advance f j tid StateAwaitingRommIngestion t1 = (j1, None) \<and>
    Await (fw_Fuel f) (fw_Reconciler f) ex (fw_Start f) (fw_Attempts f) = Some (Inr (res, e)) \<and>
    ar_State res = StateRommMatched \<and> advance f j1 tid StateRommMatched t2 = (j2, None) \<and>
    (\<forall>r. fw_Manifest f = Some r \<longrightarrow> r ex = None) \<and>
    advance f j2 tid StateSourceActive t3 = (j', None) \<and> d' = d"
proof -
  obtain j1 res e where a: "advance f j tid StateAwaitingRommIngestion (DetailText ''waiting for RomM to index the item'') = (j1, None)"
    "Await (fw_Fuel f) (fw_Reconciler f) ex (fw_Start f) (fw_Attempts f) = Some (Inr (res, e))"
    using assms by (auto simp add: flow_finish_def split: prod.splits option.splits sum.splits)
  have m: "ar_State res = StateRommMatched"
    using assms a Await_state [OF a(2)] by (auto simp add: flow_finish_def split: prod.splits option.splits if_splits)
  show ?thesis
    using assms a m
    by (auto simp add: flow_finish_def split: prod.splits option.splits if_splits)
qed


lemma flow_handoff_steps:
  assumes "flow_handoff f tid ex rel j d = Some ((j', d'), Some StateSourceActive, None)"
  shows "\<exists>h t j1 d1. HandOffState (fw_Mode f) = Inr h \<and> advance f j tid h t = (j1, None) \<and>
    flow_finish f tid ex j1 d1 = Some ((j', d'), Some StateSourceActive, None) \<and>
    (if fw_Mode f = ModeAPIOnly then d1 = d \<and> (\<exists>u. fw_Uploader f = Some u \<and> u ex = None)
     else \<exists>p. Publish (fw_Hashes f) (fw_ScPublish f) (fw_LibRoot f) d (PathFor (fw_StagingDir f) tid) rel
         (ex_Canonical ex) = (d1, Inr p))"
  using assms
  by (auto simp add: flow_handoff_def split: prod.splits option.splits sum.splits if_splits)

lemma flow_Receive_steps:
  assumes "flow_Receive f tid ex rel j d = Some ((j', d'), Some StateSourceActive, None)"
  shows "\<exists>t1 t2 j1 j2 d1. expected_Validate ex = None \<and> advance f j tid StateReceiving t1 = (j1, None) \<and>
    staging_Receive (fw_ScReceive f) (fw_StagingDir f) d tid (fw_Payload f) (fw_Ending f) = (d1, None) \<and>
    staging_Verify (fw_Hashes f) (fw_StagingDir f) d1 tid (ex_Canonical ex) = None \<and>
    advance f j1 tid StateVerifiedInStaging t2 = (j2, None) \<and>
    flow_handoff f tid ex rel j2 d1 = Some ((j', d'), Some StateSourceActive, None)"
  using assms
  by (auto simp add: flow_Receive_def split: prod.splits option.splits if_splits)

section \<open>Changes to the disk\<close>









section \<open>The contract of a journal\<close>

definition journal_legal :: "JTransition list \<Rightarrow> bool" where
  "journal_legal h = (h = [] \<or> tr_To (hd h) = StateReceiving \<and> dest_path (map tr_To h))"

lemma append_check_legal:
  assumes "journal_legal h" "append_check h t = None"
  shows "journal_legal (h @ [t])"
proof (cases "h = []")
  case True
  then show ?thesis
    using assms(2) by (simp add: append_check_def journal_legal_def dest_path_def split: if_splits)
next
  case False
  then have "Transition (last (map tr_To h)) (tr_To t) = None"
    using assms(2) by (auto simp add: append_check_def last_map)
  then show ?thesis
    using assms(1) False by (auto simp add: journal_legal_def dest_path_def chain_snoc)
qed

text \<open>A run only appends to its own transfer's history.\<close>

definition grows :: "'j JournalOps \<Rightarrow> ('j \<Rightarrow> bool) \<Rightarrow> string \<Rightarrow> 'j \<Rightarrow> 'j \<Rightarrow> bool" where
  "grows J I tid j j' = (I j' \<and> (\<forall>o'. o' \<noteq> tid \<longrightarrow> j_History J j' o' = j_History J j o') \<and>
     (\<exists>xs. journal_Path J j' tid = journal_Path J j tid @ xs))"

lemma grows_refl: "I j \<Longrightarrow> grows J I tid j j"
  by (simp add: grows_def)

locale journal =
  fixes J :: "'j JournalOps" and inv :: "'j \<Rightarrow> bool"
  assumes history_legal: "inv j \<Longrightarrow> journal_legal (j_History J j tid)"
    and current_last: "inv j \<Longrightarrow> j_Current J j tid = last_opt (map tr_To (j_History J j tid))"
    and append_ok: "inv j \<Longrightarrow> j_Append J j tid t = (j', None) \<Longrightarrow>
      inv j' \<and> j_History J j' tid = j_History J j tid @ [t] \<and>
      (\<forall>o'. o' \<noteq> tid \<longrightarrow> j_History J j' o' = j_History J j o')"
    and append_err: "inv j \<Longrightarrow> j_Append J j tid t = (j', Some e) \<Longrightarrow>
      inv j' \<and> (j_History J j' tid = j_History J j tid \<or> j_History J j' tid = j_History J j tid @ [t]) \<and>
      (\<forall>o'. o' \<noteq> tid \<longrightarrow> j_History J j' o' = j_History J j o')"
begin

lemma append_inv:
  assumes "inv j"
  shows "inv (fst (j_Append J j tid t))"
proof -
  obtain j' e where r: "j_Append J j tid t = (j', e)"
    by fastforce
  then show ?thesis
    using append_ok [OF assms] append_err [OF assms] by (cases e) (metis fst_conv)+
qed

lemma advance_inv: "inv j \<Longrightarrow> fw_Journal f = J \<Longrightarrow> inv (fst (advance f j tid to d))"
  by (auto simp add: advance_def Let_def append_inv split: option.splits)

lemma advance_ok:
  assumes "inv j" "fw_Journal f = J" "advance f j tid to d = (j', None)"
  shows "inv j' \<and> journal_Path J j' tid = journal_Path J j tid @ [to] \<and>
    (\<forall>o'. o' \<noteq> tid \<longrightarrow> j_History J j' o' = j_History J j o')"
  using assms append_ok [OF assms(1)]
  by (auto simp add: advance_def Let_def journal_Path_def split: option.splits)

lemma path_legal: "inv j \<Longrightarrow> journal_Path J j tid \<noteq> [] \<Longrightarrow>
    dest_path (journal_Path J j tid) \<and> hd (journal_Path J j tid) = StateReceiving"
  using history_legal [of j tid] by (auto simp add: journal_Path_def journal_legal_def hd_map)

lemma advance_err:
  assumes "inv j" "fw_Journal f = J" "advance f j tid to d = (j', e)"
  shows "inv j' \<and> (\<forall>o'. o' \<noteq> tid \<longrightarrow> j_History J j' o' = j_History J j o') \<and>
    (journal_Path J j' tid = journal_Path J j tid \<or> journal_Path J j' tid = journal_Path J j tid @ [to])"
proof (cases e)
  case None
  then show ?thesis
    using advance_ok [OF assms(1,2)] assms(3) by blast
next
  case (Some x)
  then consider "j' = j" | t where "j_Append J j tid t = (j', Some x)" "tr_To t = to"
    using assms(2,3) by (auto simp add: advance_def Let_def split: option.splits)
  then show ?thesis
  proof cases
    case 1
    then show ?thesis
      using assms(1) by simp
  next
    case (2 t)
    then show ?thesis
      using append_err [OF assms(1) 2(1)] by (auto simp add: journal_Path_def)
  qed
qed

lemma grows_advance:
  assumes "advance f j tid to d = (j', e)" "grows J inv tid j0 j" "fw_Journal f = J"
  shows "grows J inv tid j0 j'"
  using advance_err [OF _ assms(3,1)] assms(2) by (auto simp add: grows_def)

lemma finish_grows:
  assumes "flow_finish f tid ex j d = Some ((j', d'), st, e)" "grows J inv tid j0 j" "fw_Journal f = J"
  shows "grows J inv tid j0 j'"
  using assms(1) grows_advance [OF _ _ assms(3), of _ tid _ _ _ _ j0] assms(2)
  by (auto simp add: flow_finish_def split: prod.splits option.splits sum.splits if_splits)

lemma handoff_grows:
  assumes "flow_handoff f tid ex rel j d = Some ((j', d'), st, e)" "grows J inv tid j0 j" "fw_Journal f = J"
  shows "grows J inv tid j0 j'"
proof -
  note g = grows_advance [OF _ _ assms(3), of _ tid _ _ _ _ j0]
  show ?thesis
  proof (cases "fw_Mode f")
    case ModeAPIOnly
    then show ?thesis
      using assms(1,2) g finish_grows [OF _ _ assms(3)]
      by (auto simp add: flow_handoff_def split: prod.splits option.splits)
  next
    case ModeFilesystemPublication
    then show ?thesis
      using assms(1,2) g finish_grows [OF _ _ assms(3)]
      by (auto simp add: flow_handoff_def split: prod.splits option.splits sum.splits if_splits)
  next
    case (ModeOther m)
    then show ?thesis
      using assms(1,2) by (auto simp add: flow_handoff_def)
  qed
qed

lemma Receive_grows:
  assumes "flow_Receive f tid ex rel j d = Some ((j', d'), st, e)" "inv j" "fw_Journal f = J"
  shows "grows J inv tid j j'"
proof -
  have "grows J inv tid j j"
    using assms(2) by (rule grows_refl)
  then show ?thesis
    using assms(1) grows_advance [OF _ _ assms(3), of _ tid _ _ _ _ j] handoff_grows [OF _ _ assms(3), of tid _ _ _ _ _ _ _ _ j]
    by (auto simp add: flow_Receive_def split: prod.splits option.splits if_splits)
qed

text \<open>A transfer that enters \<open>receiving\<close> has no history yet.\<close>

lemma receiving_fresh:
  assumes "inv j" "fw_Journal f = J" "advance f j tid StateReceiving t = (j', None)"
  shows "journal_Path J j tid = []"
proof -
  have no: "Transition s StateReceiving = None \<longleftrightarrow> False" for s
    by (cases s) (simp_all add: Transition_def CanTransition_def Known_def)
  have "j_Current J j tid = None"
    using assms(2,3) by (auto simp add: advance_def Let_def no split: option.splits)
  then show ?thesis
    using current_last [OF assms(1)] by (auto simp add: journal_Path_def last_opt_def split: if_splits)
qed

lemma activated_path:
  assumes "flow_Receive f tid ex rel j d = Some ((j', d'), Some StateSourceActive, None)"
    "inv j" "fw_Journal f = J"
  shows "journal_Path J j tid = [] \<and> (\<exists>h. HandOffState (fw_Mode f) = Inr h \<and>
    journal_Path J j' tid = [StateReceiving, StateVerifiedInStaging, h, StateAwaitingRommIngestion,
      StateRommMatched, StateSourceActive])"
proof -
  obtain t1 t2 j1 j2 d1 where r: "advance f j tid StateReceiving t1 = (j1, None)"
    "advance f j1 tid StateVerifiedInStaging t2 = (j2, None)"
    "flow_handoff f tid ex rel j2 d1 = Some ((j', d'), Some StateSourceActive, None)"
    using flow_Receive_steps [OF assms(1)] by blast
  obtain h t3 j3 d3 where hh: "HandOffState (fw_Mode f) = Inr h" "advance f j2 tid h t3 = (j3, None)"
    "flow_finish f tid ex j3 d3 = Some ((j', d'), Some StateSourceActive, None)"
    using flow_handoff_steps [OF r(3)] by blast
  obtain t4 j4 t5 j5 t6 where fin: "advance f j3 tid StateAwaitingRommIngestion t4 = (j4, None)"
    "advance f j4 tid StateRommMatched t5 = (j5, None)" "advance f j5 tid StateSourceActive t6 = (j', None)"
    using flow_finish_steps [OF hh(3)] by blast
  note a1 = advance_ok [OF assms(2,3) r(1)]
  note a2 = advance_ok [OF conjunct1 [OF a1] assms(3) r(2)]
  note a3 = advance_ok [OF conjunct1 [OF a2] assms(3) hh(2)]
  note a4 = advance_ok [OF conjunct1 [OF a3] assms(3) fin(1)]
  note a5 = advance_ok [OF conjunct1 [OF a4] assms(3) fin(2)]
  note a6 = advance_ok [OF conjunct1 [OF a5] assms(3) fin(3)]
  have "journal_Path J j tid = []"
    using receiving_fresh [OF assms(2,3) r(1)] .
  then show ?thesis
    using a1 a2 a3 a4 a5 a6 hh(1) by simp
qed

end

text \<open>A journal that records every legal transition.\<close>

lemma legal_moves [dest_facts]:
  "Transition StateReceiving StateCancelled = None"
  "Transition StateReceiving StateVerificationConflict = None"
  "Transition StateVerifiedInStaging StateCancelled = None"
  "Transition StateUploadingToRomm StateVerificationConflict = None"
  "Transition StateRommMatched StateQuarantined = None"
  by (simp_all add: Transition_def Known_def CanTransition_def quarantinableFrom_def)

locale reliable_journal = journal +
  assumes append_total: "inv j \<Longrightarrow> append_check (j_History J j tid) t = None \<Longrightarrow>
      snd (j_Append J j tid t) = None"
begin

lemma advance_forced:
  assumes "inv j" "fw_Journal f = J" "last_opt (journal_Path J j tid) = Some s"
    "Transition s to = None" "advance f j tid to d = (j', e)"
  shows "e = None"
proof -
  let ?h = "j_History J j tid"
  have cur: "j_Current J j tid = Some s"
    using current_last [OF assms(1)] assms(3) by (simp add: journal_Path_def)
  have ne: "?h \<noteq> []" and lst: "tr_To (last ?h) = s"
    using assms(3) by (auto simp add: journal_Path_def last_opt_def last_map split: if_splits)
  have "append_check ?h \<lparr>tr_From = Some s, tr_To = to, tr_At = fw_Now f to, tr_Detail = d\<rparr> = None"
    using ne lst assms(4) by (simp add: append_check_def)
  from append_total [OF assms(1) this] show ?thesis
    using assms(2,4,5) cur by (auto simp add: advance_def Let_def)
qed

definition stands :: "string \<Rightarrow> 'a \<Rightarrow> DestinationState \<Rightarrow> bool" where
  "stands tid j s = (inv j \<and> last_opt (journal_Path J j tid) = Some s)"

lemma stands_ok:
  "advance f j tid to d = (j', None) \<Longrightarrow> inv j \<Longrightarrow> fw_Journal f = J \<Longrightarrow> stands tid j' to"
  using advance_ok by (auto simp add: stands_def)

lemma stands_inv: "stands tid j s \<Longrightarrow> inv j"
  by (simp add: stands_def)

lemma inv_ok: "advance f j tid to d = (j', None) \<Longrightarrow> inv j \<Longrightarrow> fw_Journal f = J \<Longrightarrow> inv j'"
  using stands_ok stands_inv by blast

lemma stands_forced:
  "advance f j tid to d = (j', e) \<Longrightarrow> stands tid j s \<Longrightarrow> Transition s to = None \<Longrightarrow>
    fw_Journal f = J \<Longrightarrow> stands tid j' to"
  using advance_forced stands_ok unfolding stands_def by blast

lemma finish_stands:
  assumes "flow_finish f tid ex j d = Some ((j', d'), Some st, e)" "inv j" "fw_Journal f = J"
  shows "stands tid j' st"
  using assms(1,2)
  by (auto simp add: flow_finish_def
      dest: stands_ok [OF _ _ assms(3)] inv_ok [OF _ _ assms(3)] stands_forced [OF _ _ legal_moves(5) assms(3)]
      split: prod.splits option.splits sum.splits if_splits)

lemma handoff_stands:
  assumes "flow_handoff f tid ex rel j d = Some ((j', d'), Some st, e)" "stands tid j StateVerifiedInStaging"
    "fw_Journal f = J"
  shows "stands tid j' st"
proof -
  have "inv j"
    using assms(2) by (rule stands_inv)
  note rules = finish_stands [OF _ _ assms(3)] stands_ok [OF _ _ assms(3)] inv_ok [OF _ _ assms(3)]
  show ?thesis
  proof (cases "fw_Mode f")
    case ModeAPIOnly
    then show ?thesis
      using assms(1) \<open>inv j\<close>
      by (auto simp add: flow_handoff_def dest: rules stands_forced [OF _ _ legal_moves(4) assms(3)]
          split: prod.splits option.splits)
  next
    case ModeFilesystemPublication
    then show ?thesis
      using assms(1,2) \<open>inv j\<close>
      by (auto simp add: flow_handoff_def dest: rules stands_forced [OF _ _ legal_moves(3) assms(3)]
          split: prod.splits option.splits sum.splits if_splits)
  next
    case (ModeOther m)
    then show ?thesis
      using assms(1) by (auto simp add: flow_handoff_def)
  qed
qed

lemma Receive_stands:
  assumes "flow_Receive f tid ex rel j d = Some ((j', d'), Some st, e)" "inv j" "fw_Journal f = J"
  shows "last_opt (journal_Path J j' tid) = Some st"
proof -
  have "stands tid j' st"
    using assms(1,2)
    by (auto simp add: flow_Receive_def
        dest: stands_ok [OF _ _ assms(3)] inv_ok [OF _ _ assms(3)] handoff_stands [OF _ _ assms(3)]
          stands_forced [OF _ _ legal_moves(1) assms(3)] stands_forced [OF _ _ legal_moves(2) assms(3)]
        split: prod.splits option.splits if_splits)
  then show ?thesis
    by (simp add: stands_def)
qed

end

section \<open>The two journals\<close>

text \<open>The journals' invariants: every history is a legal path from \<open>receiving\<close>.\<close>

definition memory_legal :: "MemoryJournal \<Rightarrow> bool" where
  "memory_legal j = (\<forall>tid. journal_legal (j tid))"

definition stored_legal :: "journal_file \<Rightarrow> bool" where
  "stored_legal f = (case f of JStored h \<Rightarrow> journal_legal h | JCorrupt \<Rightarrow> True)"

definition files_legal :: "FileJournal \<Rightarrow> bool" where
  "files_legal j = (\<forall>tid f. fj_files j tid = Some f \<longrightarrow> stored_legal f)"

text \<open>No unreadable file and no failing write.\<close>

definition files_sound :: "FileJournal \<Rightarrow> bool" where
  "files_sound j = (files_legal j \<and> (\<forall>tid. fj_files j tid \<noteq> Some JCorrupt) \<and> (\<forall>tid t. fj_fault j tid t = JNone))"

lemma memory_append_iff:
  "memory_Append j tid t = Inr j' \<longleftrightarrow> append_check (j tid) t = None \<and> j' = j(tid := j tid @ [t])"
  by (auto simp add: memory_Append_def split: option.splits)

interpretation memj: reliable_journal memory_ops memory_legal
proof unfold_locales
  fix j :: MemoryJournal and tid t j'
  assume inv: "memory_legal j"
  show "journal_legal (j_History memory_ops j tid)"
    using inv by (simp add: memory_ops_def memory_History_def memory_legal_def)
  show "j_Current memory_ops j tid = last_opt (map tr_To (j_History memory_ops j tid))"
    by (simp add: memory_ops_def memory_History_def memory_Current_def last_opt_def last_map)
  show "j_Append memory_ops j tid t = (j', None) \<Longrightarrow>
      memory_legal j' \<and> j_History memory_ops j' tid = j_History memory_ops j tid @ [t] \<and>
      (\<forall>o'. o' \<noteq> tid \<longrightarrow> j_History memory_ops j' o' = j_History memory_ops j o')"
    using inv append_check_legal
    by (auto simp add: memory_ops_def memory_History_def memory_append_iff memory_legal_def split: sum.splits)
  show "j_Append memory_ops j tid t = (j', Some e) \<Longrightarrow>
      memory_legal j' \<and> (j_History memory_ops j' tid = j_History memory_ops j tid \<or>
        j_History memory_ops j' tid = j_History memory_ops j tid @ [t]) \<and>
      (\<forall>o'. o' \<noteq> tid \<longrightarrow> j_History memory_ops j' o' = j_History memory_ops j o')" for e
    using inv by (auto simp add: memory_ops_def split: sum.splits)
  show "append_check (j_History memory_ops j tid) t = None \<Longrightarrow> snd (j_Append memory_ops j tid t) = None"
    by (simp add: memory_ops_def memory_History_def memory_Append_def)
qed

lemma file_history_stored:
  "file_History j tid = (case fj_files j tid of Some (JStored h) \<Rightarrow> h | _ \<Rightarrow> [])"
  by (simp add: file_History_def readLocked_def split: option.splits journal_file.splits)

lemma file_current_last: "file_Current j tid = last_opt (map tr_To (file_History j tid))"
  by (simp add: file_Current_def file_History_def last_opt_def last_map split: sum.splits)

text \<open>What an append to the file journal does: nothing, or one more transition, possibly with an
  error after the file was already replaced.\<close>

lemma file_append_cases:
  assumes "file_Append j tid t = (j', e)"
  shows "(j' = j \<and> e \<noteq> None) \<or>
    (fj_files j tid \<noteq> Some JCorrupt \<and> append_check (file_History j tid) t = None \<and>
     j' = j\<lparr>fj_files := (fj_files j)(tid \<mapsto> JStored (file_History j tid @ [t]))\<rparr>)"
  using assms
  by (auto simp add: file_Append_def writeLocked_def file_History_def readLocked_def Let_def
      split: sum.splits option.splits journal_file.splits if_splits)

lemma file_append_legal:
  assumes "files_legal j" "append_check (file_History j tid) t = None"
  shows "files_legal (j\<lparr>fj_files := (fj_files j)(tid \<mapsto> JStored (file_History j tid @ [t]))\<rparr>)"
proof -
  have "journal_legal (file_History j tid)"
    using assms(1) by (auto simp add: files_legal_def stored_legal_def file_history_stored journal_legal_def
        split: option.splits journal_file.splits)
  then have "journal_legal (file_History j tid @ [t])"
    using append_check_legal assms(2) by blast
  then show ?thesis
    using assms(1) by (auto simp add: files_legal_def stored_legal_def)
qed

lemma file_history_update:
  "file_History (j\<lparr>fj_files := (fj_files j)(tid \<mapsto> JStored h)\<rparr>) o' = (if o' = tid then h else file_History j o')"
  by (simp add: file_history_stored)

interpretation filej: journal file_ops files_legal
proof unfold_locales
  fix j :: FileJournal and tid t j'
  assume inv: "files_legal j"
  show "journal_legal (j_History file_ops j tid)"
    using inv by (auto simp add: file_ops_def files_legal_def stored_legal_def file_history_stored journal_legal_def
        split: option.splits journal_file.splits)
  show "j_Current file_ops j tid = last_opt (map tr_To (j_History file_ops j tid))"
    by (simp add: file_ops_def file_current_last)
  show "j_Append file_ops j tid t = (j', None) \<Longrightarrow>
      files_legal j' \<and> j_History file_ops j' tid = j_History file_ops j tid @ [t] \<and>
      (\<forall>o'. o' \<noteq> tid \<longrightarrow> j_History file_ops j' o' = j_History file_ops j o')"
    using inv file_append_cases [of j tid t j' None] file_append_legal [of j tid t]
    by (auto simp add: file_ops_def file_history_update)
  show "j_Append file_ops j tid t = (j', Some e) \<Longrightarrow>
      files_legal j' \<and> (j_History file_ops j' tid = j_History file_ops j tid \<or>
        j_History file_ops j' tid = j_History file_ops j tid @ [t]) \<and>
      (\<forall>o'. o' \<noteq> tid \<longrightarrow> j_History file_ops j' o' = j_History file_ops j o')" for e
    using inv file_append_cases [of j tid t j' "Some e"] file_append_legal [of j tid t]
    by (auto simp add: file_ops_def file_history_update)
qed

lemma file_append_sound:
  assumes "files_sound j" "append_check (file_History j tid) t = None"
  shows "file_Append j tid t = (j\<lparr>fj_files := (fj_files j)(tid \<mapsto> JStored (file_History j tid @ [t]))\<rparr>, None)"
  using assms
  by (auto simp add: file_Append_def writeLocked_def file_History_def readLocked_def files_sound_def Let_def
      split: option.splits journal_file.splits)

interpretation soundj: reliable_journal file_ops files_sound
proof unfold_locales
  fix j :: FileJournal and tid t j'
  assume inv: "files_sound j"
  then have legal: "files_legal j"
    by (simp add: files_sound_def)
  show "journal_legal (j_History file_ops j tid)"
    using filej.history_legal [OF legal] .
  show "j_Current file_ops j tid = last_opt (map tr_To (j_History file_ops j tid))"
    using filej.current_last [OF legal] .
  show "j_Append file_ops j tid t = (j', None) \<Longrightarrow>
      files_sound j' \<and> j_History file_ops j' tid = j_History file_ops j tid @ [t] \<and>
      (\<forall>o'. o' \<noteq> tid \<longrightarrow> j_History file_ops j' o' = j_History file_ops j o')"
    using inv filej.append_ok [OF legal, of tid t j'] file_append_cases [of j tid t j' None]
    by (auto simp add: files_sound_def file_ops_def)
  show "j_Append file_ops j tid t = (j', Some e) \<Longrightarrow>
      files_sound j' \<and> (j_History file_ops j' tid = j_History file_ops j tid \<or>
        j_History file_ops j' tid = j_History file_ops j tid @ [t]) \<and>
      (\<forall>o'. o' \<noteq> tid \<longrightarrow> j_History file_ops j' o' = j_History file_ops j o')" for e
    using inv filej.append_err [OF legal, of tid t j' e] file_append_cases [of j tid t j' "Some e"]
    by (auto simp add: files_sound_def file_ops_def split: if_splits)
  show "append_check (j_History file_ops j tid) t = None \<Longrightarrow> snd (j_Append file_ops j tid t) = None"
    using file_append_sound [OF inv, of tid t] by (simp add: file_ops_def)
qed

section \<open>A sample run\<close>

text \<open>A flow whose payload verifies, whose publication and wait succeed on the first poll.\<close>

definition sample_digest :: Digest where
  "sample_digest = DigestBytes sample_hashes [1, 2]"

definition sample_expected :: Expected where
  "sample_expected = \<lparr>ex_Platform = ''gb'', ex_FileID = ''fil_'' @ replicate 26 (CHR ''a''),
     ex_Canonical = sample_digest, ex_Reference = None\<rparr>"

definition sample_flow :: "'j JournalOps \<Rightarrow> 'j Flow" where
  "sample_flow J = \<lparr>fw_Mode = ModeFilesystemPublication, fw_Journal = J, fw_StagingDir = [''s''],
     fw_LibRoot = [''lib''], fw_Hashes = sample_hashes, fw_HasPublisher = True, fw_Uploader = None,
     fw_Reconciler = \<lparr>rc_has_library = True, rc_Poll = 0, rc_Timeout = 0\<rparr>, fw_Manifest = None,
     fw_Payload = [1, 2], fw_Ending = None, fw_ScSpace = sample_calls NoFail,
     fw_ScReceive = sample_calls NoFail, fw_ScAbandon = sample_calls NoFail,
     fw_ScPublish = sample_calls NoFail, fw_Start = 0,
     fw_Attempts = (\<lambda>k. \<lparr>at_obs = Inr \<lparr>ob_Present = True, ob_Platform = ''gb'', ob_Canonical = sample_digest, ob_Name = ''k.gb''\<rparr>,
        at_clock_err = 0, at_clock_elapsed = 0, at_clock_check = 0, at_done = False\<rparr>),
     fw_Fuel = 1, fw_Now = (\<lambda>_. 0)\<rparr>"

lemma sample_path: "PathFor [''s''] ''t'' = [''s'', ''t.part'']"
  by (simp add: PathFor_def PartSuffix_def clean_onto_def clean_step_def)

lemma sample_compare: "Compare sample_digest sample_digest = (StrengthStrong, True)"
  by (simp add: sample_digest_def Compare_strong digests_conflict_def fields_conflict_def fields_agree_def DigestBytes_def
      hasher_Digest_def hasher_Write_def NewHasher_def sample_hashes_def)

lemma sample_valid: "expected_Validate sample_expected = None"
  by code_simp

lemma sample_size: "d_Size (ex_Canonical sample_expected) = 2"
  by code_simp

lemma sample_staged: "Map.empty([''s'', ''t.part''] \<mapsto> \<lparr>fi_content = [1, 2], fi_mode = mode_private\<rparr>) = sample_files"
  by (simp add: sample_files_def)

lemma sample_receive:
  "staging_Receive (sample_calls NoFail) [''s''] Map.empty ''t'' [1, 2] None = (sample_files, None)"
  by (simp add: staging_Receive_def sample_path sample_calls_def sample_files_def)

lemma sample_verify: "staging_Verify sample_hashes [''s''] sample_files ''t'' sample_digest = None"
  by (simp add: staging_Verify_def sample_path sample_files_def sample_digest_def [symmetric] sample_compare)

lemma sample_publish:
  "Publish sample_hashes (sample_calls NoFail) [''lib''] sample_files [''s'', ''t.part''] ''k.gb'' sample_digest =
    (sample_files([''lib'', ''k.gb''] \<mapsto> \<lparr>fi_content = [1, 2], fi_mode = mode_shared\<rparr>), Inr [''lib'', ''k.gb''])"
proof -
  have "copyToDestinationFilesystem sample_hashes (sample_calls NoFail) sample_files [''s'', ''t.part''] sample_digest =
      (sample_files([''pub'', ''x.tmp''] \<mapsto> \<lparr>fi_content = [1, 2], fi_mode = mode_shared\<rparr>), Inr [''pub'', ''x.tmp''])"
    by (simp add: copyToDestinationFilesystem_def sample_calls_def sample_files_def Let_def sample_digest_def [symmetric]
        sample_compare)
  then show ?thesis
    unfolding Publish_def sample_join
    by (simp add: Let_def) (auto simp add: sample_calls_def sample_files_def fun_eq_iff)
qed

lemma sample_space: "CheckSpace (sample_calls NoFail) 2 = None"
  by code_simp

lemma sample_await:
  "Await 1 \<lparr>rc_has_library = True, rc_Poll = 0, rc_Timeout = 0\<rparr> sample_expected 0 (fw_Attempts (sample_flow J)) =
    Some (Inr (\<lparr>ar_State = StateRommMatched, ar_Attempts = 1, ar_Elapsed = 0, ar_Detail = DetailMatched ''k.gb''\<rparr>, None))"
proof -
  have ne: "d_SHA256 sample_digest \<noteq> ''''"
    by code_simp
  have "\<not> StrengthStrong < StrengthStrong"
    by (simp add: not_less_strong)
  then have "classify sample_expected \<lparr>ob_Present = True, ob_Platform = ''gb'', ob_Canonical = sample_digest,
      ob_Name = ''k.gb''\<rparr> = Some (StateRommMatched, DetailMatched ''k.gb'')"
    using ne sample_compare by (simp add: classify_def sample_expected_def)
  then show ?thesis
    by (simp add: Await_def sample_valid await_step_def sample_flow_def Let_def)
qed

definition empty_files :: FileJournal where
  "empty_files = \<lparr>fj_files = Map.empty, fj_fault = (\<lambda>_ _. JNone)\<rparr>"

lemma empty_files_sound: "files_sound empty_files"
  by (simp add: files_sound_def files_legal_def empty_files_def)

definition stored :: "(DestinationState option \<times> DestinationState \<times> detail) list \<Rightarrow> FileJournal" where
  "stored ts = empty_files\<lparr>fj_files := [''t'' \<mapsto> JStored (map (\<lambda>(s, t, d). \<lparr>tr_From = s, tr_To = t, tr_At = 0, tr_Detail = d\<rparr>) ts)]\<rparr>"

lemma stored_advance:
  assumes "ts \<noteq> []" "Transition (fst (snd (last ts))) to = None"
  shows "advance (sample_flow file_ops) (stored ts) ''t'' to d =
    (stored (ts @ [(Some (fst (snd (last ts))), to, d)]), None)"
  using assms
  by (simp add: last_map case_prod_beta advance_def file_ops_def file_Current_def readLocked_def stored_def empty_files_def
      file_Append_def append_check_def writeLocked_def sample_flow_def Let_def)

lemma first_advance:
  "advance (sample_flow file_ops) empty_files ''t'' StateReceiving d = (stored [(None, StateReceiving, d)], None)"
  by (simp add: advance_def file_ops_def file_Current_def readLocked_def stored_def empty_files_def
      file_Append_def append_check_def writeLocked_def sample_flow_def Let_def)

lemma sample_moves:
  "Transition StateReceiving StateVerifiedInStaging = None"
  "Transition StateVerifiedInStaging StatePublishedToFilesystem = None"
  "Transition StatePublishedToFilesystem StateAwaitingRommIngestion = None"
  "Transition StateAwaitingRommIngestion StateRommMatched = None"
  "Transition StateRommMatched StateSourceActive = None"
  by (simp_all add: Transition_def Known_def CanTransition_def)

definition sample_disk :: disk where
  "sample_disk = sample_files([''lib'', ''k.gb''] \<mapsto> \<lparr>fi_content = [1, 2], fi_mode = mode_shared\<rparr>)"

lemma sample_run:
  "\<exists>j'. flow_Receive (sample_flow file_ops) ''t'' sample_expected ''k.gb'' empty_files Map.empty =
    Some ((j', sample_disk), Some StateSourceActive, None)"
proof -
  have can: "ex_Canonical sample_expected = sample_digest"
    by (simp add: sample_expected_def)
  have fields: "fw_Mode (sample_flow J) = ModeFilesystemPublication" "fw_StagingDir (sample_flow J) = [''s'']"
    "fw_LibRoot (sample_flow J) = [''lib'']" "fw_Hashes (sample_flow J) = sample_hashes" "fw_HasPublisher (sample_flow J)"
    "fw_Manifest (sample_flow J) = None" "fw_Payload (sample_flow J) = [1, 2]" "fw_Ending (sample_flow J) = None"
    "fw_ScSpace (sample_flow J) = sample_calls NoFail" "fw_ScReceive (sample_flow J) = sample_calls NoFail"
    "fw_ScPublish (sample_flow J) = sample_calls NoFail" "fw_Start (sample_flow J) = 0" "fw_Fuel (sample_flow J) = 1"
    "fw_Reconciler (sample_flow J) = \<lparr>rc_has_library = True, rc_Poll = 0, rc_Timeout = 0\<rparr>" for J :: "'b JournalOps"
    by (simp_all add: sample_flow_def)
  note moves = stored_advance first_advance sample_moves
  have fin: "\<exists>j'. flow_finish (sample_flow file_ops) ''t'' sample_expected
      (stored ts) d = Some ((j', d), Some StateSourceActive, None)"
    if "ts \<noteq> []" "fst (snd (last ts)) = StatePublishedToFilesystem" for ts d
    using that by (simp add: flow_finish_def moves fields sample_await [unfolded One_nat_def])
  have hand: "\<exists>j'. flow_handoff (sample_flow file_ops) ''t'' sample_expected ''k.gb''
      (stored ts) sample_files = Some ((j', sample_disk), Some StateSourceActive, None)"
    if "ts \<noteq> []" "fst (snd (last ts)) = StateVerifiedInStaging" for ts
    using that fin by (simp add: flow_handoff_def moves fields can sample_path sample_publish sample_disk_def)
  show ?thesis
    using hand sample_size by (simp add: flow_Receive_def moves fields can sample_valid sample_space sample_receive
        sample_verify dmode_valid_def)
qed

section \<open>Properties\<close>









text \<open>On a journal that records every legal transition, such as the file journal without disk
  failures, the state a run returns is where the journal of its transfer stands, on every branch.\<close>

theorem outcome_is_recorded:
  assumes "flow_Receive f tid ex rel j d = Some ((j', d'), Some st, e)"
    and "fw_Journal f = file_ops" and "files_sound j"
  shows "file_Current j' tid = Some st \<and> dest_path (journal_Path file_ops j' tid) \<and>
    (\<forall>o'. o' \<noteq> tid \<longrightarrow> file_History j' o' = file_History j o')"
proof -
  have grow: "grows file_ops files_sound tid j j'"
    using soundj.Receive_grows [OF assms(1,3,2)] .
  have "last_opt (journal_Path file_ops j' tid) = Some st"
    using soundj.Receive_stands [OF assms(1,3,2)] .
  then have "file_Current j' tid = Some st" "journal_Path file_ops j' tid \<noteq> []"
    by (auto simp add: file_current_last journal_Path_def file_ops_def)
  then show ?thesis
    using grow soundj.path_legal [of j' tid] by (auto simp add: grows_def file_ops_def)
qed

theorem outcome_is_recorded_witness:
  "\<exists>j'. flow_Receive (sample_flow file_ops) ''t'' sample_expected ''k.gb'' empty_files Map.empty =
      Some ((j', sample_disk), Some StateSourceActive, None) \<and> file_Current j' ''t'' = Some StateSourceActive"
proof -
  obtain j' where run: "flow_Receive (sample_flow file_ops) ''t'' sample_expected ''k.gb'' empty_files Map.empty =
      Some ((j', sample_disk), Some StateSourceActive, None)"
    using sample_run by blast
  moreover have "fw_Journal (sample_flow file_ops) = file_ops"
    by (simp add: sample_flow_def)
  ultimately show ?thesis
    using outcome_is_recorded [OF run _ empty_files_sound] by blast
qed

text \<open>A failing journal hides an outcome: when the download fails and the transition to
  \<open>cancelled\<close> cannot be written, the run still returns \<open>cancelled\<close> without an error while the
  journal stays at \<open>receiving\<close>.\<close>

theorem lost_cancellation:
  assumes "dmode_valid (fw_Mode f)" and "expected_Validate ex = None" and "fw_Journal f = file_ops"
    and "d_Size (ex_Canonical ex) \<le> 0" and "fw_Ending f = Some msg" and "fj_files j tid = None"
    and "\<And>t. tr_To t = StateReceiving \<Longrightarrow> fj_fault j tid t = JNone"
    and "\<And>t. tr_To t = StateCancelled \<Longrightarrow> fj_fault j tid t = JFailWrite"
  shows "\<exists>j' d'. flow_Receive f tid ex rel j d = Some ((j', d'), Some StateCancelled, None) \<and>
    file_Current j' tid = Some StateReceiving"
proof -
  obtain d1 e where r: "staging_Receive (fw_ScReceive f) (fw_StagingDir f) d tid (fw_Payload f) (fw_Ending f) = (d1, Some e)"
  proof (cases "sc_fail (fw_ScReceive f) = FailOpen")
    case True
    then show ?thesis
      using that by (simp add: staging_Receive_def)
  next
    case False
    then show ?thesis
      using that assms(5) by (simp add: staging_Receive_def Let_def)
  qed
  have cur: "file_Current j tid = None"
    using assms(6) by (simp add: file_Current_def readLocked_def)
  let ?t = "\<lambda>d. \<lparr>tr_From = None, tr_To = StateReceiving, tr_At = fw_Now f StateReceiving, tr_Detail = d\<rparr>"
  let ?j1 = "\<lambda>d. j\<lparr>fj_files := (fj_files j)(tid \<mapsto> JStored [?t d])\<rparr>"
  have first: "advance f j tid StateReceiving d = (?j1 d, None)" for d
    using assms(3,6,7) cur by (simp add: advance_def file_ops_def file_Append_def readLocked_def append_check_def
        writeLocked_def Let_def)
  have stay: "file_Current (?j1 d) tid = Some StateReceiving" for d
    by (simp add: file_Current_def readLocked_def)
  have second: "\<exists>x. advance f (?j1 d) tid StateCancelled d2 = (?j1 d, x)" for d d2
    using assms(3,8) stay legal_moves(1)
    by (simp add: advance_def file_ops_def file_Append_def readLocked_def append_check_def writeLocked_def Let_def)
  show ?thesis
    using assms(1,2,4) r first stay second [of "DetailText ''receiving into staging''" "DetailStaging e"]
    by (auto simp add: flow_Receive_def)
qed

theorem lost_cancellation_witness:
  "let f = (sample_flow file_ops)\<lparr>fw_Ending := Some ''reset''\<rparr>;
       ex = sample_expected\<lparr>ex_Canonical := sample_digest\<lparr>d_Size := 0\<rparr>\<rparr>;
       j = empty_files\<lparr>fj_fault := (\<lambda>_ t. if tr_To t = StateCancelled then JFailWrite else JNone)\<rparr>
   in \<exists>j' d'. flow_Receive f ''t'' ex ''k.gb'' j Map.empty = Some ((j', d'), Some StateCancelled, None) \<and>
    file_Current j' ''t'' = Some StateReceiving"
proof -
  have "d_SHA256 sample_digest \<noteq> ''''" "validate prefixFile (ex_FileID sample_expected) = None"
    "ex_Platform sample_expected \<noteq> ''''"
    by code_simp+
  then show ?thesis
    unfolding Let_def
    by (intro lost_cancellation) (simp_all add: sample_flow_def dmode_valid_def empty_files_def expected_Validate_def)
qed

end
