(* ===== verification/Adapters.thy ===== *)
theory Adapters
  imports Manifest
begin

text \<open>
  The adapter contract and the registry, \<open>src/verify/adapter.go\<close>, with the readers of
  \<open>src/verify/analyze.go\<close> it rests on.  A payload is the bytes behind an \<open>io.ReaderAt\<close> and the
  first offset that cannot be read, if any; a stream is what a reader delivers until its end and
  the error it ends with, if any.  The \<open>Adapter\<close> interface is a record of functions, its contract
  the locale \<open>adapter\<close>.
\<close>

section \<open>Payloads and streams\<close>

record payload =
  pl_bytes :: bytes
  pl_bad :: "nat option"

type_synonym stream = "bytes \<times> string option"

datatype read_end = ReadFull | ReadEOF | ReadFailed

definition ReadAt :: "payload \<Rightarrow> nat \<Rightarrow> nat \<Rightarrow> bytes \<times> read_end" where
  "ReadAt src off n =
     (let b = take n (drop off (pl_bytes src)) in
      if (case pl_bad src of None \<Rightarrow> False | Some e \<Rightarrow> e < off + length b)
      then (take (the (pl_bad src) - off) b, ReadFailed)
      else (b, if length b < n then ReadEOF else ReadFull))"

lemma ReadAt_bad:
  "ReadAt src off n =
     (let b = take n (drop off (pl_bytes src)) in
      if \<exists>e. pl_bad src = Some e \<and> e < off + length b then (take (the (pl_bad src) - off) b, ReadFailed)
      else (b, if length b < n then ReadEOF else ReadFull))"
  by (cases "pl_bad src") (simp_all add: ReadAt_def Let_def)

definition NewSectionReader :: "payload \<Rightarrow> nat \<Rightarrow> nat \<Rightarrow> stream" where
  "NewSectionReader src off n =
     (case ReadAt src off n of
        (b, ReadFailed) \<Rightarrow> (b, Some ''read error'')
      | (b, _) \<Rightarrow> (b, None))"

fun MultiReader :: "stream list \<Rightarrow> stream" where
  "MultiReader [] = ([], None)"
| "MultiReader ((b, Some e) # rs) = (b, Some e)"
| "MultiReader ((b, None) # rs) = (case MultiReader rs of (b', e) \<Rightarrow> (b @ b', e))"

section \<open>Peeking\<close>

definition PeekSize :: nat where "PeekSize = 4096"

datatype Confidence = ConfidenceNone | ConfidenceWeak | ConfidenceStrong

fun confidence_iota :: "Confidence \<Rightarrow> nat" where
  "confidence_iota ConfidenceNone = 0"
| "confidence_iota ConfidenceWeak = 1"
| "confidence_iota ConfidenceStrong = 2"

lemma confidence_iota_inj: "confidence_iota a = confidence_iota b \<Longrightarrow> a = b"
  by (cases a; cases b) simp_all

instantiation Confidence :: linorder
begin
definition less_eq_Confidence :: "Confidence \<Rightarrow> Confidence \<Rightarrow> bool" where
  "less_eq_Confidence a b = (confidence_iota a \<le> confidence_iota b)"
definition less_Confidence :: "Confidence \<Rightarrow> Confidence \<Rightarrow> bool" where
  "less_Confidence a b = (confidence_iota a < confidence_iota b)"
instance
  by standard
    (auto simp add: less_eq_Confidence_def less_Confidence_def intro: confidence_iota_inj)
end

fun confidence_String :: "Confidence \<Rightarrow> string" where
  "confidence_String ConfidenceWeak = ''weak''"
| "confidence_String ConfidenceStrong = ''strong''"
| "confidence_String ConfidenceNone = ''none''"

record Peek =
  pk_Head :: bytes
  pk_Size :: nat
  pk_Name :: string

definition peek_At :: "Peek \<Rightarrow> nat \<Rightarrow> 8 word option" where
  "peek_At p off = (if off \<ge> length (pk_Head p) then None else Some (pk_Head p ! off))"

definition peek_Range :: "Peek \<Rightarrow> nat \<Rightarrow> nat \<Rightarrow> bytes option" where
  "peek_Range p src to =
     (if to < src \<or> to > length (pk_Head p) then None else Some (take (to - src) (drop src (pk_Head p))))"

text \<open>\<open>peekFrom\<close>: the buffer is made first, so what a short read leaves is zero.\<close>

definition peekFrom :: "payload \<Rightarrow> nat \<Rightarrow> string \<Rightarrow> string + Peek" where
  "peekFrom src sz name =
     (let n = min sz PeekSize in
      case (if n > 0 then ReadAt src 0 n else ([], ReadFull)) of
        (b, ReadFailed) \<Rightarrow> Inl ''read error''
      | (b, _) \<Rightarrow> Inr \<lparr>pk_Head = b @ replicate (n - length b) 0, pk_Size = sz, pk_Name = name\<rparr>)"

section \<open>Adapters\<close>

text \<open>What an analysis reports to the operator, with the values each message is formatted from.\<close>

datatype vnote =
    NoteHint PlatformID PlatformID
  | NoteWeak AdapterRef
  | NoteBareImage
  | NoteHeaderChecksum
  | NotePlainImage
  | NoteCopierHeader
  | NoteBlocks nat nat
  | NoteHeaderCRC
  | NoteBadCapacity "8 word"
  | NoteFullDump
  | NoteOverdump nat nat
  | NoteIncomplete nat nat
  | NoteTrimmed nat nat
  | NoteUnsafeName string
  | NoteTooLarge string int int
  | NoteManyEntries nat
  | NoteZipMember string
  | NoteUnrecognised
  | NoteFailed string

record Canonical =
  ca_Reader :: stream
  ca_Size :: int
  ca_Notes :: "vnote list"

record Adapter =
  ad_Ref :: AdapterRef
  ad_Platform :: PlatformID
  ad_Detect :: "Peek \<Rightarrow> Confidence"
  ad_Canonicalize :: "payload \<Rightarrow> nat \<Rightarrow> string + Canonical"

section \<open>The registry\<close>

type_synonym Registry = "Adapter list"

definition NewRegistry :: Registry where "NewRegistry = []"

text \<open>\<open>Register\<close>: \<open>None\<close> is the panic on a duplicate.\<close>

definition Register :: "Registry \<Rightarrow> Adapter \<Rightarrow> Registry option" where
  "Register r a = (if list_ex (\<lambda>x. ad_Ref x = ad_Ref a) r then None else Some (r @ [a]))"

definition Lookup :: "Registry \<Rightarrow> AdapterRef \<Rightarrow> Adapter option" where
  "Lookup r ref = List.find (\<lambda>a. ad_Ref a = ref) r"

type_synonym selection = "Adapter option \<times> Confidence"

definition select_step :: "Peek \<Rightarrow> selection \<Rightarrow> Adapter \<Rightarrow> selection" where
  "select_step p best a =
     (let c = ad_Detect a p in
      if c = ConfidenceNone then best
      else if c > snd best then (Some a, c)
      else if c = snd best then
        (case fst best of
           None \<Rightarrow> best
         | Some b \<Rightarrow> if adapter_String (ad_Ref a) < adapter_String (ad_Ref b) then (Some a, c) else best)
      else best)"

definition selectAdapter :: "Registry \<Rightarrow> Peek \<Rightarrow> PlatformID \<Rightarrow> selection \<times> vnote list" where
  "selectAdapter r p hint =
     (let best = foldl (select_step p) (None, ConfidenceNone) r in
      case fst best of
        None \<Rightarrow> ((None, ConfidenceNone), [])
      | Some a \<Rightarrow> (best,
          (if hint \<noteq> '''' \<and> ad_Platform a \<noteq> hint then [NoteHint hint (ad_Platform a)] else []) @
          (if snd best = ConfidenceWeak then [NoteWeak (ad_Ref a)] else [])))"

section \<open>Reading a payload\<close>

lemma NewSectionReader_whole:
  "pl_bad src = None \<Longrightarrow> NewSectionReader src off n = (take n (drop off (pl_bytes src)), None)"
  by (simp add: NewSectionReader_def ReadAt_bad Let_def)

lemma NewSectionReader_prefix:
  "fst (NewSectionReader src off n) = take (length (fst (NewSectionReader src off n))) (drop off (pl_bytes src))"
  by (auto simp add: NewSectionReader_def ReadAt_bad Let_def min_def split: read_end.splits)

lemma NewSectionReader_done:
  assumes "NewSectionReader src off n = (b, None)"
  shows "b = take n (drop off (pl_bytes src))"
  using assms by (auto simp add: NewSectionReader_def ReadAt_bad Let_def split: read_end.splits if_splits)

lemma peekFrom_sound:
  assumes "peekFrom src sz name = Inr p" "sz \<le> length (pl_bytes src)"
  shows "p = \<lparr>pk_Head = take (min sz PeekSize) (pl_bytes src), pk_Size = sz, pk_Name = name\<rparr>"
  using assms by (auto simp add: peekFrom_def ReadAt_bad Let_def split: if_splits read_end.splits prod.splits)

section \<open>The contract of an adapter\<close>

text \<open>Over a payload of the size it is given, the size an adapter predicts is the length of the
  stream it delivers, and a readable payload gives a stream that ends without an error.\<close>

locale adapter =
  fixes A :: Adapter
  assumes predicts: "ad_Canonicalize A src (length (pl_bytes src)) = Inr c \<Longrightarrow> snd (ca_Reader c) = None \<Longrightarrow>
      ca_Size c = int (length (fst (ca_Reader c)))"
    and completes: "ad_Canonicalize A src (length (pl_bytes src)) = Inr c \<Longrightarrow> pl_bad src = None \<Longrightarrow>
      snd (ca_Reader c) = None"
begin

lemma readable_size:
  "ad_Canonicalize A src (length (pl_bytes src)) = Inr c \<Longrightarrow> pl_bad src = None \<Longrightarrow>
    ca_Reader c = (fst (ca_Reader c), None) \<and> ca_Size c = int (length (fst (ca_Reader c)))"
  using predicts completes by (metis prod.collapse)

end

section \<open>Selection\<close>

text \<open>The adapter a payload goes to: it claims the payload, no other claims it with more
  confidence, and among equals its reference comes first.\<close>

definition best_claim :: "Adapter set \<Rightarrow> Peek \<Rightarrow> Adapter \<Rightarrow> bool" where
  "best_claim S p a = (a \<in> S \<and> ad_Detect a p \<noteq> ConfidenceNone \<and>
     (\<forall>b\<in>S. ad_Detect b p < ad_Detect a p \<or>
        ad_Detect b p = ad_Detect a p \<and> adapter_String (ad_Ref a) \<le> adapter_String (ad_Ref b)))"

definition selected :: "Adapter set \<Rightarrow> Peek \<Rightarrow> selection \<Rightarrow> bool" where
  "selected S p s =
     (case s of
        (None, c) \<Rightarrow> c = ConfidenceNone \<and> (\<forall>b\<in>S. ad_Detect b p = ConfidenceNone)
      | (Some a, c) \<Rightarrow> c = ad_Detect a p \<and> best_claim S p a)"

lemma none_least: "\<not> c < ConfidenceNone"
  by (cases c) (simp_all add: less_Confidence_def)

lemma none_less: "c \<noteq> ConfidenceNone \<longleftrightarrow> ConfidenceNone < c"
  by (cases c) (simp_all add: less_Confidence_def)

lemma select_step_selected:
  assumes "selected S p s"
  shows "selected (insert a S) p (select_step p s a)"
proof -
  obtain x c where s: "s = (x, c)"
    by fastforce
  show ?thesis
  proof (cases x)
    case None
    then have none: "c = ConfidenceNone" "\<forall>b\<in>S. ad_Detect b p = ConfidenceNone"
      using assms s by (simp_all add: selected_def)
    then show ?thesis
      using s None none_less by (auto simp add: select_step_def selected_def best_claim_def Let_def)
  next
    case (Some b)
    then have b: "c = ad_Detect b p" "best_claim S p b"
      using assms s by (simp_all add: selected_def)
    consider "ad_Detect a p = ConfidenceNone" | "ad_Detect a p \<noteq> ConfidenceNone" "c < ad_Detect a p"
      | "ad_Detect a p \<noteq> ConfidenceNone" "c = ad_Detect a p" | "ad_Detect a p \<noteq> ConfidenceNone" "ad_Detect a p < c"
      by fastforce
    then show ?thesis
    proof cases
      case 1
      then show ?thesis
        using s Some b none_less by (auto simp add: select_step_def selected_def best_claim_def)
    next
      case 2
      then show ?thesis
        using s Some b by (auto simp add: select_step_def selected_def best_claim_def Let_def)
    next
      case 3
      then show ?thesis
        using s Some b by (auto simp add: select_step_def selected_def best_claim_def Let_def)
    next
      case 4
      then show ?thesis
        using s Some b by (auto simp add: select_step_def selected_def best_claim_def Let_def)
    qed
  qed
qed

lemma select_fold_selected:
  "selected S p s \<Longrightarrow> selected (S \<union> set r) p (foldl (select_step p) s r)"
proof (induction r arbitrary: s S)
  case (Cons a r)
  then show ?case
    using Cons.IH [OF select_step_selected [OF Cons.prems], of a] by simp
qed simp

lemma selected_unique:
  assumes "selected S p s" "selected S p t" "inj_on (\<lambda>a. adapter_String (ad_Ref a)) S"
  shows "s = t"
proof -
  have uniq: "a = b" if "best_claim S p a" "best_claim S p b" for a b
  proof -
    have "adapter_String (ad_Ref a) = adapter_String (ad_Ref b)"
      using that unfolding best_claim_def by (metis order_less_irrefl order_less_asym order_antisym)
    then show ?thesis
      using that assms(3) by (auto simp add: best_claim_def inj_on_def)
  qed
  show ?thesis
    using assms(1,2) uniq
    by (auto simp add: selected_def split: prod.splits option.splits) (auto simp add: best_claim_def)
qed

lemma selection_selected: "selected (set r) p (foldl (select_step p) (None, ConfidenceNone) r)"
  using select_fold_selected [of "{}" p "(None, ConfidenceNone)" r] by (simp add: selected_def)

lemma selectAdapter_in:
  "selectAdapter r p hint = ((Some a, c), ns) \<Longrightarrow> best_claim (set r) p a \<and> c = ad_Detect a p"
  using selection_selected [of r p]
  by (auto simp add: selectAdapter_def selected_def Let_def split: option.splits prod.splits)

section \<open>Properties\<close>

text \<open>Every Bridge with the same adapters reaches the same conclusion about a file: the selection
  does not depend on the order or multiplicity of registration, as long as no two adapters share a
  reference string, and it is an adapter that claims the payload with the most confidence.\<close>

theorem selection_order_free:
  assumes "set r = set r'" and "inj_on (\<lambda>a. adapter_String (ad_Ref a)) (set r)"
  shows "selectAdapter r p hint = selectAdapter r' p hint \<and>
    (case fst (fst (selectAdapter r p hint)) of
       None \<Rightarrow> \<forall>b\<in>set r. ad_Detect b p = ConfidenceNone
     | Some a \<Rightarrow> best_claim (set r) p a)"
proof -
  have "selected (set r) p (foldl (select_step p) (None, ConfidenceNone) r')"
    using selection_selected [of r' p] assms(1) by simp
  then have eq: "foldl (select_step p) (None, ConfidenceNone) r = foldl (select_step p) (None, ConfidenceNone) r'"
    using selected_unique [OF selection_selected [of r p] _ assms(2)] by blast
  show ?thesis
    using eq selection_selected [of r p]
    by (auto simp add: selectAdapter_def selected_def Let_def split: option.splits prod.splits)
qed

definition sample_adapter :: "string \<Rightarrow> Confidence \<Rightarrow> Adapter" where
  "sample_adapter n c = \<lparr>ad_Ref = \<lparr>ar_ID = n, ar_Version = ''1''\<rparr>, ad_Platform = n, ad_Detect = (\<lambda>_. c),
     ad_Canonicalize = (\<lambda>_ _. Inl ''unused'')\<rparr>"

theorem selection_order_free_witness:
  "let a = sample_adapter ''a'' ConfidenceWeak; b = sample_adapter ''b'' ConfidenceStrong;
       p = \<lparr>pk_Head = [], pk_Size = 0, pk_Name = ''''\<rparr>
   in selectAdapter [a, b] p ''a'' = selectAdapter [b, a] p ''a'' \<and>
     selectAdapter [a, b] p ''a'' = ((Some b, ConfidenceStrong), [NoteHint ''a'' ''b''])"
proof -
  have "selectAdapter [sample_adapter ''a'' ConfidenceWeak, sample_adapter ''b'' ConfidenceStrong] p ''a'' =
      selectAdapter [sample_adapter ''b'' ConfidenceStrong, sample_adapter ''a'' ConfidenceWeak] p ''a''" for p
    by (rule conjunct1 [OF selection_order_free])
      (auto simp add: sample_adapter_def adapter_String_def)
  then show ?thesis
    by (simp add: selectAdapter_def select_step_def sample_adapter_def less_Confidence_def)
qed

end
