(* ===== verification/Cartridges.thy ===== *)
theory Cartridges
  imports Adapters
begin

text \<open>
  The adapters of the cartridge platforms, \<open>src/verify/gameboy.go\<close>, \<open>gba.go\<close> and \<open>genesis.go\<close>.
  The streaming de-interleaver is modelled twice: as the reader with its buffer (\<open>smd_Read\<close>)
  and as the stream it stands for (\<open>smd_stream\<close>).
\<close>

section \<open>Game Boy and Game Boy Color\<close>

definition gbLogo :: bytes where
  "gbLogo = [0xCE, 0xED, 0x66, 0x66, 0xCC, 0x0D, 0x00, 0x0B, 0x03, 0x73, 0x00, 0x83,
     0x00, 0x0C, 0x00, 0x0D, 0x00, 0x08, 0x11, 0x1F, 0x88, 0x89, 0x00, 0x0E,
     0xDC, 0xCC, 0x6E, 0xE6, 0xDD, 0xDD, 0xD9, 0x99, 0xBB, 0xBB, 0x67, 0x63,
     0x6E, 0x0E, 0xEC, 0xCC, 0xDD, 0xDC, 0x99, 0x9F, 0xBB, 0xB9, 0x33, 0x3E]"

definition gbLogoOffset :: nat where "gbLogoOffset = 0x104"
definition gbCGBFlagOffset :: nat where "gbCGBFlagOffset = 0x143"
definition gbHeaderChkStart :: nat where "gbHeaderChkStart = 0x134"
definition gbHeaderChkEnd :: nat where "gbHeaderChkEnd = 0x14C"
definition gbHeaderChkAt :: nat where "gbHeaderChkAt = 0x14D"
definition gbMinSize :: nat where "gbMinSize = 0x150"

definition gbHeaderPresent :: "Peek \<Rightarrow> bool" where
  "gbHeaderPresent p =
     (if pk_Size p < gbMinSize then False
      else case peek_Range p gbLogoOffset (gbLogoOffset + length gbLogo) of
        None \<Rightarrow> False
      | Some logo \<Rightarrow> logo = gbLogo)"

definition gbIsColor :: "Peek \<Rightarrow> bool" where
  "gbIsColor p =
     (case peek_At p gbCGBFlagOffset of None \<Rightarrow> False | Some flag \<Rightarrow> flag = 0x80 \<or> flag = 0xC0)"

definition gb_sum :: "bytes \<Rightarrow> 8 word" where
  "gb_sum region = foldl (\<lambda>s b. s - b - 1) 0 region"

definition gbHeaderChecksumValid :: "Peek \<Rightarrow> bool \<times> bool" where
  "gbHeaderChecksumValid p =
     (case peek_Range p gbHeaderChkStart (gbHeaderChkEnd + 1) of
        None \<Rightarrow> (False, False)
      | Some region \<Rightarrow>
        (case peek_At p gbHeaderChkAt of
           None \<Rightarrow> (False, False)
         | Some stored \<Rightarrow> (gb_sum region = stored, True)))"

definition gbCanonicalize :: "payload \<Rightarrow> nat \<Rightarrow> Peek \<Rightarrow> Canonical" where
  "gbCanonicalize src sz p =
     \<lparr>ca_Reader = NewSectionReader src 0 sz, ca_Size = int sz,
      ca_Notes = NoteBareImage #
        (let (ok, checked) = gbHeaderChecksumValid p in
         if checked \<and> \<not> ok then [NoteHeaderChecksum] else [])\<rparr>"

definition gb_canonicalize :: "payload \<Rightarrow> nat \<Rightarrow> string + Canonical" where
  "gb_canonicalize src sz =
     (case peekFrom src sz '''' of Inl e \<Rightarrow> Inl e | Inr p \<Rightarrow> Inr (gbCanonicalize src sz p))"

definition GameBoyAdapter :: Adapter where
  "GameBoyAdapter = \<lparr>ad_Ref = \<lparr>ar_ID = ''nintendo.gb'', ar_Version = ''1''\<rparr>,
     ad_Platform = PlatformGB,
     ad_Detect = (\<lambda>p. if \<not> gbHeaderPresent p then ConfidenceNone
        else if gbIsColor p then ConfidenceNone else ConfidenceStrong),
     ad_Canonicalize = gb_canonicalize\<rparr>"

definition GameBoyColorAdapter :: Adapter where
  "GameBoyColorAdapter = \<lparr>ad_Ref = \<lparr>ar_ID = ''nintendo.gbc'', ar_Version = ''1''\<rparr>,
     ad_Platform = PlatformGBC,
     ad_Detect = (\<lambda>p. if \<not> gbHeaderPresent p \<or> \<not> gbIsColor p then ConfidenceNone else ConfidenceStrong),
     ad_Canonicalize = gb_canonicalize\<rparr>"

section \<open>Game Boy Advance\<close>

definition gbaFixedByteOffset :: nat where "gbaFixedByteOffset = 0xB2"
definition gbaChkStart :: nat where "gbaChkStart = 0xA0"
definition gbaChkEnd :: nat where "gbaChkEnd = 0xBC"
definition gbaChkAt :: nat where "gbaChkAt = 0xBD"
definition gbaMinSize :: nat where "gbaMinSize = 0xC0"

definition gbaHeaderChecksum :: "bytes \<Rightarrow> 8 word" where
  "gbaHeaderChecksum region = foldl (\<lambda>chk b. chk - b) 0 region - 0x19"

definition gba_detect :: "Peek \<Rightarrow> Confidence" where
  "gba_detect p =
     (if pk_Size p < gbaMinSize then ConfidenceNone
      else case peek_At p gbaFixedByteOffset of
        None \<Rightarrow> ConfidenceNone
      | Some fixed \<Rightarrow>
        if fixed \<noteq> 0x96 then ConfidenceNone
        else case peek_Range p gbaChkStart (gbaChkEnd + 1) of
          None \<Rightarrow> ConfidenceNone
        | Some region \<Rightarrow>
          (case peek_At p gbaChkAt of
             None \<Rightarrow> ConfidenceNone
           | Some stored \<Rightarrow> if gbaHeaderChecksum region \<noteq> stored then ConfidenceWeak else ConfidenceStrong))"

definition gba_notes :: "Peek \<Rightarrow> vnote list" where
  "gba_notes p =
     (case (peek_Range p gbaChkStart (gbaChkEnd + 1), peek_At p gbaChkAt) of
        (Some region, Some stored) \<Rightarrow> if gbaHeaderChecksum region \<noteq> stored then [NoteHeaderChecksum] else []
      | _ \<Rightarrow> [])"

definition gba_canonicalize :: "payload \<Rightarrow> nat \<Rightarrow> string + Canonical" where
  "gba_canonicalize src sz =
     (case peekFrom src sz '''' of
        Inl e \<Rightarrow> Inl e
      | Inr p \<Rightarrow> Inr \<lparr>ca_Reader = NewSectionReader src 0 sz, ca_Size = int sz,
          ca_Notes = NoteBareImage # gba_notes p\<rparr>)"

definition GameBoyAdvanceAdapter :: Adapter where
  "GameBoyAdvanceAdapter = \<lparr>ad_Ref = \<lparr>ar_ID = ''nintendo.gba'', ar_Version = ''1''\<rparr>,
     ad_Platform = PlatformGBA, ad_Detect = gba_detect, ad_Canonicalize = gba_canonicalize\<rparr>"

section \<open>Mega Drive: plain images\<close>

definition genesisConsoleNameOffset :: nat where "genesisConsoleNameOffset = 0x100"

definition genesisConsoleName :: "Peek \<Rightarrow> bool" where
  "genesisConsoleName p =
     list_ex (\<lambda>off. peek_Range p off (off + 4) = Some (bytes_of ''SEGA''))
       [genesisConsoleNameOffset, genesisConsoleNameOffset + 1]"

definition bin_canonicalize :: "payload \<Rightarrow> nat \<Rightarrow> string + Canonical" where
  "bin_canonicalize src sz = Inr \<lparr>ca_Reader = NewSectionReader src 0 sz, ca_Size = int sz,
     ca_Notes = [NotePlainImage]\<rparr>"

definition GenesisBinAdapter :: Adapter where
  "GenesisBinAdapter = \<lparr>ad_Ref = \<lparr>ar_ID = ''sega.genesis.bin'', ar_Version = ''1''\<rparr>,
     ad_Platform = PlatformGenesis,
     ad_Detect = (\<lambda>p. if pk_Size p < genesisConsoleNameOffset + 16 then ConfidenceNone
        else if genesisConsoleName p then ConfidenceStrong else ConfidenceNone),
     ad_Canonicalize = bin_canonicalize\<rparr>"

section \<open>Mega Drive: Super Magic Drive images\<close>

definition smdHeaderSize :: nat where "smdHeaderSize = 512"
definition smdBlockSize :: nat where "smdBlockSize = 16384"
definition smdHalfBlock :: nat where "smdHalfBlock = smdBlockSize div 2"

definition smdSizeShaped :: "nat \<Rightarrow> bool" where
  "smdSizeShaped sz = (sz > smdHeaderSize \<and> (sz - smdHeaderSize) mod smdBlockSize = 0)"

definition smd_detect :: "Peek \<Rightarrow> Confidence" where
  "smd_detect p =
     (if \<not> smdSizeShaped (pk_Size p) then ConfidenceNone
      else if peek_At p 8 \<noteq> Some 0xAA \<or> peek_At p 9 \<noteq> Some 0xBB then ConfidenceNone
      else ConfidenceStrong)"

text \<open>One block: the pairs the inner loop of \<open>fill\<close> writes, in order.\<close>

definition smd_deinterleave :: "bytes \<Rightarrow> bytes" where
  "smd_deinterleave blk = concat (map (\<lambda>i. [blk ! (smdHalfBlock + i), blk ! i]) [0..<smdHalfBlock])"

datatype smd_error = SmdEOF | SmdTruncated nat | SmdRead string

record smdDeinterleaver =
  sd_src :: stream
  sd_out :: bytes
  sd_pos :: nat
  sd_err :: "smd_error option"

definition newSMDDeinterleaver :: "stream \<Rightarrow> smdDeinterleaver" where
  "newSMDDeinterleaver src = \<lparr>sd_src = src, sd_out = [], sd_pos = 0, sd_err = None\<rparr>"

text \<open>\<open>fill\<close>, with \<open>io.ReadFull\<close>: an end after some bytes is an unexpected end, an error is
  passed on.\<close>

definition smd_fill :: "smdDeinterleaver \<Rightarrow> smdDeinterleaver \<times> smd_error option" where
  "smd_fill d =
     (let (b, ending) = sd_src d; d' = d\<lparr>sd_src := (drop smdBlockSize b, ending)\<rparr> in
      if length b \<ge> smdBlockSize
      then (d'\<lparr>sd_out := smd_deinterleave (take smdBlockSize b), sd_pos := 0\<rparr>, None)
      else case ending of
        Some e \<Rightarrow> (d', Some (SmdRead e))
      | None \<Rightarrow> if b = [] then (d', Some SmdEOF) else (d', Some (SmdTruncated (length b))))"

text \<open>\<open>Read\<close> into a buffer of \<open>n\<close> bytes.\<close>

definition smd_copy :: "smdDeinterleaver \<Rightarrow> nat \<Rightarrow> smdDeinterleaver \<times> bytes \<times> smd_error option" where
  "smd_copy d n =
     (let b = take n (drop (sd_pos d) (sd_out d)) in (d\<lparr>sd_pos := sd_pos d + length b\<rparr>, b, None))"

definition smd_Read :: "smdDeinterleaver \<Rightarrow> nat \<Rightarrow> smdDeinterleaver \<times> bytes \<times> smd_error option" where
  "smd_Read d n =
     (if sd_pos d \<ge> length (sd_out d) then
        (case sd_err d of
           Some e \<Rightarrow> (d, [], Some e)
         | None \<Rightarrow>
           (case smd_fill d of
              (d', Some e) \<Rightarrow> (d'\<lparr>sd_err := Some e\<rparr>, [], Some e)
            | (d', None) \<Rightarrow> smd_copy d' n))
      else smd_copy d n)"

text \<open>The stream the reader stands for.\<close>

function smd_blocks :: "bytes \<Rightarrow> string option \<Rightarrow> bytes \<times> smd_error" where
  "smd_blocks b ending =
     (if length b \<ge> smdBlockSize then
        (case smd_blocks (drop smdBlockSize b) ending of
           (out, e) \<Rightarrow> (smd_deinterleave (take smdBlockSize b) @ out, e))
      else case ending of
        Some e \<Rightarrow> ([], SmdRead e)
      | None \<Rightarrow> if b = [] then ([], SmdEOF) else ([], SmdTruncated (length b)))"
  by auto
termination
  by (relation "measure (\<lambda>(b, e). length b)") (auto simp add: smdBlockSize_def)

declare smd_blocks.simps [simp del]

definition smd_stream :: "stream \<Rightarrow> stream" where
  "smd_stream src =
     (case smd_blocks (fst src) (snd src) of
        (out, SmdEOF) \<Rightarrow> (out, None)
      | (out, SmdTruncated n) \<Rightarrow> (out, Some ''genesis.smd: block truncated'')
      | (out, SmdRead e) \<Rightarrow> (out, Some e))"

definition smd_canonicalize :: "payload \<Rightarrow> nat \<Rightarrow> string + Canonical" where
  "smd_canonicalize src sz =
     (if \<not> smdSizeShaped sz then Inl ''genesis.smd: not a 512-byte copier header plus whole blocks''
      else let body = sz - smdHeaderSize in
        Inr \<lparr>ca_Reader = smd_stream (NewSectionReader src smdHeaderSize body), ca_Size = int body,
          ca_Notes = [NoteCopierHeader, NoteBlocks (body div smdBlockSize) smdBlockSize]\<rparr>)"

definition GenesisSMDAdapter :: Adapter where
  "GenesisSMDAdapter = \<lparr>ad_Ref = \<lparr>ar_ID = ''sega.genesis.smd'', ar_Version = ''1''\<rparr>,
     ad_Platform = PlatformGenesis, ad_Detect = smd_detect, ad_Canonicalize = smd_canonicalize\<rparr>"

section \<open>The adapters keep their contract\<close>

lemmas adapter_defs = GameBoyAdapter_def GameBoyColorAdapter_def GameBoyAdvanceAdapter_def
  GenesisBinAdapter_def GenesisSMDAdapter_def

lemma section_size:
  "NewSectionReader src 0 (length (pl_bytes src)) = (b, None) \<Longrightarrow> length b = length (pl_bytes src)"
  using NewSectionReader_done [of src 0 "length (pl_bytes src)" b] by simp

lemma adapter_bareI:
  assumes "\<And>src sz c. ad_Canonicalize A src sz = Inr c \<Longrightarrow>
    ca_Reader c = NewSectionReader src 0 sz \<and> ca_Size c = int sz"
  shows "adapter A"
proof unfold_locales
  fix src c
  assume "ad_Canonicalize A src (length (pl_bytes src)) = Inr c"
  then have c: "ca_Reader c = NewSectionReader src 0 (length (pl_bytes src))" "ca_Size c = int (length (pl_bytes src))"
    using assms by blast+
  show "snd (ca_Reader c) = None \<Longrightarrow> ca_Size c = int (length (fst (ca_Reader c)))"
    using c section_size [of src "fst (ca_Reader c)"] by (metis prod.collapse)
  show "pl_bad src = None \<Longrightarrow> snd (ca_Reader c) = None"
    using c NewSectionReader_whole by simp
qed

interpretation gb: adapter GameBoyAdapter
  by (rule adapter_bareI)
    (auto simp add: GameBoyAdapter_def gb_canonicalize_def gbCanonicalize_def split: sum.splits)

interpretation gbc: adapter GameBoyColorAdapter
  by (rule adapter_bareI)
    (auto simp add: GameBoyColorAdapter_def gb_canonicalize_def gbCanonicalize_def split: sum.splits)

interpretation gba: adapter GameBoyAdvanceAdapter
  by (rule adapter_bareI)
    (auto simp add: GameBoyAdvanceAdapter_def gba_canonicalize_def split: sum.splits)

interpretation bin: adapter GenesisBinAdapter
  by (rule adapter_bareI) (auto simp add: GenesisBinAdapter_def bin_canonicalize_def)

section \<open>De-interleaving\<close>

lemma length_pairs: "length (concat (map (\<lambda>i. [f i, g i]) [0..<n])) = 2 * n"
  by (induction n) simp_all

lemma length_smd_deinterleave [simp]: "length (smd_deinterleave blk) = smdBlockSize"
  by (simp add: smd_deinterleave_def length_pairs smdHalfBlock_def smdBlockSize_def)

lemma pairs_whole:
  "length b = 2 * n \<Longrightarrow> concat (map (\<lambda>i. [b ! (2 * i), b ! (2 * i + 1)]) [0..<n]) = b"
proof (induction n arbitrary: b)
  case (Suc n)
  let ?c = "take (2 * n) b"
  have "concat (map (\<lambda>i. [b ! (2 * i), b ! (2 * i + 1)]) [0..<n]) =
      concat (map (\<lambda>i. [?c ! (2 * i), ?c ! (2 * i + 1)]) [0..<n])"
    by (rule arg_cong [of _ _ concat]) (auto intro!: map_cong)
  also have "\<dots> = ?c"
    using Suc by simp
  finally have head: "concat (map (\<lambda>i. [b ! (2 * i), b ! (2 * i + 1)]) [0..<n]) = ?c" .
  have "drop (2 * n) b = [b ! (2 * n), b ! (2 * n + 1)]"
    using Suc.prems by (simp add: Cons_nth_drop_Suc [symmetric])
  then have "?c @ [b ! (2 * n), b ! (2 * n + 1)] = b"
    by (metis append_take_drop_id)
  then show ?case
    using head by simp
qed simp

text \<open>What a copier writes: the odd bytes of a block, then the even ones.\<close>

definition smd_interleave :: "bytes \<Rightarrow> bytes" where
  "smd_interleave blk =
     map (\<lambda>i. blk ! (2 * i + 1)) [0..<smdHalfBlock] @ map (\<lambda>i. blk ! (2 * i)) [0..<smdHalfBlock]"

lemma length_smd_interleave [simp]: "length (smd_interleave blk) = smdBlockSize"
  by (simp add: smd_interleave_def smdHalfBlock_def smdBlockSize_def)

lemma smd_deinterleave_interleave:
  assumes "length blk = smdBlockSize"
  shows "smd_deinterleave (smd_interleave blk) = blk"
proof -
  have "smd_deinterleave (smd_interleave blk) =
      concat (map (\<lambda>i. [blk ! (2 * i), blk ! (2 * i + 1)]) [0..<smdHalfBlock])"
    unfolding smd_deinterleave_def
    by (rule arg_cong [of _ _ concat]) (auto simp add: smd_interleave_def nth_append intro!: map_cong)
  also have "\<dots> = blk"
    using assms by (intro pairs_whole) (simp add: smdHalfBlock_def smdBlockSize_def)
  finally show ?thesis .
qed

function smd_encode :: "bytes \<Rightarrow> bytes" where
  "smd_encode b = (if length b < smdBlockSize then [] else
     smd_interleave (take smdBlockSize b) @ smd_encode (drop smdBlockSize b))"
  by auto
termination
  by (relation "measure length") (auto simp add: smdBlockSize_def)

declare smd_encode.simps [simp del]

lemma smd_block_pos: "0 < smdBlockSize"
  by (simp add: smdBlockSize_def)

lemma smd_encode_whole:
  "smdBlockSize dvd length img \<Longrightarrow>
    length (smd_encode img) = length img \<and> smd_blocks (smd_encode img) None = (img, SmdEOF)"
proof (induction img rule: smd_encode.induct)
  case (1 b)
  show ?case
  proof (cases "length b < smdBlockSize")
    case True
    then have "b = []"
      using 1(2) by (auto dest: dvd_imp_le)
    then show ?thesis
      using smd_block_pos by (simp add: smd_encode.simps smd_blocks.simps)
  next
    case False
    then have "smdBlockSize dvd length (drop smdBlockSize b)"
      using 1(2) by (simp add: dvd_diff_nat)
    then have ih: "length (smd_encode (drop smdBlockSize b)) = length b - smdBlockSize"
      "smd_blocks (smd_encode (drop smdBlockSize b)) None = (drop smdBlockSize b, SmdEOF)"
      using 1(1) False by simp_all
    have enc: "smd_encode b = smd_interleave (take smdBlockSize b) @ smd_encode (drop smdBlockSize b)"
      using False by (simp add: smd_encode.simps [of b])
    have "smd_deinterleave (smd_interleave (take smdBlockSize b)) = take smdBlockSize b"
      using False by (intro smd_deinterleave_interleave) simp
    then have "smd_blocks (smd_encode b) None = (take smdBlockSize b @ drop smdBlockSize b, SmdEOF)"
      unfolding enc using ih(2) by (subst smd_blocks.simps) simp
    then show ?thesis
      using enc ih(1) False by simp
  qed
qed

lemma smd_blocks_end:
  "smd_blocks b ending = (out, e) \<Longrightarrow> length out \<le> length b \<and>
    (case ending of Some x \<Rightarrow> e = SmdRead x | None \<Rightarrow>
       if smdBlockSize dvd length b then e = SmdEOF \<and> length out = length b
       else \<exists>n. e = SmdTruncated n)"
proof (induction b ending arbitrary: out e rule: smd_blocks.induct)
  case (1 b ending)
  show ?case
  proof (cases "length b \<ge> smdBlockSize")
    case True
    obtain out' e' where r: "smd_blocks (drop smdBlockSize b) ending = (out', e')"
      by fastforce
    then have o: "out = smd_deinterleave (take smdBlockSize b) @ out'" "e = e'"
      using 1(2) True by (simp_all add: smd_blocks.simps [of b])
    have "smdBlockSize dvd length b \<longleftrightarrow> smdBlockSize dvd (length b - smdBlockSize)"
      using True by (simp add: dvd_minus_self)
    then show ?thesis
      using 1(1) [OF True r] o True by (auto split: option.splits)
  next
    case False
    have "smdBlockSize dvd length b \<longleftrightarrow> b = []"
      using False by (auto dest: dvd_imp_le)
    then show ?thesis
      using 1(2) False by (auto simp add: smd_blocks.simps [of b] split: option.splits if_splits)
  qed
qed

interpretation smd: adapter GenesisSMDAdapter
proof unfold_locales
  fix src :: payload and c
  let ?n = "length (pl_bytes src)"
  assume "ad_Canonicalize GenesisSMDAdapter src ?n = Inr c"
  then have sh: "smdSizeShaped ?n" and c: "ca_Size c = int (?n - smdHeaderSize)"
    "ca_Reader c = smd_stream (NewSectionReader src smdHeaderSize (?n - smdHeaderSize))"
    by (auto simp add: GenesisSMDAdapter_def smd_canonicalize_def Let_def split: if_splits)
  have dv: "smdBlockSize dvd (?n - smdHeaderSize)"
    using sh by (auto simp add: smdSizeShaped_def)
  obtain b e where sec: "NewSectionReader src smdHeaderSize (?n - smdHeaderSize) = (b, e)"
    by fastforce
  obtain out fin where bl: "smd_blocks b e = (out, fin)"
    by fastforce
  have whole: "length b = ?n - smdHeaderSize" if "e = None"
    using NewSectionReader_done sec that by fastforce
  note ends = smd_blocks_end [OF bl]
  show "ca_Size c = int (length (fst (ca_Reader c)))" if "snd (ca_Reader c) = None"
  proof -
    have "e = None"
      using that c(2) sec bl ends by (auto simp add: smd_stream_def split: smd_error.splits option.splits)
    then show ?thesis
      using c sec bl ends whole dv by (auto simp add: smd_stream_def)
  qed
  show "snd (ca_Reader c) = None" if "pl_bad src = None"
  proof -
    have "e = None"
      using NewSectionReader_whole [OF that] sec by simp
    then show ?thesis
      using c(2) sec bl ends whole dv by (auto simp add: smd_stream_def)
  qed
qed

section \<open>The reader and its stream\<close>

text \<open>What is still to come from a reader.\<close>

definition smd_pending :: "smdDeinterleaver \<Rightarrow> bytes \<times> smd_error" where
  "smd_pending d =
     (case sd_err d of
        Some e \<Rightarrow> (drop (sd_pos d) (sd_out d), e)
      | None \<Rightarrow> (case smd_blocks (fst (sd_src d)) (snd (sd_src d)) of
          (b, e) \<Rightarrow> (drop (sd_pos d) (sd_out d) @ b, e)))"

definition smd_ready :: "smdDeinterleaver \<Rightarrow> bool" where
  "smd_ready d = (sd_err d \<noteq> None \<longrightarrow> length (sd_out d) \<le> sd_pos d)"

lemma smd_copy_pending:
  assumes "smd_copy d n = (d', b, e)" "sd_err d = None"
  shows "e = None \<and> smd_ready d' \<and> smd_pending d = (b @ fst (smd_pending d'), snd (smd_pending d')) \<and>
    (0 < n \<longrightarrow> sd_pos d < length (sd_out d) \<longrightarrow> b \<noteq> [])"
proof -
  let ?o = "drop (sd_pos d) (sd_out d)"
  have "take n ?o @ drop (sd_pos d + length (take n ?o)) (sd_out d) = ?o"
    by (cases "n \<le> length ?o") (simp_all add: add.commute flip: drop_drop)
  then show ?thesis
    using assms by (auto simp add: smd_copy_def smd_pending_def smd_ready_def Let_def split: prod.splits)
qed

lemma smd_blocks_long:
  "smdBlockSize \<le> length b \<Longrightarrow> smd_blocks b ending =
    (smd_deinterleave (take smdBlockSize b) @ fst (smd_blocks (drop smdBlockSize b) ending),
     snd (smd_blocks (drop smdBlockSize b) ending))"
  by (simp add: smd_blocks.simps [of b] split: prod.splits)

lemma smd_blocks_short:
  "\<not> smdBlockSize \<le> length b \<Longrightarrow> smd_blocks b ending =
    ([], case ending of Some e \<Rightarrow> SmdRead e | None \<Rightarrow> if b = [] then SmdEOF else SmdTruncated (length b))"
  by (simp add: smd_blocks.simps [of b] split: option.splits)

lemma smd_fill_pending:
  assumes "smd_fill d = (d', e)" "sd_err d = None" "length (sd_out d) \<le> sd_pos d"
  shows "case e of
      Some x \<Rightarrow> smd_pending d = ([], x) \<and> sd_out d' = sd_out d \<and> sd_pos d' = sd_pos d
    | None \<Rightarrow> smd_pending d = smd_pending d' \<and> sd_err d' = None \<and> sd_pos d' < length (sd_out d')"
  using assms smd_block_pos
  by (cases "sd_src d")
    (auto simp add: smd_fill_def smd_pending_def smd_blocks_long smd_blocks_short Let_def split_beta
      split: option.splits if_splits)

lemma smd_Read_pending:
  assumes "smd_Read d n = (d', b, e)" "smd_ready d"
  shows "smd_ready d' \<and> (case e of
      Some x \<Rightarrow> b = [] \<and> smd_pending d = ([], x)
    | None \<Rightarrow> smd_pending d = (b @ fst (smd_pending d'), snd (smd_pending d')) \<and> (0 < n \<longrightarrow> b \<noteq> []))"
proof (cases "length (sd_out d) \<le> sd_pos d")
  case True
  show ?thesis
  proof (cases "sd_err d")
    case None
    obtain d1 e1 where f: "smd_fill d = (d1, e1)"
      by fastforce
    note fp = smd_fill_pending [OF f None True]
    show ?thesis
    proof (cases e1)
      case (Some x)
      then show ?thesis
        using assms(1) True None f fp by (auto simp add: smd_Read_def smd_ready_def)
    next
      case e1: None
      then have "smd_copy d1 n = (d', b, e)"
        using assms(1) True None f by (simp add: smd_Read_def)
      then show ?thesis
        using smd_copy_pending [of d1 n d' b e] fp e1 by auto
    qed
  next
    case (Some x)
    then show ?thesis
      using assms True by (auto simp add: smd_Read_def smd_pending_def split: option.split)
  qed
next
  case False
  then have "sd_err d = None" "smd_copy d n = (d', b, e)"
    using assms by (auto simp add: smd_ready_def smd_Read_def)
  then show ?thesis
    using smd_copy_pending [of d n d' b e] False by auto
qed

text \<open>Reading with a sequence of buffer sizes, until the reader ends.\<close>

fun smd_reads :: "smdDeinterleaver \<Rightarrow> nat list \<Rightarrow> bytes \<times> smd_error option" where
  "smd_reads d [] = ([], None)"
| "smd_reads d (n # ns) =
     (case smd_Read d n of
        (d', b, Some e) \<Rightarrow> (b, Some e)
      | (d', b, None) \<Rightarrow> (case smd_reads d' ns of (rest, e) \<Rightarrow> (b @ rest, e)))"

lemma smd_reads_pending:
  "smd_ready d \<Longrightarrow> \<forall>n\<in>set ns. 0 < n \<Longrightarrow> length (fst (smd_pending d)) < length ns \<Longrightarrow>
    smd_reads d ns = (fst (smd_pending d), Some (snd (smd_pending d)))"
proof (induction ns arbitrary: d)
  case (Cons n ns)
  obtain d' b e where r: "smd_Read d n = (d', b, e)"
    by (metis prod_cases3)
  note rp = smd_Read_pending [OF r Cons.prems(1)]
  show ?case
  proof (cases e)
    case (Some x)
    then show ?thesis
      using r rp by simp
  next
    case None
    then have p: "smd_pending d = (b @ fst (smd_pending d'), snd (smd_pending d'))" "b \<noteq> []"
      using rp Cons.prems(2) by simp_all
    then have "length (fst (smd_pending d')) < length ns"
      using Cons.prems(3) by (cases b) auto
    then show ?thesis
      using Cons.IH [of d'] rp Cons.prems(2) r None p(1) by simp
  qed
qed simp

section \<open>Properties\<close>

text \<open>Buffering never changes the canonical bytes: a caller that reads the de-interleaver with
  buffers of any positive sizes, often enough, gets the de-interleaved blocks in order and then
  the one error or end the source has.\<close>

theorem smd_reader_streams:
  assumes "\<forall>n\<in>set ns. 0 < n" and "length (fst src) < length ns"
  shows "smd_reads (newSMDDeinterleaver src) ns =
    (fst (smd_blocks (fst src) (snd src)), Some (snd (smd_blocks (fst src) (snd src))))"
proof -
  obtain out e where b: "smd_blocks (fst src) (snd src) = (out, e)"
    by fastforce
  have "smd_pending (newSMDDeinterleaver src) = (out, e)"
    using b by (simp add: smd_pending_def newSMDDeinterleaver_def)
  moreover have "length out \<le> length (fst src)"
    using smd_blocks_end [OF b] by simp
  ultimately show ?thesis
    using smd_reads_pending [of "newSMDDeinterleaver src" ns] assms b
    by (simp add: smd_ready_def newSMDDeinterleaver_def)
qed

theorem smd_reader_streams_witness:
  "smd_reads (newSMDDeinterleaver ([1, 2, 3], None)) [1, 2, 3, 4] = ([], Some (SmdTruncated 3))"
  using smd_reader_streams [of "[1, 2, 3, 4]" "([1, 2, 3], None)"]
  by (simp add: smd_blocks.simps smdBlockSize_def)

text \<open>The same game in either encoding has one canonical payload: for every plain image of
  whole blocks and every copier header, the Super Magic Drive adapter turns the copier's file
  into exactly the stream and the size the plain adapter gives for the image itself.\<close>

theorem smd_and_bin_agree:
  assumes "length header = smdHeaderSize" and "img \<noteq> []" and "smdBlockSize dvd length img"
  shows "\<exists>smd bin. smd_canonicalize \<lparr>pl_bytes = header @ smd_encode img, pl_bad = None\<rparr>
      (smdHeaderSize + length img) = Inr smd \<and>
    bin_canonicalize \<lparr>pl_bytes = img, pl_bad = None\<rparr> (length img) = Inr bin \<and>
    ca_Reader smd = (img, None) \<and> ca_Reader bin = (img, None) \<and> ca_Size smd = ca_Size bin"
proof -
  have enc: "length (smd_encode img) = length img" "smd_blocks (smd_encode img) None = (img, SmdEOF)"
    using smd_encode_whole [OF assms(3)] by simp_all
  have "smdSizeShaped (smdHeaderSize + length img)"
    using assms(2,3) by (simp add: smdSizeShaped_def)
  then show ?thesis
    using assms(1) enc
    by (simp add: smd_canonicalize_def bin_canonicalize_def NewSectionReader_whole smd_stream_def Let_def)
qed

theorem smd_and_bin_agree_witness:
  "\<exists>smd. smd_canonicalize \<lparr>pl_bytes = replicate 512 0 @ smd_encode (replicate 16384 7), pl_bad = None\<rparr> 16896 = Inr smd \<and>
    ca_Reader smd = (replicate 16384 7, None)"
  using smd_and_bin_agree [of "replicate 512 0" "replicate 16384 7"]
  by (auto simp add: smdHeaderSize_def smdBlockSize_def)

end
