(* ===== verification/NintendoDS.thy ===== *)
theory NintendoDS
  imports Adapters
begin

text \<open>
  The Nintendo DS adapter, \<open>src/verify/nds.go\<close>: the header checks, the decision table of
  \<open>Canonicalize\<close>, and the padding that restores a trimmed dump, as the reader \<open>padReader\<close> and as the
  stream it stands for.
\<close>

unbundle bit_operations_syntax

section \<open>The header\<close>

definition ndsGameCodeOffset :: nat where "ndsGameCodeOffset = 0x0C"
definition ndsCapacityOffset :: nat where "ndsCapacityOffset = 0x14"
definition ndsUsedSizeOffset :: nat where "ndsUsedSizeOffset = 0x80"
definition ndsLogoCRCOffset :: nat where "ndsLogoCRCOffset = 0x15C"
definition ndsHeaderCRCOffset :: nat where "ndsHeaderCRCOffset = 0x15E"
definition ndsHeaderCRCCoverage :: nat where "ndsHeaderCRCCoverage = 0x15E"
definition ndsHeaderSize :: nat where "ndsHeaderSize = 0x200"
definition ndsLogoCRCExpected :: "16 word" where "ndsLogoCRCExpected = 0xCF56"
definition ndsMaxCapacityShift :: "8 word" where "ndsMaxCapacityShift = 12"

definition crc16_bit :: "16 word \<Rightarrow> 16 word" where
  "crc16_bit crc = (if crc AND 1 \<noteq> 0 then drop_bit 1 crc XOR 0xA001 else drop_bit 1 crc)"

definition crc16Modbus :: "bytes \<Rightarrow> 16 word" where
  "crc16Modbus data = foldl (\<lambda>crc b. (crc16_bit ^^ 8) (crc XOR ucast b)) 0xFFFF data"

definition ndsCapacityBytes :: "8 word \<Rightarrow> nat option" where
  "ndsCapacityBytes field =
     (if field > ndsMaxCapacityShift then None else Some (128 * 1024 * 2 ^ unat field))"

text \<open>\<open>binary.LittleEndian\<close>.\<close>

definition le_uint16 :: "bytes \<Rightarrow> 16 word" where
  "le_uint16 b = ucast (b ! 0) OR push_bit 8 (ucast (b ! 1))"

definition le_uint32 :: "bytes \<Rightarrow> 32 word" where
  "le_uint32 b = ucast (b ! 0) OR push_bit 8 (ucast (b ! 1)) OR push_bit 16 (ucast (b ! 2)) OR
     push_bit 24 (ucast (b ! 3))"

definition ndsHeaderCRCValid :: "Peek \<Rightarrow> bool \<times> bool" where
  "ndsHeaderCRCValid p =
     (case peek_Range p 0 ndsHeaderCRCCoverage of
        None \<Rightarrow> (False, False)
      | Some region \<Rightarrow>
        (case peek_Range p ndsHeaderCRCOffset (ndsHeaderCRCOffset + 2) of
           None \<Rightarrow> (False, False)
         | Some stored \<Rightarrow> (crc16Modbus region = le_uint16 stored, True)))"

definition ndsLogoCRCValid :: "Peek \<Rightarrow> bool \<times> bool" where
  "ndsLogoCRCValid p =
     (case peek_Range p ndsLogoCRCOffset (ndsLogoCRCOffset + 2) of
        None \<Rightarrow> (False, False)
      | Some stored \<Rightarrow> (le_uint16 stored = ndsLogoCRCExpected, True))"

definition ndsGameCodePlausible :: "Peek \<Rightarrow> bool" where
  "ndsGameCodePlausible p =
     (case peek_Range p ndsGameCodeOffset (ndsGameCodeOffset + 4) of
        None \<Rightarrow> False
      | Some code \<Rightarrow> list_all (\<lambda>c. (c \<ge> 0x41 \<and> c \<le> 0x5A) \<or> (c \<ge> 0x30 \<and> c \<le> 0x39)) code)"

definition ndsHeaderShapePlausible :: "Peek \<Rightarrow> bool" where
  "ndsHeaderShapePlausible p =
     (if \<not> ndsGameCodePlausible p then False
      else case peek_Range p 0x15 0x1E of
        None \<Rightarrow> False
      | Some reserved \<Rightarrow>
        if \<not> list_all (\<lambda>b. b = 0) reserved then False
        else case peek_At p ndsCapacityOffset of
          None \<Rightarrow> False
        | Some capField \<Rightarrow>
          (case ndsCapacityBytes capField of
             None \<Rightarrow> False
           | Some capacity \<Rightarrow>
             (case peek_Range p ndsUsedSizeOffset (ndsUsedSizeOffset + 4) of
                None \<Rightarrow> False
              | Some usedRaw \<Rightarrow>
                let used = unat (le_uint32 usedRaw) in used \<ge> ndsHeaderSize \<and> used \<le> capacity)))"

section \<open>The adapter\<close>

definition nds_detect :: "Peek \<Rightarrow> Confidence" where
  "nds_detect p =
     (if pk_Size p < ndsHeaderSize then ConfidenceNone
      else let (logoOK, logoChecked) = ndsLogoCRCValid p; (headerOK, headerChecked) = ndsHeaderCRCValid p in
      if logoChecked \<and> logoOK \<and> headerChecked \<and> headerOK then ConfidenceStrong
      else if logoChecked \<and> logoOK then ConfidenceStrong
      else if headerChecked \<and> headerOK \<and> ndsGameCodePlausible p then ConfidenceStrong
      else if ndsHeaderShapePlausible p then ConfidenceWeak
      else ConfidenceNone)"

record padReader =
  pd_b :: "8 word"
  pd_remaining :: nat

definition newPadReader :: "8 word \<Rightarrow> nat \<Rightarrow> padReader" where
  "newPadReader b n = \<lparr>pd_b = b, pd_remaining = n\<rparr>"

text \<open>\<open>Read\<close>: \<open>None\<close> is the end.\<close>

definition pad_Read :: "padReader \<Rightarrow> nat \<Rightarrow> padReader \<times> bytes option" where
  "pad_Read p n =
     (if pd_remaining p \<le> 0 then (p, None)
      else let k = (if n > pd_remaining p then pd_remaining p else n) in
        (p\<lparr>pd_remaining := pd_remaining p - k\<rparr>, Some (replicate k (pd_b p))))"

definition pad_stream :: "padReader \<Rightarrow> stream" where
  "pad_stream p = (replicate (pd_remaining p) (pd_b p), None)"

definition nds_canonicalize :: "payload \<Rightarrow> nat \<Rightarrow> string + Canonical" where
  "nds_canonicalize src sz =
     (case peekFrom src sz '''' of
        Inl e \<Rightarrow> Inl e
      | Inr p \<Rightarrow>
        if sz < ndsHeaderSize then Inl ''nds: payload is shorter than the header''
        else let notes = (let (ok, checked) = ndsHeaderCRCValid p in
              if checked \<and> \<not> ok then [NoteHeaderCRC] else []);
            whole = (\<lambda>n. Inr \<lparr>ca_Reader = NewSectionReader src 0 sz, ca_Size = int sz, ca_Notes = notes @ [n]\<rparr>) in
        case peek_At p ndsCapacityOffset of
          None \<Rightarrow> Inl ''nds: could not read the device capacity field''
        | Some capField \<Rightarrow>
          (case ndsCapacityBytes capField of
             None \<Rightarrow> whole (NoteBadCapacity capField)
           | Some capacity \<Rightarrow>
             (case peek_Range p ndsUsedSizeOffset (ndsUsedSizeOffset + 4) of
                None \<Rightarrow> Inl ''nds: could not read the used-size field''
              | Some usedRaw \<Rightarrow>
                (let used = unat (le_uint32 usedRaw) in
                 if sz = capacity then whole NoteFullDump
                 else if sz > capacity then whole (NoteOverdump sz capacity)
                 else if used > 0 \<and> sz < used then whole (NoteIncomplete sz used)
                 else let pad = capacity - sz in
                   Inr \<lparr>ca_Reader = MultiReader [NewSectionReader src 0 sz, pad_stream (newPadReader 0xFF pad)],
                     ca_Size = int capacity, ca_Notes = notes @ [NoteTrimmed pad capacity]\<rparr>))))"

definition NintendoDSAdapter :: Adapter where
  "NintendoDSAdapter = \<lparr>ad_Ref = \<lparr>ar_ID = ''nintendo.nds'', ar_Version = ''1''\<rparr>,
     ad_Platform = PlatformNDS, ad_Detect = nds_detect, ad_Canonicalize = nds_canonicalize\<rparr>"

section \<open>The padding reader\<close>

fun pad_reads :: "padReader \<Rightarrow> nat list \<Rightarrow> bytes" where
  "pad_reads p [] = []"
| "pad_reads p (n # ns) = (case pad_Read p n of (p', None) \<Rightarrow> [] | (p', Some b) \<Rightarrow> b @ pad_reads p' ns)"

lemma pad_reads_stream:
  "\<forall>n\<in>set ns. 0 < n \<Longrightarrow> pd_remaining p \<le> length ns \<Longrightarrow> pad_reads p ns = fst (pad_stream p)"
proof (induction ns arbitrary: p)
  case (Cons n ns)
  show ?case
  proof (cases "pd_remaining p = 0")
    case True
    then show ?thesis
      by (simp add: pad_Read_def pad_stream_def)
  next
    case False
    let ?k = "if n > pd_remaining p then pd_remaining p else n"
    have k: "0 < ?k" "?k \<le> pd_remaining p"
      using False Cons.prems(1) by simp_all
    then have "pad_reads (p\<lparr>pd_remaining := pd_remaining p - ?k\<rparr>) ns = replicate (pd_remaining p - ?k) (pd_b p)"
      using Cons.IH [of "p\<lparr>pd_remaining := pd_remaining p - ?k\<rparr>"] Cons.prems by (simp add: pad_stream_def)
    then have "pad_reads p (n # ns) = replicate ?k (pd_b p) @ replicate (pd_remaining p - ?k) (pd_b p)"
      using False by (simp add: pad_Read_def Let_def)
    also have "\<dots> = replicate (?k + (pd_remaining p - ?k)) (pd_b p)"
      by (rule replicate_add [symmetric])
    finally show ?thesis
      using k(2) by (simp add: pad_stream_def)
  qed
qed (simp add: pad_stream_def)

section \<open>The decision table\<close>





interpretation nds: adapter NintendoDSAdapter
proof unfold_locales
  fix src :: payload and c
  let ?n = "length (pl_bytes src)"
  assume "ad_Canonicalize NintendoDSAdapter src ?n = Inr c"
  then have c: "ca_Reader c = NewSectionReader src 0 ?n \<and> ca_Size c = int ?n \<or>
      (\<exists>cap. ?n < cap \<and> ca_Size c = int cap \<and>
        ca_Reader c = MultiReader [NewSectionReader src 0 ?n, pad_stream (newPadReader 0xFF (cap - ?n))])"
    by (auto simp add: NintendoDSAdapter_def nds_canonicalize_def Let_def
        split: sum.splits option.splits if_splits)
  obtain b e where sec: "NewSectionReader src 0 ?n = (b, e)"
    by fastforce
  have len: "length b = ?n" if "e = None"
    using NewSectionReader_done [of src 0 ?n b] sec that by simp
  show "snd (ca_Reader c) = None \<Longrightarrow> ca_Size c = int (length (fst (ca_Reader c)))"
    using c sec len by (cases e) (auto simp add: pad_stream_def newPadReader_def)
  show "pl_bad src = None \<Longrightarrow> snd (ca_Reader c) = None"
    using c sec NewSectionReader_whole [of src 0 ?n] by (auto simp add: pad_stream_def newPadReader_def)
qed

section \<open>Properties\<close>



end
