(* ===== verification/Analyze.thy ===== *)
theory Analyze
  imports Cartridges NintendoDS
begin

text \<open>
  The analysis of one stored file, \<open>src/verify/analyze.go\<close>, and the registry of
  \<open>DefaultRegistry\<close>.  What \<open>archive/zip\<close> finds in a payload is a parameter: the entries of the
  archive, each with what opening and decompressing it gives.
\<close>

section \<open>Archives\<close>

record zip_entry =
  ze_Name :: string
  ze_IsDir :: bool
  ze_UncompressedSize64 :: "64 word"
  ze_CRC32 :: "32 word"
  ze_Open :: "string + stream"

type_synonym zip_reader = "payload \<Rightarrow> nat \<Rightarrow> string + zip_entry list"

definition declared_size :: "zip_entry \<Rightarrow> int" where
  "declared_size f = sint (ze_UncompressedSize64 f)"

text \<open>\<open>io.LimitReader\<close>.\<close>

definition LimitReader :: "stream \<Rightarrow> int \<Rightarrow> stream" where
  "LimitReader r n = (if int (length (fst r)) \<ge> n then (take (nat n) (fst r), None) else r)"

definition unsafeArchiveName :: "string \<Rightarrow> bool" where
  "unsafeArchiveName name =
     (if name = '''' then True
      else if CHR 0x00 \<in> set name then True
      else if has_prefix name ''/'' \<or> has_prefix name [CHR 0x5C] then True
      else if length name \<ge> 2 \<and> name ! 1 = CHR '':'' then True
      else list_ex (\<lambda>part. part = ''..'')
        (split_char CHR ''/'' (map (\<lambda>c. if c = CHR 0x5C then CHR ''/'' else c) name)))"

section \<open>The analyzer\<close>

definition DefaultRegistry :: "Registry option" where
  "DefaultRegistry = foldl (\<lambda>r a. case r of None \<Rightarrow> None | Some x \<Rightarrow> Register x a) (Some NewRegistry)
     [GameBoyAdapter, GameBoyColorAdapter, GameBoyAdvanceAdapter, NintendoDSAdapter, GenesisBinAdapter,
      GenesisSMDAdapter]"

text \<open>\<open>az_Temp\<close> and \<open>az_Spill\<close>: whether creating the temporary file, or writing to it, fails.\<close>

record Analyzer =
  az_Registry :: "Registry option"
  az_MaxInMemory :: int
  az_MaxArchiveMember :: int
  az_Temp :: "string option"
  az_Spill :: "string option"

definition DefaultMaxInMemory :: int where "DefaultMaxInMemory = 64 * 2 ^ 20"
definition DefaultMaxArchiveMember :: int where "DefaultMaxArchiveMember = 2 * 2 ^ 30"

definition registry :: "Analyzer \<Rightarrow> Registry" where
  "registry a =
     (case az_Registry a of
        Some r \<Rightarrow> r
      | None \<Rightarrow> (case DefaultRegistry of Some r \<Rightarrow> r | None \<Rightarrow> []))"

definition maxInMemory :: "Analyzer \<Rightarrow> int" where
  "maxInMemory a = (if az_MaxInMemory a > 0 then az_MaxInMemory a else DefaultMaxInMemory)"

definition maxArchiveMember :: "Analyzer \<Rightarrow> int" where
  "maxArchiveMember a = (if az_MaxArchiveMember a > 0 then az_MaxArchiveMember a else DefaultMaxArchiveMember)"

definition materialize :: "Analyzer \<Rightarrow> zip_entry \<Rightarrow> string + (payload \<times> nat)" where
  "materialize a f =
     (case ze_Open f of
        Inl e \<Rightarrow> Inl ''the archive entry could not be opened''
      | Inr rc \<Rightarrow>
        (let declared = declared_size f; limit = maxArchiveMember a in
         if declared \<le> maxInMemory a then
           (case LimitReader rc (declared + 1) of
              (buf, Some e) \<Rightarrow> Inl ''the archive entry could not be decompressed''
            | (buf, None) \<Rightarrow>
              if int (length buf) \<noteq> declared
              then Inl ''the archive entry decompresses to a different length''
              else Inr (\<lparr>pl_bytes = buf, pl_bad = None\<rparr>, nat declared))
         else if az_Temp a \<noteq> None then Inl ''could not create a temporary file''
         else case LimitReader rc (limit + 1) of
             (buf, e) \<Rightarrow>
               if e \<noteq> None \<or> az_Spill a \<noteq> None then Inl ''the archive entry could not be decompressed''
               else if int (length buf) > limit then Inl ''the archive entry expanded beyond the limit''
               else if int (length buf) \<noteq> declared then Inl ''the archive entry decompressed to another length''
               else Inr (\<lparr>pl_bytes = buf, pl_bad = None\<rparr>, length buf)))"

text \<open>The loop over the entries: the members to record, the candidates, and the notes.\<close>

fun usable_entries :: "Analyzer \<Rightarrow> zip_entry list \<Rightarrow> zip_entry list \<times> vnote list" where
  "usable_entries a [] = ([], [])"
| "usable_entries a (f # fs) =
     (let (cs, ns) = usable_entries a fs in
      if ze_IsDir f then (cs, ns)
      else if unsafeArchiveName (ze_Name f) then (cs, NoteUnsafeName (ze_Name f) # ns)
      else if declared_size f > maxArchiveMember a
        then (cs, NoteTooLarge (ze_Name f) (uint (ze_UncompressedSize64 f)) (maxArchiveMember a) # ns)
      else (f # cs, ns))"

text \<open>\<open>%08x\<close> of a checksum.\<close>

definition crc_hex :: "32 word \<Rightarrow> string" where
  "crc_hex w = hex_encode (map (\<lambda>i. ucast (drop_bit (8 * (3 - i)) w)) [0..<4])"

definition container_member :: "zip_entry \<Rightarrow> ContainerMember" where
  "container_member f = \<lparr>cm_Name = ze_Name f, cm_Size = declared_size f, cm_CRC32 = crc_hex (ze_CRC32 f)\<rparr>"

record unwrapped =
  uw_inner :: "(payload \<times> nat \<times> string) option"
  uw_container :: "ContainerInfo option"
  uw_notes :: "vnote list"
  uw_err :: "string option"

definition zip_magic :: bytes where "zip_magic = [0x50, 0x4B, 0x03, 0x04]"

text \<open>The archive's entries, listed: exactly one usable member is the payload.\<close>

definition unwrap_files :: "Analyzer \<Rightarrow> zip_entry list \<Rightarrow> unwrapped" where
  "unwrap_files a files =
     (let (candidates, notes) = usable_entries a files;
          info = Some \<lparr>ci_Kind = ContainerZip, ci_Members = map container_member candidates\<rparr> in
      case candidates of
        [] \<Rightarrow> \<lparr>uw_inner = None, uw_container = info, uw_notes = notes,
           uw_err = Some ''the archive contains no usable entries''\<rparr>
      | [member] \<Rightarrow>
          (case materialize a member of
             Inl e \<Rightarrow> \<lparr>uw_inner = None, uw_container = info, uw_notes = notes, uw_err = Some e\<rparr>
           | Inr (ra, n) \<Rightarrow> \<lparr>uw_inner = Some (ra, n, ze_Name member), uw_container = info,
               uw_notes = notes @ [NoteZipMember (ze_Name member)], uw_err = None\<rparr>)
      | _ \<Rightarrow> \<lparr>uw_inner = None, uw_container = info,
           uw_notes = notes @ [NoteManyEntries (length candidates)], uw_err = None\<rparr>)"

definition unwrap :: "zip_reader \<Rightarrow> Analyzer \<Rightarrow> payload \<Rightarrow> nat \<Rightarrow> string \<Rightarrow> unwrapped" where
  "unwrap zr a src sz name =
     (let (b, ending) = (if sz \<ge> 4 then ReadAt src 0 4 else ([], ReadFull));
          head = b @ replicate (4 - length b) 0 in
      if ending = ReadFailed
        then \<lparr>uw_inner = None, uw_container = None, uw_notes = [], uw_err = Some ''verify: reading container header''\<rparr>
      else if sz < 4 \<or> head \<noteq> zip_magic
        then \<lparr>uw_inner = Some (src, sz, name), uw_container = Some \<lparr>ci_Kind = ContainerNone, ci_Members = []\<rparr>,
          uw_notes = [], uw_err = None\<rparr>
      else case zr src sz of
        Inl e \<Rightarrow> \<lparr>uw_inner = None, uw_container = Some \<lparr>ci_Kind = ContainerZip, ci_Members = []\<rparr>, uw_notes = [],
          uw_err = Some ''the zip archive could not be read''\<rparr>
      | Inr files \<Rightarrow> unwrap_files a files)"

section \<open>The analysis\<close>

datatype verify_error =
    ErrOpening
  | ErrStat
  | ErrHashingStored string
  | ErrReadingHeader string
  | ErrHashingCanonical string
  | ErrPredictedSize AdapterRef int int

record AResult =
  rs_Name :: string
  rs_Platform :: PlatformID
  rs_Stored :: Digest
  rs_Container :: "ContainerInfo option"
  rs_Canonical :: Digest
  rs_Adapter :: AdapterRef
  rs_Confidence :: Confidence
  rs_Canonicalized :: bool
  rs_Notes :: "vnote list"

definition zero_digest :: Digest where
  "zero_digest = \<lparr>d_Size = 0, d_CRC32 = '''', d_MD5 = '''', d_SHA1 = '''', d_SHA256 = ''''\<rparr>"

definition empty_result :: "string \<Rightarrow> AResult" where
  "empty_result name = \<lparr>rs_Name = name, rs_Platform = '''', rs_Stored = zero_digest, rs_Container = None,
     rs_Canonical = zero_digest, rs_Adapter = \<lparr>ar_ID = '''', ar_Version = ''''\<rparr>, rs_Confidence = ConfidenceNone,
     rs_Canonicalized = False, rs_Notes = []\<rparr>"

definition digest_stream :: "hashes \<Rightarrow> stream \<Rightarrow> string + Digest" where
  "digest_stream H r = DigestReader H [fst r] (snd r)"

text \<open>Identities three and four, for the payload inside the container.\<close>

definition analyze_payload :: "hashes \<Rightarrow> Analyzer \<Rightarrow> PlatformID \<Rightarrow> payload \<Rightarrow> nat \<Rightarrow> string \<Rightarrow> AResult
    \<Rightarrow> verify_error + AResult" where
  "analyze_payload H a hint inner n innerName res =
     (case peekFrom inner n innerName of
        Inl e \<Rightarrow> Inl (ErrReadingHeader e)
      | Inr peek \<Rightarrow>
        (let (sel, selNotes) = selectAdapter (registry a) peek hint;
             res1 = res\<lparr>rs_Notes := rs_Notes res @ selNotes\<rparr> in
         case fst sel of
           None \<Rightarrow> Inr (res1\<lparr>rs_Notes := rs_Notes res1 @ [NoteUnrecognised]\<rparr>)
         | Some ad \<Rightarrow>
           (let res2 = res1\<lparr>rs_Platform := ad_Platform ad, rs_Adapter := ad_Ref ad, rs_Confidence := snd sel\<rparr> in
            case ad_Canonicalize ad inner n of
              Inl e \<Rightarrow> Inr (res2\<lparr>rs_Notes := rs_Notes res2 @ [NoteFailed e]\<rparr>)
            | Inr canon \<Rightarrow>
              (case digest_stream H (ca_Reader canon) of
                 Inl e \<Rightarrow> Inl (ErrHashingCanonical e)
               | Inr dg \<Rightarrow>
                 if ca_Size canon \<ge> 0 \<and> ca_Size canon \<noteq> d_Size dg
                 then Inl (ErrPredictedSize (ad_Ref ad) (ca_Size canon) (d_Size dg))
                 else Inr (res2\<lparr>rs_Notes := rs_Notes res2 @ ca_Notes canon, rs_Canonical := dg,
                   rs_Canonicalized := True\<rparr>)))))"

definition Analyze :: "hashes \<Rightarrow> zip_reader \<Rightarrow> Analyzer \<Rightarrow> payload \<Rightarrow> nat \<Rightarrow> string \<Rightarrow> PlatformID
    \<Rightarrow> verify_error + AResult" where
  "Analyze H zr a src sz name hint =
     (case digest_stream H (NewSectionReader src 0 sz) of
        Inl e \<Rightarrow> Inl (ErrHashingStored e)
      | Inr stored \<Rightarrow>
        (let u = unwrap zr a src sz name;
             res = (empty_result name)\<lparr>rs_Stored := stored, rs_Notes := uw_notes u, rs_Container := uw_container u\<rparr> in
         case uw_err u of
           Some e \<Rightarrow> Inr (res\<lparr>rs_Notes := rs_Notes res @ [NoteFailed e]\<rparr>)
         | None \<Rightarrow>
           (case uw_inner u of
              None \<Rightarrow> Inr res
            | Some (inner, n, innerName) \<Rightarrow> analyze_payload H a hint inner n innerName res)))"

text \<open>\<open>path.Base\<close>.\<close>

definition path_base :: "string \<Rightarrow> string" where
  "path_base p =
     (if p = '''' then ''.''
      else let parts = filter (\<lambda>c. c \<noteq> '''') (split_char CHR ''/'' p) in
        if parts = [] then ''/'' else last parts)"

text \<open>\<open>AnalyzeFile\<close>: what opening the file and asking its size give are arguments.\<close>

definition AnalyzeFile :: "hashes \<Rightarrow> zip_reader \<Rightarrow> Analyzer \<Rightarrow> payload option \<Rightarrow> nat option \<Rightarrow> string \<Rightarrow> PlatformID
    \<Rightarrow> verify_error + AResult" where
  "AnalyzeFile H zr a opened stat filePath hint =
     (case opened of
        None \<Rightarrow> Inl ErrOpening
      | Some f \<Rightarrow>
        (case stat of
           None \<Rightarrow> Inl ErrStat
         | Some sz \<Rightarrow> Analyze H zr a f sz (path_base filePath) hint))"

section \<open>Lemmas\<close>

lemma digest_stream_ends [simp]: "digest_stream H (b, None) = Inr (DigestBytes H b)"
  by (simp add: digest_stream_def DigestReader_def DigestBytes_def Let_def)

lemma size_DigestBytes [simp]: "d_Size (DigestBytes H b) = int (length b)"
  by (simp add: DigestBytes_def hasher_Digest_def hasher_Write_def NewHasher_def)

lemma DefaultRegistry_list:
  "DefaultRegistry = Some [GameBoyAdapter, GameBoyColorAdapter, GameBoyAdvanceAdapter, NintendoDSAdapter,
     GenesisBinAdapter, GenesisSMDAdapter]"
  by (simp add: DefaultRegistry_def Register_def NewRegistry_def adapter_defs NintendoDSAdapter_def)

text \<open>Every default adapter keeps the contract, by its interpretation.\<close>

lemma default_adapters:
  assumes "az_Registry a = None" "ad \<in> set (registry a)"
  shows "adapter ad"
  using assms gb.adapter_axioms gbc.adapter_axioms gba.adapter_axioms nds.adapter_axioms bin.adapter_axioms
    smd.adapter_axioms
  by (auto simp add: registry_def DefaultRegistry_list)

lemma declared_uint: "0 \<le> declared_size f \<Longrightarrow> uint (ze_UncompressedSize64 f) = declared_size f"
  using sint_lt [of "ze_UncompressedSize64 f"]
  by (simp add: declared_size_def uint_sint take_bit_int_eq_self)

lemma LimitReader_short:
  assumes "LimitReader r n = (b, None)" "int (length b) < n"
  shows "r = (b, None)"
  using assms by (auto simp add: LimitReader_def split: if_splits)

lemma materialize_exact:
  assumes "materialize a f = Inr (p, n)" "declared_size f \<le> maxArchiveMember a"
  shows "ze_Open f = Inr (pl_bytes p, None) \<and> pl_bad p = None \<and> n = length (pl_bytes p) \<and>
    int n = declared_size f"
proof -
  obtain rc where rc: "ze_Open f = Inr rc"
    using assms(1) by (auto simp add: materialize_def split: sum.splits)
  show ?thesis
  proof (cases "declared_size f \<le> maxInMemory a")
    case True
    then obtain buf where "LimitReader rc (declared_size f + 1) = (buf, None)" "int (length buf) = declared_size f"
      "p = \<lparr>pl_bytes = buf, pl_bad = None\<rparr>" "n = nat (declared_size f)"
      using assms(1) rc by (auto simp add: materialize_def Let_def split: prod.splits option.splits if_splits)
    then show ?thesis
      using rc LimitReader_short [of rc "declared_size f + 1" buf] by simp
  next
    case False
    then obtain buf where "LimitReader rc (maxArchiveMember a + 1) = (buf, None)" "int (length buf) = declared_size f"
      "p = \<lparr>pl_bytes = buf, pl_bad = None\<rparr>" "n = length buf"
      using assms(1) rc by (auto simp add: materialize_def Let_def split: prod.splits option.splits if_splits)
    then show ?thesis
      using rc LimitReader_short [of rc "maxArchiveMember a + 1" buf] assms(2) by simp
  qed
qed

definition usable :: "Analyzer \<Rightarrow> zip_entry \<Rightarrow> bool" where
  "usable a f = (\<not> ze_IsDir f \<and> \<not> unsafeArchiveName (ze_Name f) \<and> declared_size f \<le> maxArchiveMember a)"

lemma usable_entries_filter: "fst (usable_entries a fs) = filter (usable a) fs"
proof (induction fs)
  case (Cons f fs)
  obtain cs ns where u: "usable_entries a fs = (cs, ns)"
    by fastforce
  have "fst (usable_entries a (f # fs)) = (if usable a f then f # cs else cs)"
    unfolding usable_entries.simps u by (simp add: usable_def)
  then show ?case
    using Cons.IH u by (simp del: usable_entries.simps)
qed simp

text \<open>What \<open>unwrap\<close> hands on: the stored payload itself, or the one usable member, decompressed to
  exactly its declared size.\<close>

lemma unwrap_files_inner:
  assumes "uw_inner (unwrap_files a files) = Some (inner, n, nm)"
  shows "\<exists>f. fst (usable_entries a files) = [f] \<and> materialize a f = Inr (inner, n) \<and> nm = ze_Name f"
proof -
  obtain cs ns where u: "usable_entries a files = (cs, ns)"
    by fastforce
  then show ?thesis
    using assms by (auto simp add: unwrap_files_def Let_def split: list.splits sum.splits)
qed

lemma unwrap_cases:
  "uw_inner (unwrap zr a src sz name) = Some (inner, n, nm) \<Longrightarrow> (inner = src \<and> n = sz \<and> nm = name) \<or>
    (\<exists>files. zr src sz = Inr files \<and> uw_inner (unwrap_files a files) = Some (inner, n, nm))"
  unfolding unwrap_def Let_def by (auto split: if_splits sum.splits prod.splits)

lemma unwrap_inner:
  assumes "uw_inner (unwrap zr a src sz name) = Some (inner, n, nm)"
  shows "(inner = src \<and> n = sz \<and> nm = name) \<or>
    (\<exists>files f. zr src sz = Inr files \<and> filter (usable a) files = [f] \<and> nm = ze_Name f \<and>
      ze_Open f = Inr (pl_bytes inner, None) \<and> pl_bad inner = None \<and> n = length (pl_bytes inner) \<and>
      int n = declared_size f)"
proof -
  from unwrap_cases [OF assms] show ?thesis
  proof
    assume "\<exists>files. zr src sz = Inr files \<and> uw_inner (unwrap_files a files) = Some (inner, n, nm)"
    then obtain files f where f: "zr src sz = Inr files" "fst (usable_entries a files) = [f]"
      "materialize a f = Inr (inner, n)" "nm = ze_Name f"
      using unwrap_files_inner by blast
    have "f \<in> set (filter (usable a) files)"
      using f(2) by (simp add: usable_entries_filter)
    then have "declared_size f \<le> maxArchiveMember a"
      by (simp add: usable_def)
    then show ?thesis
      using materialize_exact [OF f(3)] f usable_entries_filter by metis
  qed simp
qed

text \<open>A readable payload of known size is analysed without an error, by one of the default adapters
  or by none.\<close>

lemma peekFrom_readable: "pl_bad src = None \<Longrightarrow> \<exists>p. peekFrom src sz name = Inr p"
  by (auto simp add: peekFrom_def ReadAt_bad Let_def split: read_end.splits)

definition canonical_of :: "hashes \<Rightarrow> Registry \<Rightarrow> payload \<Rightarrow> AResult \<Rightarrow> bool" where
  "canonical_of H reg inner r =
     (\<exists>ad c. ad \<in> set reg \<and> rs_Adapter r = ad_Ref ad \<and> rs_Platform r = ad_Platform ad \<and>
        rs_Confidence r \<noteq> ConfidenceNone \<and>
        ad_Canonicalize ad inner (length (pl_bytes inner)) = Inr c \<and>
        rs_Canonical r = DigestBytes H (fst (ca_Reader c)))"

lemma analyze_payload_readable:
  assumes "az_Registry a = None" "pl_bad inner = None" "n = length (pl_bytes inner)"
    "rs_Canonicalized res = False"
  shows "\<exists>r. analyze_payload H a hint inner n nm res = Inr r \<and> rs_Stored r = rs_Stored res \<and>
    (rs_Canonicalized r \<longrightarrow> canonical_of H (registry a) inner r)"
proof -
  obtain p where p: "peekFrom inner n nm = Inr p"
    using peekFrom_readable [OF assms(2)] by blast
  obtain x cf ns where sel: "selectAdapter (registry a) p hint = ((x, cf), ns)"
    by (metis prod.collapse)
  show ?thesis
  proof (cases x)
    case None
    then show ?thesis
      using p sel assms(4) by (simp add: analyze_payload_def Let_def)
  next
    case (Some ad)
    then have best: "ad \<in> set (registry a)" "cf \<noteq> ConfidenceNone"
      using selectAdapter_in [of "registry a" p hint ad cf ns] sel by (auto simp add: best_claim_def)
    show ?thesis
    proof (cases "ad_Canonicalize ad inner n")
      case (Inl e)
      then show ?thesis
        using p sel Some assms(4) by (simp add: analyze_payload_def Let_def)
    next
      case (Inr c)
      have c: "ca_Reader c = (fst (ca_Reader c), None)" "ca_Size c = int (length (fst (ca_Reader c)))"
        using adapter.readable_size [OF default_adapters [OF assms(1) best(1)], of inner c] Inr assms(2,3)
        by simp_all
      have "digest_stream H (ca_Reader c) = Inr (DigestBytes H (fst (ca_Reader c)))"
        by (subst c(1)) (rule digest_stream_ends)
      then show ?thesis
        using p sel Some Inr best assms(3) c(2)
        by (auto simp add: analyze_payload_def canonical_of_def Let_def)
    qed
  qed
qed

section \<open>Properties\<close>

text \<open>With the default adapters every readable file is analysed: the analysis never fails, the size
  an adapter predicts is always right, the stored identity is that of the bytes on disk, and a
  canonical identity is that of the stream one of the default adapters delivers for the file
  itself or for the archive member it holds.\<close>

theorem readable_file_is_analysed:
  assumes "pl_bad src = None" and "az_Registry a = None"
  shows "\<exists>r. Analyze H zr a src (length (pl_bytes src)) name hint = Inr r \<and>
    rs_Stored r = DigestBytes H (pl_bytes src) \<and>
    (rs_Canonicalized r \<longrightarrow> (\<exists>inner. canonical_of H (registry a) inner r \<and>
      (inner = src \<or> (\<exists>files f. zr src (length (pl_bytes src)) = Inr files \<and>
         filter (usable a) files = [f] \<and> ze_Open f = Inr (pl_bytes inner, None)))))"
proof -
  let ?n = "length (pl_bytes src)"
  let ?u = "unwrap zr a src ?n name"
  have st: "digest_stream H (NewSectionReader src 0 ?n) = Inr (DigestBytes H (pl_bytes src))"
    using NewSectionReader_whole [OF assms(1)] by simp
  show ?thesis
  proof (cases "uw_err ?u")
    case (Some e)
    then show ?thesis
      using st by (simp add: Analyze_def Let_def empty_result_def)
  next
    case None
    show ?thesis
    proof (cases "uw_inner ?u")
      case none: None
      then show ?thesis
        using st None by (simp add: Analyze_def Let_def empty_result_def)
    next
      case (Some x)
      then obtain inner n nm where x: "uw_inner ?u = Some (inner, n, nm)"
        by (cases x) auto
      then have inner: "pl_bad inner = None" "n = length (pl_bytes inner)"
        "inner = src \<or> (\<exists>files f. zr src ?n = Inr files \<and> filter (usable a) files = [f] \<and>
          ze_Open f = Inr (pl_bytes inner, None))"
        using unwrap_inner [OF x] assms(1) by auto
      let ?res = "(empty_result name)\<lparr>rs_Stored := DigestBytes H (pl_bytes src), rs_Notes := uw_notes ?u,
        rs_Container := uw_container ?u\<rparr>"
      obtain r where "analyze_payload H a hint inner n nm ?res = Inr r" "rs_Stored r = rs_Stored ?res"
        "rs_Canonicalized r \<longrightarrow> canonical_of H (registry a) inner r"
        using analyze_payload_readable [OF assms(2) inner(1,2), of ?res H hint nm] by (auto simp add: empty_result_def)
      then show ?thesis
        using st None x inner(3) by (auto simp add: Analyze_def Let_def)
    qed
  qed
qed

definition sample_analyzer :: Analyzer where
  "sample_analyzer = \<lparr>az_Registry = None, az_MaxInMemory = 0, az_MaxArchiveMember = 0, az_Temp = None, az_Spill = None\<rparr>"

definition flat_hashes :: hashes where
  "flat_hashes = \<lparr>hash_crc = (\<lambda>b. []), hash_md5 = (\<lambda>b. []), hash_sha1 = (\<lambda>b. []),
     hash_sha256 = (\<lambda>b. [of_nat (length b)])\<rparr>"

theorem readable_file_is_analysed_witness:
  "\<exists>r. Analyze flat_hashes (\<lambda>_ _. Inl ''not a zip'') sample_analyzer \<lparr>pl_bytes = [1, 2], pl_bad = None\<rparr> 2 ''x'' '''' = Inr r \<and>
    rs_Stored r = DigestBytes flat_hashes [1, 2]"
  using readable_file_is_analysed [of "\<lparr>pl_bytes = [1, 2], pl_bad = None\<rparr>" sample_analyzer flat_hashes
      "\<lambda>_ _. Inl ''not a zip''" "''x''" "''''"]
  by (auto simp add: sample_analyzer_def numeral_2_eq_2)

text \<open>C19: an archive is only looked into within limits: a payload taken from an archive is the one
  entry that is a file with a safe name and a declared size within the limit, read as a signed
  number, and it is that entry's decompressed contents, complete and of exactly the declared
  length, so a lying or wrapping length is refused.\<close>

theorem archive_payload_is_bounded:
  assumes "uw_inner (unwrap zr a src sz name) = Some (inner, n, nm)" and "(inner, n, nm) \<noteq> (src, sz, name)"
  shows "\<exists>files f. zr src sz = Inr files \<and> filter (usable a) files = [f] \<and> nm = ze_Name f \<and>
    \<not> unsafeArchiveName nm \<and> ze_Open f = Inr (pl_bytes inner, None) \<and>
    n = length (pl_bytes inner) \<and> int n \<le> maxArchiveMember a \<and> uint (ze_UncompressedSize64 f) = int n"
proof -
  obtain files f where f: "zr src sz = Inr files" "filter (usable a) files = [f]" "nm = ze_Name f"
    "ze_Open f = Inr (pl_bytes inner, None)" "n = length (pl_bytes inner)" "int n = declared_size f"
    using unwrap_inner [OF assms(1)] assms(2) by blast
  have "f \<in> set (filter (usable a) files)"
    using f(2) by simp
  then have "\<not> unsafeArchiveName (ze_Name f)" "declared_size f \<le> maxArchiveMember a"
    by (simp_all add: usable_def)
  moreover have "uint (ze_UncompressedSize64 f) = int n"
    using f(6) declared_uint [of f] by simp
  ultimately show ?thesis
    using f by auto
qed

theorem archive_payload_is_bounded_witness:
  "let f = \<lparr>ze_Name = ''k.gb'', ze_IsDir = False, ze_UncompressedSize64 = 3, ze_CRC32 = 0, ze_Open = Inr ([7, 8, 9], None)\<rparr>;
       u = unwrap (\<lambda>_ _. Inr [f]) sample_analyzer \<lparr>pl_bytes = zip_magic, pl_bad = None\<rparr> 4 ''k.zip''
   in uw_inner u = Some (\<lparr>pl_bytes = [7, 8, 9], pl_bad = None\<rparr>, 3, ''k.gb'') \<and> \<not> unsafeArchiveName ''k.gb'' \<and>
     3 \<le> maxArchiveMember sample_analyzer"
proof -
  let ?f = "\<lparr>ze_Name = ''k.gb'', ze_IsDir = False, ze_UncompressedSize64 = 3, ze_CRC32 = 0, ze_Open = Inr ([7, 8, 9], None)\<rparr>"
  have safe: "\<not> unsafeArchiveName ''k.gb''"
    by (simp add: unsafeArchiveName_def has_prefix_def)
  have d: "declared_size ?f = 3"
    by (simp add: declared_size_def)
  have "materialize sample_analyzer ?f = Inr (\<lparr>pl_bytes = [7, 8, 9], pl_bad = None\<rparr>, 3)"
    using d by (simp add: materialize_def maxInMemory_def sample_analyzer_def DefaultMaxInMemory_def LimitReader_def Let_def)
  then have u: "uw_inner (unwrap (\<lambda>_ _. Inr [?f]) sample_analyzer \<lparr>pl_bytes = zip_magic, pl_bad = None\<rparr> 4 ''k.zip'') =
      Some (\<lparr>pl_bytes = [7, 8, 9], pl_bad = None\<rparr>, 3, ''k.gb'')"
    using safe d by (simp add: unwrap_def unwrap_files_def ReadAt_bad zip_magic_def Let_def maxArchiveMember_def
        sample_analyzer_def DefaultMaxArchiveMember_def)
  show ?thesis
    using archive_payload_is_bounded [OF u] u by (auto simp add: Let_def)
qed

end
