(* ===== verification/Relay.thy ===== *)
theory Relay
  imports Ids
begin

text \<open>
  The transfer relay, \<open>src/relay/relay.go\<close>.  The server's memory is a record of its grants, the
  goroutines that still act (waiters in their \<open>select\<close>, sessions between \<open>pairAndRelay\<close> and the end
  of \<open>pipe\<close>), the connections it closed and the acknowledgements it sent.  Each stretch of code
  between two locks or two blocking calls is one function, and \<open>relay_step\<close> interleaves them.
  The channel of a waiter is named by its connection.
\<close>

section \<open>Frames and limits\<close>

type_synonym conn = nat
type_synonym GrantID = string

definition prefixGrant :: string where "prefixGrant = ''grt''"

datatype Role = RoleSource | RoleSink | RoleOther string

record ConnectFrame =
  cf_Grant :: GrantID
  cf_Role :: Role
  cf_Source :: string
  cf_Sink :: string
  cf_ResumeOffset :: int

datatype relay_error =
    BadGrant id_error
  | UnknownRole Role
  | BadSource id_error
  | BadSink id_error
  | SameBridge
  | NegativeOffset
  | MalformedFrame
  | GrantRevoked
  | PairingTimedOut
  | TooManySessions

record AckFrame =
  ak_Offset :: int
  ak_Err :: "relay_error option"

definition ack_ok :: "int \<Rightarrow> AckFrame" where "ack_ok off = \<lparr>ak_Offset = off, ak_Err = None\<rparr>"
definition ack_err :: "relay_error \<Rightarrow> AckFrame" where "ack_err e = \<lparr>ak_Offset = 0, ak_Err = Some e\<rparr>"

definition validateFrame :: "ConnectFrame \<Rightarrow> relay_error option" where
  "validateFrame f =
     (case validate prefixGrant (cf_Grant f) of
        Some e \<Rightarrow> Some (BadGrant e)
      | None \<Rightarrow>
        if cf_Role f \<noteq> RoleSource \<and> cf_Role f \<noteq> RoleSink then Some (UnknownRole (cf_Role f))
        else case validate prefixBridge (cf_Source f) of
          Some e \<Rightarrow> Some (BadSource e)
        | None \<Rightarrow>
          (case validate prefixBridge (cf_Sink f) of
             Some e \<Rightarrow> Some (BadSink e)
           | None \<Rightarrow>
             if cf_Source f = cf_Sink f then Some SameBridge
             else if cf_ResumeOffset f < 0 then Some NegativeOffset
             else None))"

record RelayConfig =
  rl_MaxBytesPerGrant :: int
  rl_MaxDuration :: int
  rl_MaxConcurrent :: int
  rl_MaxBytesPerSecond :: int
  rl_PairingTimeout :: int

definition DefaultMaxBytesPerGrant :: int where "DefaultMaxBytesPerGrant = 4 * 2 ^ 30"
definition DefaultMaxDuration :: int where "DefaultMaxDuration = 2 * 3600 * 1000000000"
definition DefaultMaxConcurrent :: int where "DefaultMaxConcurrent = 64"
definition DefaultPairingTimeout :: int where "DefaultPairingTimeout = 30 * 1000000000"

definition maxBytes :: "RelayConfig \<Rightarrow> int" where
  "maxBytes c = (if rl_MaxBytesPerGrant c > 0 then rl_MaxBytesPerGrant c else DefaultMaxBytesPerGrant)"

definition maxDuration :: "RelayConfig \<Rightarrow> int" where
  "maxDuration c = (if rl_MaxDuration c > 0 then rl_MaxDuration c else DefaultMaxDuration)"

definition maxConcurrent :: "RelayConfig \<Rightarrow> int" where
  "maxConcurrent c = (if rl_MaxConcurrent c > 0 then rl_MaxConcurrent c else DefaultMaxConcurrent)"

definition pairingTimeout :: "RelayConfig \<Rightarrow> int" where
  "pairingTimeout c = (if rl_PairingTimeout c > 0 then rl_PairingTimeout c else DefaultPairingTimeout)"

section \<open>The server\<close>

record grantState =
  gs_firstSeen :: instant
  gs_bytesRelayed :: int
  gs_revoked :: bool
  gs_waiting :: "(conn \<times> Role) option"
  gs_active :: "(conn \<times> conn) option"

text \<open>A session: paired, or admitted and acknowledged, or copying within a budget.\<close>

datatype phase = Paired | Admitted | Piping int

record session =
  ss_Grant :: GrantID
  ss_src :: conn
  ss_sink :: conn
  ss_peer :: conn
  ss_resumeAt :: int
  ss_phase :: phase

record Server =
  sv_grants :: "GrantID \<rightharpoonup> grantState"
  sv_active :: int
  sv_conns :: "conn list"
  sv_closed :: "conn list"
  sv_acks :: "(conn \<times> AckFrame) list"
  sv_waiters :: "(conn \<times> GrantID) list"
  sv_sessions :: "session list"
  sv_reports :: "(GrantID \<times> int \<times> int) list"

definition NewServer :: Server where
  "NewServer = \<lparr>sv_grants = Map.empty, sv_active = 0, sv_conns = [], sv_closed = [], sv_acks = [],
     sv_waiters = [], sv_sessions = [], sv_reports = []\<rparr>"

text \<open>\<open>state\<close>: the grant's memory, made on first sight.\<close>

definition grant_state :: "instant \<Rightarrow> GrantID \<Rightarrow> Server \<Rightarrow> grantState" where
  "grant_state now g sv =
     (case sv_grants sv g of
        Some st \<Rightarrow> st
      | None \<Rightarrow> \<lparr>gs_firstSeen = now, gs_bytesRelayed = 0, gs_revoked = False, gs_waiting = None, gs_active = None\<rparr>)"

definition put_state :: "GrantID \<Rightarrow> grantState \<Rightarrow> Server \<Rightarrow> Server" where
  "put_state g st sv = sv\<lparr>sv_grants := (sv_grants sv)(g \<mapsto> st)\<rparr>"

definition close_conn :: "conn \<Rightarrow> Server \<Rightarrow> Server" where
  "close_conn c sv = sv\<lparr>sv_closed := c # sv_closed sv\<rparr>"

text \<open>\<open>sendAck\<close>: the write works or not.\<close>

definition sendAck :: "bool \<Rightarrow> conn \<Rightarrow> AckFrame \<Rightarrow> Server \<Rightarrow> Server \<times> bool" where
  "sendAck works c a sv =
     (if works \<and> c \<notin> set (sv_closed sv) then (sv\<lparr>sv_acks := (c, a) # sv_acks sv\<rparr>, True) else (sv, False))"

definition sendAckAndClose :: "bool \<Rightarrow> conn \<Rightarrow> AckFrame \<Rightarrow> Server \<Rightarrow> Server" where
  "sendAckAndClose works c a sv = close_conn c (fst (sendAck works c a sv))"

text \<open>A waiter that is signalled ends.\<close>

definition signal :: "conn \<Rightarrow> Server \<Rightarrow> Server" where
  "signal c sv = sv\<lparr>sv_waiters := filter (\<lambda>w. fst w \<noteq> c) (sv_waiters sv)\<rparr>"

definition admit :: "RelayConfig \<Rightarrow> Server \<Rightarrow> Server option" where
  "admit cfg sv =
     (if sv_active sv \<ge> maxConcurrent cfg then None else Some (sv\<lparr>sv_active := sv_active sv + 1\<rparr>))"

definition release :: "Server \<Rightarrow> Server" where
  "release sv = (if sv_active sv > 0 then sv\<lparr>sv_active := sv_active sv - 1\<rparr> else sv)"

section \<open>The goroutines\<close>

datatype received = ReadError | Malformed | Frame ConnectFrame

definition become_waiting :: "conn \<Rightarrow> ConnectFrame \<Rightarrow> grantState \<Rightarrow> Server \<Rightarrow> Server" where
  "become_waiting c f st sv =
     (put_state (cf_Grant f) (st\<lparr>gs_waiting := Some (c, cf_Role f)\<rparr>) sv)
       \<lparr>sv_waiters := (c, cf_Grant f) # sv_waiters sv\<rparr>"

definition new_session :: "conn \<Rightarrow> ConnectFrame \<Rightarrow> conn \<Rightarrow> int \<Rightarrow> session" where
  "new_session c f peer resumeAt =
     \<lparr>ss_Grant = cf_Grant f, ss_src = (if cf_Role f = RoleSource then c else peer),
      ss_sink = (if cf_Role f = RoleSource then peer else c), ss_peer = peer, ss_resumeAt = resumeAt,
      ss_phase = Paired\<rparr>"

text \<open>\<open>handle\<close> up to its \<open>select\<close>, or to the call of \<open>pairAndRelay\<close>.\<close>

definition handle :: "instant \<Rightarrow> bool \<Rightarrow> conn \<Rightarrow> received \<Rightarrow> Server \<Rightarrow> Server" where
  "handle now works c recv sv =
     (case recv of
        ReadError \<Rightarrow> close_conn c sv
      | Malformed \<Rightarrow> sendAckAndClose works c (ack_err MalformedFrame) sv
      | Frame f \<Rightarrow>
        (case validateFrame f of
           Some e \<Rightarrow> sendAckAndClose works c (ack_err e) sv
         | None \<Rightarrow>
           (let st = grant_state now (cf_Grant f) sv; sv1 = put_state (cf_Grant f) st sv in
            if gs_revoked st then sendAckAndClose works c (ack_err GrantRevoked) sv1
            else case gs_waiting st of
              None \<Rightarrow> become_waiting c f st sv1
            | Some (peer, r) \<Rightarrow>
              if r \<noteq> cf_Role f
              then (put_state (cf_Grant f) (st\<lparr>gs_waiting := None\<rparr>) sv1)
                \<lparr>sv_sessions := new_session c f peer (gs_bytesRelayed st) # sv_sessions sv1\<rparr>
              else become_waiting c f st sv1)))"

text \<open>The timer of a waiter.\<close>

definition pairing_timeout :: "bool \<Rightarrow> conn \<Rightarrow> GrantID \<Rightarrow> Server \<Rightarrow> Server" where
  "pairing_timeout works c g sv =
     (let sv1 = signal c sv in
      case sv_grants sv g of
        None \<Rightarrow> sv1
      | Some st \<Rightarrow>
        if map_option fst (gs_waiting st) = Some c
        then sendAckAndClose works c (ack_err PairingTimedOut) (put_state g (st\<lparr>gs_waiting := None\<rparr>) sv1)
        else sv1)"

text \<open>\<open>pairAndRelay\<close> up to \<open>pipe\<close>: admission and the two acknowledgements.\<close>

definition pairAndRelay :: "RelayConfig \<Rightarrow> bool \<Rightarrow> bool \<Rightarrow> session \<Rightarrow> Server \<Rightarrow> Server" where
  "pairAndRelay cfg worksSrc worksSink s sv =
     (let rest = sv\<lparr>sv_sessions := remove1 s (sv_sessions sv)\<rparr>;
          giveup = (\<lambda>x. signal (ss_peer s) (release (close_conn (ss_sink s) (close_conn (ss_src s) x)))) in
      case admit cfg rest of
        None \<Rightarrow> signal (ss_peer s) (sendAckAndClose worksSink (ss_sink s) (ack_err TooManySessions)
           (sendAckAndClose worksSrc (ss_src s) (ack_err TooManySessions) rest))
      | Some sv1 \<Rightarrow>
        (case sendAck worksSrc (ss_src s) (ack_ok (ss_resumeAt s)) sv1 of
           (sv2, False) \<Rightarrow> giveup sv2
         | (sv2, True) \<Rightarrow>
           (case sendAck worksSink (ss_sink s) (ack_ok (ss_resumeAt s)) sv2 of
              (sv3, False) \<Rightarrow> giveup sv3
            | (sv3, True) \<Rightarrow>
              (let sv4 = signal (ss_peer s) sv3 in
               sv4\<lparr>sv_sessions := s\<lparr>ss_phase := Admitted\<rparr> # sv_sessions sv4\<rparr>))))"

text \<open>The deferred end of \<open>pipe\<close>: both connections closed, the slot released.\<close>

definition pipe_end :: "session \<Rightarrow> Server \<Rightarrow> Server" where
  "pipe_end s sv = release (close_conn (ss_src s) (close_conn (ss_sink s) sv))"

definition clear_active :: "GrantID \<Rightarrow> Server \<Rightarrow> Server" where
  "clear_active g sv =
     (case sv_grants sv g of None \<Rightarrow> sv | Some st \<Rightarrow> put_state g (st\<lparr>gs_active := None\<rparr>) sv)"

text \<open>\<open>pipe\<close> up to \<open>io.Copy\<close>, at clock reading \<open>now\<close>.\<close>

definition pipe_start :: "RelayConfig \<Rightarrow> instant \<Rightarrow> session \<Rightarrow> Server \<Rightarrow> Server" where
  "pipe_start cfg now s sv =
     (let g = ss_Grant s; rest = sv\<lparr>sv_sessions := remove1 s (sv_sessions sv)\<rparr> in
      case sv_grants sv g of
        None \<Rightarrow> pipe_end s rest
      | Some st \<Rightarrow>
        if gs_revoked st then pipe_end s rest
        else let remaining = maxBytes cfg - gs_bytesRelayed st;
            sv1 = put_state g (st\<lparr>gs_active := Some (ss_src s, ss_sink s)\<rparr>) rest in
        if remaining \<le> 0 then pipe_end s (clear_active g sv1)
        else if gs_firstSeen st + maxDuration cfg - now \<le> 0 then pipe_end s (clear_active g sv1)
        else sv1\<lparr>sv_sessions := s\<lparr>ss_phase := Piping remaining\<rparr> # sv_sessions sv1\<rparr>)"

text \<open>\<open>io.Copy\<close> moved \<open>n\<close> bytes: they are recorded and reported, and \<open>pipe\<close> ends.\<close>

definition pipe_finish :: "int \<Rightarrow> session \<Rightarrow> Server \<Rightarrow> Server" where
  "pipe_finish n s sv =
     (let g = ss_Grant s; rest = sv\<lparr>sv_sessions := remove1 s (sv_sessions sv)\<rparr> in
      case sv_grants sv g of
        None \<Rightarrow> pipe_end s rest
      | Some st \<Rightarrow>
        (let total = gs_bytesRelayed st + n;
             sv1 = (put_state g (st\<lparr>gs_bytesRelayed := total\<rparr>) rest)\<lparr>sv_reports := (g, n, total) # sv_reports sv\<rparr> in
         pipe_end s (clear_active g sv1)))"

definition revoke_grant :: "instant \<Rightarrow> bool \<Rightarrow> GrantID \<Rightarrow> Server \<Rightarrow> Server" where
  "revoke_grant now works g sv =
     (let st = grant_state now g sv;
          sv1 = put_state g (st\<lparr>gs_revoked := True, gs_waiting := None\<rparr>) sv;
          sv2 = (case gs_waiting st of
              None \<Rightarrow> sv1
            | Some (c, r) \<Rightarrow> signal c (sendAckAndClose works c (ack_err GrantRevoked) sv1)) in
      case gs_active st of
        None \<Rightarrow> sv2
      | Some (src, sink) \<Rightarrow> close_conn sink (close_conn src sv2))"

section \<open>The step relation\<close>

inductive relay_step :: "RelayConfig \<Rightarrow> Server \<Rightarrow> Server \<Rightarrow> bool" for cfg where
  arrive: "c \<notin> set (sv_conns sv) \<Longrightarrow>
    relay_step cfg sv (handle now works c recv (sv\<lparr>sv_conns := c # sv_conns sv\<rparr>))"
| timeout: "(c, g) \<in> set (sv_waiters sv) \<Longrightarrow> relay_step cfg sv (pairing_timeout works c g sv)"
| pair: "s \<in> set (sv_sessions sv) \<Longrightarrow> ss_phase s = Paired \<Longrightarrow> relay_step cfg sv (pairAndRelay cfg w1 w2 s sv)"
| start: "s \<in> set (sv_sessions sv) \<Longrightarrow> ss_phase s = Admitted \<Longrightarrow> relay_step cfg sv (pipe_start cfg now s sv)"
| finish: "s \<in> set (sv_sessions sv) \<Longrightarrow> ss_phase s = Piping r \<Longrightarrow> 0 \<le> n \<Longrightarrow> n \<le> r \<Longrightarrow>
    relay_step cfg sv (pipe_finish n s sv)"
| revoke: "relay_step cfg sv (revoke_grant now works g sv)"

inductive relay_reach :: "RelayConfig \<Rightarrow> Server \<Rightarrow> bool" for cfg where
  init: "relay_reach cfg NewServer"
| step: "relay_reach cfg sv \<Longrightarrow> relay_step cfg sv sv' \<Longrightarrow> relay_reach cfg sv'"

inductive_cases relay_step_cases: "relay_step cfg sv sv'"

text \<open>The sessions of a grant that copy, and runs in which a grant never has two admitted sessions
  at once.\<close>

definition piping :: "GrantID \<Rightarrow> session \<Rightarrow> bool" where
  "piping g s = (ss_Grant s = g \<and> (case ss_phase s of Piping r \<Rightarrow> True | _ \<Rightarrow> False))"




section \<open>What each helper touches\<close>

named_theorems relay_facts

lemma put_state_fields [relay_facts]:
  "sv_active (put_state g st sv) = sv_active sv" "sv_sessions (put_state g st sv) = sv_sessions sv"
  "sv_closed (put_state g st sv) = sv_closed sv" "sv_grants (put_state g st sv) = (sv_grants sv)(g \<mapsto> st)"
  "sv_waiters (put_state g st sv) = sv_waiters sv" "sv_acks (put_state g st sv) = sv_acks sv"
  "sv_conns (put_state g st sv) = sv_conns sv"
  by (simp_all add: put_state_def)

lemma close_conn_fields [relay_facts]:
  "sv_active (close_conn c sv) = sv_active sv" "sv_sessions (close_conn c sv) = sv_sessions sv"
  "sv_closed (close_conn c sv) = c # sv_closed sv" "sv_grants (close_conn c sv) = sv_grants sv"
  "sv_waiters (close_conn c sv) = sv_waiters sv" "sv_acks (close_conn c sv) = sv_acks sv"
  "sv_conns (close_conn c sv) = sv_conns sv"
  by (simp_all add: close_conn_def)

lemma sendAck_fields [relay_facts]:
  "sv_active (fst (sendAck w c a sv)) = sv_active sv" "sv_sessions (fst (sendAck w c a sv)) = sv_sessions sv"
  "sv_closed (fst (sendAck w c a sv)) = sv_closed sv" "sv_grants (fst (sendAck w c a sv)) = sv_grants sv"
  "sv_waiters (fst (sendAck w c a sv)) = sv_waiters sv"
  by (simp_all add: sendAck_def)

lemma sendAckAndClose_fields [relay_facts]:
  "sv_active (sendAckAndClose w c a sv) = sv_active sv" "sv_sessions (sendAckAndClose w c a sv) = sv_sessions sv"
  "sv_closed (sendAckAndClose w c a sv) = c # sv_closed sv" "sv_grants (sendAckAndClose w c a sv) = sv_grants sv"
  by (simp_all add: sendAckAndClose_def relay_facts)

lemma signal_fields [relay_facts]:
  "sv_active (signal c sv) = sv_active sv" "sv_sessions (signal c sv) = sv_sessions sv"
  "sv_closed (signal c sv) = sv_closed sv" "sv_grants (signal c sv) = sv_grants sv"
  by (simp_all add: signal_def)

lemma release_fields [relay_facts]:
  "sv_sessions (release sv) = sv_sessions sv" "sv_closed (release sv) = sv_closed sv"
  "sv_grants (release sv) = sv_grants sv"
  "sv_active (release sv) = (if sv_active sv > 0 then sv_active sv - 1 else sv_active sv)"
  by (simp_all add: release_def)

lemma pipe_end_fields [relay_facts]:
  "sv_sessions (pipe_end s sv) = sv_sessions sv" "sv_closed (pipe_end s sv) = ss_src s # ss_sink s # sv_closed sv"
  "sv_grants (pipe_end s sv) = sv_grants sv"
  "sv_active (pipe_end s sv) = (if sv_active sv > 0 then sv_active sv - 1 else sv_active sv)"
  by (simp_all add: pipe_end_def relay_facts)

lemma clear_active_fields [relay_facts]:
  "sv_sessions (clear_active g sv) = sv_sessions sv" "sv_closed (clear_active g sv) = sv_closed sv"
  "sv_active (clear_active g sv) = sv_active sv"
  "sv_grants (clear_active g sv) = (case sv_grants sv g of None \<Rightarrow> sv_grants sv
     | Some st \<Rightarrow> (sv_grants sv)(g \<mapsto> st\<lparr>gs_active := None\<rparr>))"
  by (auto simp add: clear_active_def relay_facts split: option.splits)

lemma become_waiting_fields [relay_facts]:
  "sv_sessions (become_waiting c f st sv) = sv_sessions sv" "sv_closed (become_waiting c f st sv) = sv_closed sv"
  "sv_active (become_waiting c f st sv) = sv_active sv"
  "sv_grants (become_waiting c f st sv) = (sv_grants sv)(cf_Grant f \<mapsto> st\<lparr>gs_waiting := Some (c, cf_Role f)\<rparr>)"
  by (simp_all add: become_waiting_def relay_facts)

section \<open>The effect of each step\<close>

text \<open>Arrivals, timeouts and revocations leave the admitted sessions alone.\<close>

lemma handle_sessions:
  "sv_active (handle now w c recv sv) = sv_active sv \<and> set (sv_closed sv) \<subseteq> set (sv_closed (handle now w c recv sv)) \<and>
    (sv_sessions (handle now w c recv sv) = sv_sessions sv \<or>
     (\<exists>f peer k. sv_sessions (handle now w c recv sv) = new_session c f peer k # sv_sessions sv))"
  unfolding handle_def
  by (auto simp add: Let_def relay_facts split: received.splits option.splits prod.splits)

lemma handle_grants:
  "sv_grants (handle now w c recv sv) = sv_grants sv \<or>
    (\<exists>(f :: ConnectFrame) wt. sv_grants (handle now w c recv sv) = (sv_grants sv)(cf_Grant f \<mapsto> (grant_state now (cf_Grant f) sv)\<lparr>gs_waiting := wt\<rparr>) \<and>
      (gs_revoked (grant_state now (cf_Grant f) sv) \<longrightarrow> wt = gs_waiting (grant_state now (cf_Grant f) sv)))"
proof (cases recv)
  case (Frame f)
  let ?g = "cf_Grant f" and ?st = "grant_state now (cf_Grant f) sv"
  let ?G = "\<lambda>wt. (sv_grants sv)(?g \<mapsto> ?st\<lparr>gs_waiting := wt\<rparr>)"
  consider "validateFrame f \<noteq> None" | "validateFrame f = None" "gs_revoked ?st"
    | "validateFrame f = None" "\<not> gs_revoked ?st"
    by blast
  then show ?thesis
  proof cases
    case 1
    then show ?thesis
      using Frame by (auto simp add: handle_def relay_facts)
  next
    case 2
    then have "sv_grants (handle now w c recv sv) = ?G (gs_waiting ?st)"
      using Frame by (simp add: handle_def Let_def relay_facts)
    then show ?thesis
      by (intro disjI2 exI [of _ f] exI [of _ "gs_waiting ?st"]) simp
  next
    case 3
    then have "\<exists>wt. sv_grants (handle now w c recv sv) = ?G wt"
      using Frame by (auto simp add: handle_def Let_def relay_facts split: option.splits)
    then obtain wt where "sv_grants (handle now w c recv sv) = ?G wt"
      by blast
    then show ?thesis
      using 3 by (intro disjI2 exI [of _ f] exI [of _ wt]) simp
  qed
qed (simp_all add: handle_def relay_facts)

lemma timeout_sessions:
  "sv_active (pairing_timeout w c g sv) = sv_active sv \<and> sv_sessions (pairing_timeout w c g sv) = sv_sessions sv \<and>
    set (sv_closed sv) \<subseteq> set (sv_closed (pairing_timeout w c g sv)) \<and>
    (sv_grants (pairing_timeout w c g sv) = sv_grants sv \<or>
     (\<exists>st. sv_grants sv g = Some st \<and>
        sv_grants (pairing_timeout w c g sv) = (sv_grants sv)(g \<mapsto> st\<lparr>gs_waiting := None\<rparr>)))"
  by (auto simp add: pairing_timeout_def Let_def relay_facts split: option.splits)

lemma revoke_sessions:
  "sv_active (revoke_grant now w g sv) = sv_active sv \<and> sv_sessions (revoke_grant now w g sv) = sv_sessions sv \<and>
    set (sv_closed sv) \<subseteq> set (sv_closed (revoke_grant now w g sv)) \<and>
    sv_grants (revoke_grant now w g sv) =
      (sv_grants sv)(g \<mapsto> (grant_state now g sv)\<lparr>gs_revoked := True, gs_waiting := None\<rparr>) \<and>
    (\<forall>src sink. gs_active (grant_state now g sv) = Some (src, sink) \<longrightarrow>
      {src, sink} \<subseteq> set (sv_closed (revoke_grant now w g sv)))"
  by (auto simp add: revoke_grant_def Let_def relay_facts split: option.splits)

lemma pair_sessions:
  "sv_grants (pairAndRelay cfg w1 w2 s sv) = sv_grants sv \<and>
    set (sv_closed sv) \<subseteq> set (sv_closed (pairAndRelay cfg w1 w2 s sv)) \<and>
    ((sv_sessions (pairAndRelay cfg w1 w2 s sv) = remove1 s (sv_sessions sv) \<and>
      (0 \<le> sv_active sv \<longrightarrow> sv_active (pairAndRelay cfg w1 w2 s sv) = sv_active sv)) \<or>
     (sv_sessions (pairAndRelay cfg w1 w2 s sv) = s\<lparr>ss_phase := Admitted\<rparr> # remove1 s (sv_sessions sv) \<and>
      sv_active (pairAndRelay cfg w1 w2 s sv) = sv_active sv + 1 \<and> sv_active sv < maxConcurrent cfg))"
  by (auto simp add: pairAndRelay_def sendAck_def admit_def Let_def relay_facts split: if_splits)

lemma start_sessions:
  "(sv_sessions (pipe_start cfg now s sv) = remove1 s (sv_sessions sv) \<and>
      sv_active (pipe_start cfg now s sv) = (if sv_active sv > 0 then sv_active sv - 1 else sv_active sv)) \<or>
    (\<exists>r. sv_sessions (pipe_start cfg now s sv) = s\<lparr>ss_phase := Piping r\<rparr> # remove1 s (sv_sessions sv) \<and>
      sv_active (pipe_start cfg now s sv) = sv_active sv)"
  by (auto simp add: pipe_start_def Let_def relay_facts split: option.splits)

lemma finish_sessions:
  "sv_sessions (pipe_finish n s sv) = remove1 s (sv_sessions sv) \<and>
    sv_active (pipe_finish n s sv) = (if sv_active sv > 0 then sv_active sv - 1 else sv_active sv)"
  by (auto simp add: pipe_finish_def Let_def relay_facts split: option.splits)

section \<open>Admission\<close>

definition admitted :: "session \<Rightarrow> bool" where
  "admitted s = (ss_phase s \<noteq> Paired)"

definition slots :: "RelayConfig \<Rightarrow> Server \<Rightarrow> bool" where
  "slots cfg sv = (sv_active sv = int (length (filter admitted (sv_sessions sv))) \<and> sv_active sv \<le> maxConcurrent cfg)"

lemma filter_remove1_length:
  "s \<in> set xs \<Longrightarrow> int (length (filter P (remove1 s xs))) = int (length (filter P xs)) - (if P s then 1 else 0)"
  by (induction xs) auto

lemma slots_step:
  assumes "slots cfg sv" "relay_step cfg sv sv'"
  shows "slots cfg sv'"
proof -
  have act: "sv_active sv = int (length (filter admitted (sv_sessions sv)))" "sv_active sv \<le> maxConcurrent cfg"
    using assms(1) by (simp_all add: slots_def)
  have gone: "int (length (filter admitted (remove1 s (sv_sessions sv)))) = sv_active sv - 1" "0 < sv_active sv"
    if "s \<in> set (sv_sessions sv)" "admitted s" for s
  proof -
    show "int (length (filter admitted (remove1 s (sv_sessions sv)))) = sv_active sv - 1"
      using filter_remove1_length [OF that(1), of admitted] that(2) act(1) by simp
    have "filter admitted (sv_sessions sv) \<noteq> []"
      using that by (auto simp add: filter_empty_conv)
    then show "0 < sv_active sv"
      using act(1) by simp
  qed
  from assms(2) show ?thesis
  proof (cases rule: relay_step.cases)
    case (arrive c now works recv)
    then show ?thesis
      using act handle_sessions [of now works c recv "sv\<lparr>sv_conns := c # sv_conns sv\<rparr>"]
      by (auto simp add: slots_def admitted_def new_session_def)
  next
    case (timeout c g works)
    then show ?thesis
      using act timeout_sessions by (simp add: slots_def)
  next
    case (pair s w1 w2)
    then have "int (length (filter admitted (remove1 s (sv_sessions sv)))) = sv_active sv"
      using filter_remove1_length [of s "sv_sessions sv" admitted] act(1) by (simp add: admitted_def)
    then show ?thesis
      using pair act pair_sessions [of cfg w1 w2 s sv] by (auto simp add: slots_def admitted_def)
  next
    case (start s now)
    have "admitted s"
      using start by (simp add: admitted_def)
    then show ?thesis
      using start act gone start_sessions [of cfg now s sv] by (auto simp add: slots_def admitted_def)
  next
    case (finish s r n)
    then show ?thesis
      using act gone [of s] finish_sessions [of n s sv] by (simp add: slots_def admitted_def)
  next
    case (revoke now works g)
    then show ?thesis
      using act revoke_sessions by (simp add: slots_def)
  qed
qed

section \<open>One session of a grant at a time\<close>

definition copying :: "GrantID \<Rightarrow> Server \<Rightarrow> session set" where
  "copying g sv = {s \<in> set (sv_sessions sv). piping g s}"







lemma remove1_mem: "t \<in> set (remove1 s xs) \<Longrightarrow> t \<in> set xs"
  by (meson notin_set_remove1)

text \<open>Grants other than \<open>g\<close> do not touch it; for \<open>g\<close> itself only \<open>start\<close> and \<open>finish\<close> matter.\<close>

lemma start_other:
  "ss_Grant s \<noteq> g \<Longrightarrow> sv_grants (pipe_start cfg now s sv) g = sv_grants sv g"
  by (auto simp add: pipe_start_def Let_def relay_facts split: option.splits)

lemma finish_other:
  "ss_Grant s \<noteq> g \<Longrightarrow> sv_grants (pipe_finish n s sv) g = sv_grants sv g"
  by (auto simp add: pipe_finish_def Let_def relay_facts split: option.splits)



lemma start_own:
  assumes "sv_grants sv g = Some st" "ss_Grant s = g"
  shows "(sv_sessions (pipe_start cfg now s sv) = remove1 s (sv_sessions sv) \<and>
      (sv_grants (pipe_start cfg now s sv) g = Some st \<or>
       sv_grants (pipe_start cfg now s sv) g = Some (st\<lparr>gs_active := None\<rparr>) \<and> \<not> gs_revoked st)) \<or>
    (\<not> gs_revoked st \<and>
      sv_sessions (pipe_start cfg now s sv) = s\<lparr>ss_phase := Piping (maxBytes cfg - gs_bytesRelayed st)\<rparr> # remove1 s (sv_sessions sv) \<and>
      sv_grants (pipe_start cfg now s sv) g = Some (st\<lparr>gs_active := Some (ss_src s, ss_sink s)\<rparr>))"
  using assms by (auto simp add: pipe_start_def Let_def relay_facts)

lemma finish_own:
  assumes "sv_grants sv g = Some st" "ss_Grant s = g"
  shows "sv_grants (pipe_finish n s sv) g = Some (st\<lparr>gs_bytesRelayed := gs_bytesRelayed st + n, gs_active := None\<rparr>)"
  using assms by (simp add: pipe_finish_def Let_def relay_facts)



lemma copying_sub:
  "set (sv_sessions sv') \<subseteq> insert s (set (sv_sessions sv)) \<Longrightarrow> \<not> piping g s \<Longrightarrow> copying g sv' \<subseteq> copying g sv"
  by (auto simp add: copying_def)







lemma relay_reach_slots: "relay_reach cfg sv \<Longrightarrow> slots cfg sv"
proof (induction rule: relay_reach.induct)
  case init
  then show ?case
    by (simp add: slots_def NewServer_def maxConcurrent_def DefaultMaxConcurrent_def)
next
  case (step sv sv')
  then show ?case
    using slots_step by blast
qed

text \<open>A revoked grant stays revoked, and no session of it begins to copy.\<close>

lemma state_of_seen: "sv_grants sv g = Some st \<Longrightarrow> grant_state now g sv = st"
  by (simp add: grant_state_def)

lemma revoked_step:
  assumes "sv_grants sv g = Some st" "gs_revoked st" "relay_step cfg sv sv'"
  shows "(\<exists>st'. sv_grants sv' g = Some st' \<and> gs_revoked st') \<and> copying g sv' \<subseteq> copying g sv"
  using assms(3)
proof (cases rule: relay_step.cases)
  case (arrive c now w recv)
  let ?sv = "sv\<lparr>sv_conns := c # sv_conns sv\<rparr>"
  have "copying g sv' \<subseteq> copying g sv"
    using handle_sessions [of now w c recv ?sv] arrive(1) by (auto simp add: copying_def piping_def new_session_def)
  moreover have "\<exists>st'. sv_grants sv' g = Some st' \<and> gs_revoked st'"
    using handle_grants [of now w c recv ?sv] arrive(1) assms(1,2) state_of_seen [of ?sv g st now]
    by (auto split: if_splits)
  ultimately show ?thesis
    by blast
next
  case (timeout c g' w)
  then show ?thesis
    using timeout_sessions [of w c g' sv] assms(1,2) by (auto simp add: copying_def split: if_splits)
next
  case (pair s w1 w2)
  then show ?thesis
    using pair_sessions [of cfg w1 w2 s sv] assms(1,2)
    by (auto simp add: copying_def piping_def dest: remove1_mem)
next
  case (start s now)
  show ?thesis
  proof (cases "ss_Grant s = g")
    case True
    then show ?thesis
      using start_own [OF assms(1) True, of cfg now] start(1) assms(2)
      by (auto simp add: copying_def dest: remove1_mem)
  next
    case False
    then show ?thesis
      using start_other [OF False, of cfg now sv] start_sessions [of cfg now s sv] start(1) assms(1,2)
      by (auto simp add: copying_def piping_def dest: remove1_mem)
  qed
next
  case (finish s r n)
  have "copying g sv' \<subseteq> copying g sv"
    using finish_sessions [of n s sv] finish(1) by (auto simp add: copying_def dest: remove1_mem)
  then show ?thesis
    using finish_own [OF assms(1), of s n] finish_other [of s g n sv] finish(1) assms(1,2)
    by (cases "ss_Grant s = g") auto
next
  case (revoke now w g')
  then show ?thesis
    using revoke_sessions [of now w g' sv] assms(1,2) by (auto simp add: copying_def grant_state_def)
qed

section \<open>Sample runs\<close>

definition sample_grant :: GrantID where "sample_grant = ''grt_'' @ replicate 26 (CHR ''0'')"

definition sample_frame :: "Role \<Rightarrow> ConnectFrame" where
  "sample_frame r = \<lparr>cf_Grant = sample_grant, cf_Role = r, cf_Source = ''brg_'' @ replicate 26 (CHR ''0''),
     cf_Sink = ''brg_'' @ replicate 26 (CHR ''1''), cf_ResumeOffset = 0\<rparr>"

lemma sample_frame_fields: "cf_Grant (sample_frame r) = sample_grant" "cf_Role (sample_frame r) = r"
  by (simp_all add: sample_frame_def)

definition sample_relay :: RelayConfig where
  "sample_relay = \<lparr>rl_MaxBytesPerGrant = 10, rl_MaxDuration = 0, rl_MaxConcurrent = 0, rl_MaxBytesPerSecond = 0,
     rl_PairingTimeout = 0\<rparr>"

lemma sample_frames_valid: "validateFrame (sample_frame RoleSource) = None" "validateFrame (sample_frame RoleSink) = None"
  by code_simp+

lemma sample_limits: "maxBytes sample_relay = 10" "maxDuration sample_relay = DefaultMaxDuration"
  "maxConcurrent sample_relay = DefaultMaxConcurrent"
  by (simp_all add: maxBytes_def maxDuration_def maxConcurrent_def sample_relay_def)

definition arriving :: "conn \<Rightarrow> Role \<Rightarrow> Server \<Rightarrow> Server" where
  "arriving c r sv = handle 0 True c (Frame (sample_frame r)) (sv\<lparr>sv_conns := c # sv_conns sv\<rparr>)"

lemma arriving_reach: "relay_reach cfg sv \<Longrightarrow> c \<notin> set (sv_conns sv) \<Longrightarrow> relay_reach cfg (arriving c r sv)"
  unfolding arriving_def by (rule relay_reach.step [OF _ relay_step.arrive])

definition sample_session :: "conn \<Rightarrow> conn \<Rightarrow> phase \<Rightarrow> session" where
  "sample_session c d ph = \<lparr>ss_Grant = sample_grant, ss_src = c, ss_sink = d, ss_peer = c, ss_resumeAt = 0, ss_phase = ph\<rparr>"

text \<open>A source and then a sink arrive, are paired and start to copy.\<close>

definition joined :: "conn \<Rightarrow> conn \<Rightarrow> Server \<Rightarrow> Server" where
  "joined c d sv = pipe_start sample_relay 0 (sample_session c d Admitted)
     (pairAndRelay sample_relay True True (sample_session c d Paired)
       (arriving d RoleSink (arriving c RoleSource sv)))"

text \<open>A grant's state when nothing waits.\<close>

definition sample_state :: "int \<Rightarrow> (conn \<times> conn) option \<Rightarrow> grantState" where
  "sample_state k act = \<lparr>gs_firstSeen = 0, gs_bytesRelayed = k, gs_revoked = False, gs_waiting = None, gs_active = act\<rparr>"

definition idle :: "(conn \<times> conn) option \<Rightarrow> Server \<Rightarrow> bool" where
  "idle act sv = (grant_state 0 sample_grant sv = sample_state 0 act \<and> sv_closed sv = [] \<and> sv_waiters sv = [] \<and>
     sv_active sv \<le> 1)"

lemma joined_step:
  assumes "relay_reach sample_relay sv" "idle act sv" "c \<notin> set (sv_conns sv)" "d \<notin> set (sv_conns sv)" "c \<noteq> d"
  shows "relay_reach sample_relay (joined c d sv) \<and>
    sv_sessions (joined c d sv) = sample_session c d (Piping 10) # sv_sessions sv \<and>
    sv_grants (joined c d sv) sample_grant = Some (sample_state 0 (Some (c, d))) \<and>
    sv_closed (joined c d sv) = [] \<and> sv_waiters (joined c d sv) = [] \<and>
    sv_active (joined c d sv) = sv_active sv + 1 \<and> sv_conns (joined c d sv) = d # c # sv_conns sv"
proof -
  have st: "grant_state 0 sample_grant sv = sample_state 0 act" "sv_closed sv = []" "sv_waiters sv = []" "sv_active sv \<le> 1"
    using assms(2) by (simp_all add: idle_def)
  note fg = sample_frame_fields
  define s1 where "s1 = arriving c RoleSource sv"
  have s1: "s1 = sv\<lparr>sv_conns := c # sv_conns sv, sv_waiters := [(c, sample_grant)],
      sv_grants := (sv_grants sv)(sample_grant \<mapsto> (sample_state 0 act)\<lparr>gs_waiting := Some (c, RoleSource)\<rparr>)\<rparr>"
    using st by (simp add: s1_def arriving_def handle_def sample_frames_valid fg Let_def grant_state_def sample_state_def
        become_waiting_def put_state_def split: option.splits)
  define s2 where "s2 = arriving d RoleSink s1"
  have s2: "s2 = sv\<lparr>sv_conns := d # c # sv_conns sv, sv_waiters := [(c, sample_grant)],
      sv_sessions := sample_session c d Paired # sv_sessions sv,
      sv_grants := (sv_grants sv)(sample_grant \<mapsto> sample_state 0 act)\<rparr>"
    using s1 by (simp add: s2_def arriving_def handle_def sample_frames_valid fg Let_def grant_state_def sample_state_def
        put_state_def new_session_def sample_session_def)
  define s3 where "s3 = pairAndRelay sample_relay True True (sample_session c d Paired) s2"
  have s3: "sv_sessions s3 = sample_session c d Admitted # sv_sessions sv" "sv_closed s3 = []" "sv_waiters s3 = []"
      "sv_grants s3 = (sv_grants sv)(sample_grant \<mapsto> sample_state 0 act)" "sv_active s3 = sv_active sv + 1"
      "sv_conns s3 = d # c # sv_conns sv"
    using st s2 by (simp_all add: s3_def pairAndRelay_def admit_def sample_limits DefaultMaxConcurrent_def sendAck_def
        signal_def sample_session_def Let_def)
  have j: "joined c d sv = pipe_start sample_relay 0 (sample_session c d Admitted) s3"
    by (simp add: joined_def s1_def s2_def s3_def)
  have r1: "relay_reach sample_relay s1"
    unfolding s1_def by (rule arriving_reach [OF assms(1,3)])
  have r2: "relay_reach sample_relay s2"
    unfolding s2_def by (rule arriving_reach [OF r1]) (use assms(4,5) in \<open>simp add: s1\<close>)
  have "relay_step sample_relay s2 s3"
    unfolding s3_def by (rule relay_step.pair) (simp_all add: s2 sample_session_def)
  then have r3: "relay_reach sample_relay s3"
    using r2 relay_reach.step by blast
  have "relay_step sample_relay s3 (joined c d sv)"
    unfolding j by (rule relay_step.start) (simp_all add: s3 sample_session_def)
  then have "relay_reach sample_relay (joined c d sv)"
    using r3 relay_reach.step by blast
  then show ?thesis
    unfolding j using s3
    by (simp add: pipe_start_def Let_def sample_limits sample_state_def relay_facts DefaultMaxDuration_def)
      (simp add: sample_session_def put_state_def)
qed

definition two_sessions :: Server where
  "two_sessions = joined 3 4 (joined 1 2 NewServer)"

lemma two_sessions_facts:
  "relay_reach sample_relay two_sessions"
  "sv_sessions two_sessions = [sample_session 3 4 (Piping 10), sample_session 1 2 (Piping 10)]"
  "sv_grants two_sessions sample_grant = Some (sample_state 0 (Some (3, 4)))" "sv_closed two_sessions = []"
  "sv_active two_sessions = 2"
proof -
  have "idle None NewServer"
    by (simp add: idle_def NewServer_def grant_state_def sample_state_def)
  note one = joined_step [OF relay_reach.init this, of 1 2]
  have "idle (Some (1, 2)) (joined 1 2 NewServer)"
    using one by (simp add: idle_def NewServer_def grant_state_def)
  note two = joined_step [OF conjunct1 [OF one] this, of 3 4]
  show "relay_reach sample_relay two_sessions"
    "sv_sessions two_sessions = [sample_session 3 4 (Piping 10), sample_session 1 2 (Piping 10)]"
    "sv_grants two_sessions sample_grant = Some (sample_state 0 (Some (3, 4)))" "sv_closed two_sessions = []"
    "sv_active two_sessions = 2"
    using one two by (simp_all add: two_sessions_def NewServer_def)
qed

section \<open>Properties\<close>

text \<open>C22: the relay never runs more sessions than configured: in every reachable state, whatever
  order the connections, acknowledgements, timers and revocations come in, the counter of active
  sessions is exactly the number of admitted ones and within the limit.\<close>

theorem relay_admission_exact:
  assumes "relay_reach cfg sv"
  shows "sv_active sv = int (length (filter admitted (sv_sessions sv))) \<and> sv_active sv \<le> maxConcurrent cfg"
  using relay_reach_slots [OF assms] by (simp add: slots_def)

theorem relay_admission_exact_witness:
  "sv_active two_sessions = int (length (filter admitted (sv_sessions two_sessions))) \<and>
    sv_active two_sessions \<le> maxConcurrent sample_relay"
  by (rule relay_admission_exact [OF two_sessions_facts(1)])



text \<open>A revoked grant never starts to relay: from any state at all, reachable in sequence or
  not, a step leaves it revoked, and every session copying for it afterwards was copying before.\<close>

theorem revoked_grant_never_starts:
  assumes "sv_grants sv g = Some st" and "gs_revoked st" and "relay_step cfg sv sv'"
  shows "(\<exists>st'. sv_grants sv' g = Some st' \<and> gs_revoked st') \<and> copying g sv' \<subseteq> copying g sv"
  using revoked_step [OF assms] .

theorem revoked_grant_never_starts_witness:
  "let sv = revoke_grant 0 True sample_grant NewServer;
       sv' = arriving 1 RoleSource sv
   in (\<exists>st'. sv_grants sv' sample_grant = Some st' \<and> gs_revoked st') \<and> copying sample_grant sv' \<subseteq> copying sample_grant sv"
proof -
  let ?sv = "revoke_grant 0 True sample_grant NewServer"
  have st: "sv_grants ?sv sample_grant = Some ((grant_state 0 sample_grant NewServer)\<lparr>gs_revoked := True, gs_waiting := None\<rparr>)"
    using revoke_sessions [of 0 True sample_grant NewServer] by simp
  have "sv_conns ?sv = []"
    by (simp add: revoke_grant_def NewServer_def grant_state_def put_state_def Let_def)
  then have "relay_step sample_relay ?sv (arriving 1 RoleSource ?sv)"
    unfolding arriving_def by (intro relay_step.arrive) simp
  from revoked_grant_never_starts [OF st _ this] show ?thesis
    by (simp add: Let_def)
qed

text \<open>Two sessions of one grant escape both limits: the relay pairs a second source and sink
  while the first pair still copies, and then the grant can relay twice its byte cap, and a
  revocation closes only the pair that started last while the first keeps copying.\<close>

theorem parallel_sessions_escape:
  "(\<exists>sv st. relay_reach sample_relay sv \<and> sv_grants sv sample_grant = Some st \<and>
      gs_bytesRelayed st = 2 * maxBytes sample_relay) \<and>
    (\<exists>sv st s. relay_reach sample_relay sv \<and> sv_grants sv sample_grant = Some st \<and> gs_revoked st \<and>
      s \<in> copying sample_grant sv \<and> ss_src s \<notin> set (sv_closed sv) \<and> ss_sink s \<notin> set (sv_closed sv))"
proof
  let ?a = "sample_session 1 2 (Piping 10)" and ?b = "sample_session 3 4 (Piping 10)"
  note f = two_sessions_facts
  have g: "ss_Grant ?a = sample_grant" "ss_Grant ?b = sample_grant"
    by (simp_all add: sample_session_def)
  let ?s1 = "pipe_finish 10 ?a two_sessions"
  have s1: "relay_step sample_relay two_sessions ?s1"
    by (rule relay_step.finish [where r = 10]) (simp_all add: f sample_session_def)
  have s2: "relay_step sample_relay ?s1 (pipe_finish 10 ?b ?s1)"
    by (rule relay_step.finish [where r = 10])
      (use finish_sessions [of 10 ?a two_sessions] f in \<open>simp_all add: sample_session_def\<close>)
  have "relay_reach sample_relay (pipe_finish 10 ?b ?s1)"
    using f(1) s1 s2 relay_reach.step by blast
  moreover have "\<exists>st. sv_grants (pipe_finish 10 ?b ?s1) sample_grant = Some st \<and> gs_bytesRelayed st = 2 * maxBytes sample_relay"
    using finish_own [OF finish_own [OF f(3) g(1), of 10] g(2), of 10] by (simp add: sample_state_def sample_limits)
  ultimately show "\<exists>sv st. relay_reach sample_relay sv \<and> sv_grants sv sample_grant = Some st \<and>
      gs_bytesRelayed st = 2 * maxBytes sample_relay"
    by blast
  let ?r = "revoke_grant 0 True sample_grant two_sessions"
  have "relay_reach sample_relay ?r"
    using f(1) relay_step.revoke relay_reach.step by blast
  moreover have "sv_closed ?r = [4, 3]"
    using f by (simp add: revoke_grant_def grant_state_def sample_state_def Let_def relay_facts)
  moreover have "?a \<in> copying sample_grant ?r"
    using revoke_sessions [of 0 True sample_grant two_sessions] f(2)
    by (simp add: copying_def piping_def) (simp add: sample_session_def)
  moreover have "sv_grants ?r sample_grant = Some ((grant_state 0 sample_grant two_sessions)\<lparr>gs_revoked := True, gs_waiting := None\<rparr>)"
    using revoke_sessions [of 0 True sample_grant two_sessions] by simp
  ultimately show "\<exists>sv st s. relay_reach sample_relay sv \<and> sv_grants sv sample_grant = Some st \<and> gs_revoked st \<and>
      s \<in> copying sample_grant sv \<and> ss_src s \<notin> set (sv_closed sv) \<and> ss_sink s \<notin> set (sv_closed sv)"
    by (intro exI [of _ ?r] exI [of _ ?a]) (auto simp add: sample_session_def)
qed

text \<open>A displaced waiter leaks: a second connection of the same role takes the first one's place,
  and when both timers have fired the first connection is still open, was never answered, and no
  goroutine, grant or session refers to it any more.\<close>

theorem displaced_waiter_leaks:
  "\<exists>sv st. relay_reach sample_relay sv \<and> 1 \<in> set (sv_conns sv) \<and> 1 \<notin> set (sv_closed sv) \<and>
    (\<forall>a. (1, a) \<notin> set (sv_acks sv)) \<and> sv_waiters sv = [] \<and> sv_sessions sv = [] \<and>
    sv_grants sv = [sample_grant \<mapsto> st] \<and> gs_waiting st = None \<and> gs_active st = None"
proof -
  note defs = arriving_def handle_def sample_frames_valid sample_frame_fields grant_state_def become_waiting_def
    put_state_def NewServer_def
  define s1 where "s1 = arriving 1 RoleSource NewServer"
  have s1: "s1 = NewServer\<lparr>sv_conns := [1], sv_waiters := [(1, sample_grant)],
      sv_grants := [sample_grant \<mapsto> (sample_state 0 None)\<lparr>gs_waiting := Some (1, RoleSource)\<rparr>]\<rparr>"
    by (simp add: s1_def defs Let_def sample_state_def)
  define s2 where "s2 = arriving 2 RoleSource s1"
  have s2: "s2 = NewServer\<lparr>sv_conns := [2, 1], sv_waiters := [(2, sample_grant), (1, sample_grant)],
      sv_grants := [sample_grant \<mapsto> (sample_state 0 None)\<lparr>gs_waiting := Some (2, RoleSource)\<rparr>]\<rparr>"
    by (simp add: s2_def s1 defs Let_def sample_state_def)
  define s3 where "s3 = pairing_timeout True 1 sample_grant s2"
  have s3: "s3 = s2\<lparr>sv_waiters := [(2, sample_grant)]\<rparr>"
    by (simp add: s3_def s2 pairing_timeout_def signal_def NewServer_def sample_state_def Let_def)
  define s4 where "s4 = pairing_timeout True 2 sample_grant s3"
  have s4: "s4 = NewServer\<lparr>sv_conns := [2, 1], sv_closed := [2], sv_acks := [(2, ack_err PairingTimedOut)],
      sv_grants := [sample_grant \<mapsto> sample_state 0 None]\<rparr>"
    by (simp add: s4_def s3 s2 pairing_timeout_def signal_def NewServer_def sample_state_def Let_def
        sendAckAndClose_def sendAck_def close_conn_def put_state_def)
  have r1: "relay_reach sample_relay s1"
    unfolding s1_def by (rule arriving_reach [OF relay_reach.init]) (simp add: NewServer_def)
  have r2: "relay_reach sample_relay s2"
    unfolding s2_def by (rule arriving_reach [OF r1]) (simp add: s1)
  have "relay_step sample_relay s2 s3"
    unfolding s3_def by (rule relay_step.timeout) (simp add: s2)
  moreover have "relay_step sample_relay s3 s4"
    unfolding s4_def by (rule relay_step.timeout) (simp add: s3)
  ultimately have "relay_reach sample_relay s4"
    using r2 relay_reach.step by blast
  then show ?thesis
    by (intro exI [of _ s4] exI [of _ "sample_state 0 None"]) (simp add: s4 NewServer_def sample_state_def)
qed

end
