(* ===== verification/Transport.thy ===== *)
theory Transport
  imports Relay Adapters
begin

text \<open>
  Moving a payload between two Bridges, \<open>src/bridge/transport/transport.go\<close>, with the client half
  \<open>Connect\<close> of \<open>src/relay/relay.go\<close>.  What the network does in one iteration of a loop is an
  attempt: whether a direct dial or accept succeeds, what the relay replies to the frame it is
  sent, how much a connection accepts or carries before it fails, and whether the context is
  cancelled.  A loop consumes one attempt per iteration and is still running when they are used up.
\<close>

section \<open>Routes and peers\<close>

datatype Route = RouteDirect | RouteRelay

record Endpoint =
  ep_Grant :: GrantID
  ep_Source :: string
  ep_Sink :: string

record Peer =
  pr_DirectAddr :: string
  pr_RelayAddr :: string

record Router =
  rt_DirectTimeout :: int
  rt_RelayDialTimeout :: int

definition DefaultDirectTimeout :: int where "DefaultDirectTimeout = 5 * 1000000000"
definition DefaultRelayDialTimeout :: int where "DefaultRelayDialTimeout = 10 * 1000000000"

definition direct_timeout :: "Router \<Rightarrow> int" where
  "direct_timeout r = (if rt_DirectTimeout r > 0 then rt_DirectTimeout r else DefaultDirectTimeout)"

definition relayDialTimeout :: "Router \<Rightarrow> int" where
  "relayDialTimeout r = (if rt_RelayDialTimeout r > 0 then rt_RelayDialTimeout r else DefaultRelayDialTimeout)"

section \<open>The handshake with the relay\<close>

datatype reply = WriteFailed | NoReply | BadReply | Reply AckFrame

datatype handshake_error = HandshakeWrite | HandshakeRead | HandshakeMalformed | HandshakeRefused relay_error

definition Connect :: "reply \<Rightarrow> handshake_error + AckFrame" where
  "Connect r =
     (case r of
        WriteFailed \<Rightarrow> Inl HandshakeWrite
      | NoReply \<Rightarrow> Inl HandshakeRead
      | BadReply \<Rightarrow> Inl HandshakeMalformed
      | Reply ack \<Rightarrow> (case ak_Err ack of Some e \<Rightarrow> Inl (HandshakeRefused e) | None \<Rightarrow> Inr ack))"

datatype transport_error = NoRelayConfigured | RelayUnreachable | RelayHandshake handshake_error

text \<open>A dial of the relay: it fails, or the relay replies to the frame and then there is a
  connection \<open>'c\<close>.\<close>

datatype 'c relay_dial = Unreachable | Reached "ConnectFrame \<Rightarrow> reply" 'c

definition connect_frame :: "Endpoint \<Rightarrow> Role \<Rightarrow> nat \<Rightarrow> ConnectFrame" where
  "connect_frame ep role resumeOffset = \<lparr>cf_Grant = ep_Grant ep, cf_Role = role, cf_Source = ep_Source ep,
     cf_Sink = ep_Sink ep, cf_ResumeOffset = int resumeOffset\<rparr>"

definition dialRelay :: "Peer \<Rightarrow> Endpoint \<Rightarrow> Role \<Rightarrow> nat \<Rightarrow> 'c relay_dial \<Rightarrow> transport_error + ('c \<times> int)" where
  "dialRelay peer ep role resumeOffset relay =
     (if pr_RelayAddr peer = '''' then Inl NoRelayConfigured
      else case relay of
        Unreachable \<Rightarrow> Inl RelayUnreachable
      | Reached replies conn \<Rightarrow>
        (case Connect (replies (connect_frame ep role resumeOffset)) of
           Inl e \<Rightarrow> Inl (RelayHandshake e)
         | Inr ack \<Rightarrow> Inr (conn, ak_Offset ack)))"

definition Dial :: "Peer \<Rightarrow> Endpoint \<Rightarrow> Role \<Rightarrow> nat \<Rightarrow> 'c option \<Rightarrow> 'c relay_dial
    \<Rightarrow> transport_error + ('c \<times> Route \<times> int)" where
  "Dial peer ep role resumeOffset direct relay =
     (case (if pr_DirectAddr peer \<noteq> '''' then direct else None) of
        Some c \<Rightarrow> Inr (c, RouteDirect, int resumeOffset)
      | None \<Rightarrow>
        (case dialRelay peer ep role resumeOffset relay of
           Inl e \<Rightarrow> Inl e
         | Inr (c, off) \<Rightarrow> Inr (c, RouteRelay, off)))"

section \<open>Sending\<close>

text \<open>A connection to write to: the number of bytes it still accepts before it fails, if it fails.\<close>

type_synonym wconn = "nat option"

definition Write :: "wconn \<Rightarrow> bytes \<Rightarrow> wconn \<times> nat \<times> bool" where
  "Write w b =
     (case w of
        None \<Rightarrow> (None, length b, False)
      | Some k \<Rightarrow> if length b \<le> k then (Some (k - length b), length b, False) else (Some 0, k, True))"

record Session =
  tr_Peer :: Peer
  tr_Endpoint :: Endpoint
  tr_ChunkSize :: int

definition DefaultChunkSize :: int where "DefaultChunkSize = 64 * 2 ^ 10"

definition chunkSize :: "Session \<Rightarrow> int" where
  "chunkSize s = (if tr_ChunkSize s > 0 then tr_ChunkSize s else DefaultChunkSize)"

lemma chunkSize_pos: "0 < nat (chunkSize s)"
  by (simp add: chunkSize_def DefaultChunkSize_def)

datatype send_error = WriteError | SourceEOF | SourceError

lemma ReadAt_full: "ReadAt src off n = (b, ReadFull) \<Longrightarrow> length b = n"
  by (auto simp add: ReadAt_bad Let_def split: if_splits)

lemma Write_all: "Write w b = (w', k, False) \<Longrightarrow> k = length b"
  by (auto simp add: Write_def split: option.splits if_splits)

lemma send_progress:
  assumes "(buf, ReadFull) = ReadAt src off n" and "0 < n"
    and "(w', y) = (if buf \<noteq> [] then Write w buf else (w, 0, False))" and "(k, False) = y"
  shows "0 < length (take k buf)"
proof -
  have "buf \<noteq> []"
    using ReadAt_full [OF assms(1) [symmetric]] assms(2) by auto
  then show ?thesis
    using assms(3,4) Write_all [of w buf w' k] by auto
qed

text \<open>\<open>sendFrom\<close>; \<open>out\<close> is what the connection accepted so far, \<open>sent\<close> its length.\<close>

function sendFrom :: "Session \<Rightarrow> wconn \<Rightarrow> payload \<Rightarrow> nat \<Rightarrow> nat \<Rightarrow> bytes \<Rightarrow> bytes \<times> send_error option" where
  "sendFrom s w src offset sz out =
     (if offset + length out < sz then
        (let n = min (nat (chunkSize s)) (sz - offset - length out) in
         case ReadAt src (offset + length out) n of
           (buf, e) \<Rightarrow>
           (case (if buf \<noteq> [] then Write w buf else (w, 0, False)) of
              (w', written, werr) \<Rightarrow>
              if werr then (out @ take written buf, Some WriteError)
              else (case e of
                ReadFull \<Rightarrow> sendFrom s w' src offset sz (out @ take written buf)
              | ReadEOF \<Rightarrow> if offset + length (out @ take written buf) \<ge> sz then (out @ take written buf, None)
                  else (out @ take written buf, Some SourceEOF)
              | ReadFailed \<Rightarrow> (out @ take written buf, Some SourceError))))
      else (out, None))"
  by pat_completeness auto
termination
  apply (relation "measure (\<lambda>(s, w, src, offset, sz, out). sz - (offset + length out))")
  subgoal by simp
  subgoal premises p for s w src offset sz out n buf e w' y k werr
    using send_progress [of buf src "offset + length out" n w' y w k] p chunkSize_pos [of s]
    by (simp, intro diff_less_mono2) simp_all
  done

declare sendFrom.simps [simp del]

record send_attempt =
  sa_direct :: "wconn option"
  sa_relay :: "wconn relay_dial"
  sa_cancelled :: bool

text \<open>The variables of \<open>Send\<close>, and what each connection accepted from which offset.\<close>

record sender =
  sn_routes :: "Route list"
  sn_lastRoute :: "Route option"
  sn_offset :: nat
  sn_trace :: "(nat \<times> bytes) list"

datatype send_end = SendDone | SendNoRoute transport_error | SendCancelled | SendRunning

definition new_sender :: sender where
  "new_sender = \<lparr>sn_routes = [], sn_lastRoute = None, sn_offset = 0, sn_trace = []\<rparr>"

definition send_step :: "Session \<Rightarrow> payload \<Rightarrow> nat \<Rightarrow> send_attempt \<Rightarrow> sender \<Rightarrow> send_end option \<times> sender" where
  "send_step s src sz a st =
     (case Dial (tr_Peer s) (tr_Endpoint s) RoleSource (sn_offset st) (sa_direct a) (sa_relay a) of
        Inl e \<Rightarrow> (Some (SendNoRoute e), st)
      | Inr (conn, route, actual) \<Rightarrow>
        (let offset = nat (max (int (sn_offset st)) actual);
             routes = (if sn_lastRoute st \<noteq> Some route then sn_routes st @ [route] else sn_routes st);
             (out, err) = sendFrom s conn src offset sz [];
             st' = \<lparr>sn_routes = routes, sn_lastRoute = Some route, sn_offset = offset + length out,
               sn_trace = sn_trace st @ [(offset, out)]\<rparr>
         in if err = None then (Some SendDone, st')
            else if sa_cancelled a then (Some SendCancelled, st')
            else (None, st')))"

fun send_loop :: "Session \<Rightarrow> payload \<Rightarrow> nat \<Rightarrow> send_attempt list \<Rightarrow> sender \<Rightarrow> send_end \<times> sender" where
  "send_loop s src sz [] st = (if sn_offset st < sz then (SendRunning, st) else (SendDone, st))"
| "send_loop s src sz (a # as) st =
     (if sn_offset st < sz then
        (case send_step s src sz a st of
           (Some e, st') \<Rightarrow> (e, st')
         | (None, st') \<Rightarrow> send_loop s src sz as st')
      else (SendDone, st))"

definition Send :: "Session \<Rightarrow> payload \<Rightarrow> nat \<Rightarrow> send_attempt list \<Rightarrow> send_end \<times> sender" where
  "Send s src sz as = send_loop s src sz as new_sender"

section \<open>Receiving\<close>









section \<open>What a connection accepts\<close>

definition readable :: "payload \<Rightarrow> bytes" where
  "readable src = (case pl_bad src of None \<Rightarrow> pl_bytes src | Some k \<Rightarrow> take k (pl_bytes src))"

definition accepted :: "wconn \<Rightarrow> bytes \<Rightarrow> bytes" where
  "accepted w b = (case w of None \<Rightarrow> b | Some k \<Rightarrow> take k b)"

lemma accepted_nil [simp]: "accepted w [] = []"
  by (simp add: accepted_def split: option.splits)

lemma accepted_prefix: "\<exists>k. accepted w b = take k b"
  by (cases w) (auto simp add: accepted_def intro: exI [of _ "length b"])

lemma Write_nil: "Write w [] = (w, 0, False)"
  by (simp add: Write_def split: option.splits)

lemma Write_accepted:
  assumes "Write w b = (w', k, werr)"
  shows "take k b = accepted w b" and "werr \<Longrightarrow> accepted w (b @ c) = accepted w b"
    and "\<not> werr \<Longrightarrow> accepted w (b @ c) = b @ accepted w' c"
  using assms by (auto simp add: Write_def accepted_def split: option.splits if_splits)

lemma ReadAt_readable:
  assumes "ReadAt src off n = (b, e)"
  shows "b = take n (drop off (readable src))" and "0 < n \<Longrightarrow> e \<noteq> ReadFull \<Longrightarrow> length b < n"
  using assms by (auto simp add: ReadAt_bad readable_def Let_def drop_take min_def split: option.splits if_splits)

lemma take_then_drop: "b = take n c \<Longrightarrow> c = b @ drop (length b) c"
  by (cases "n \<le> length c") simp_all

lemma sendFrom_spec:
  assumes "sendFrom s w src offset sz out = (r, e)"
  shows "r = out @ accepted w (drop (offset + length out) (take sz (readable src))) \<and>
    (e = None \<longrightarrow> sz \<le> offset + length r)"
  using assms
proof (induction "sz - (offset + length out)" arbitrary: w out rule: less_induct)
  case less
  let ?o = "offset + length out"
  show ?case
  proof (cases "?o < sz")
    case False
    then show ?thesis
      using less.prems by (simp add: sendFrom.simps [of s w])
  next
    case True
    define n where "n = min (nat (chunkSize s)) (sz - offset - length out)"
    have n: "0 < n" "n \<le> sz - ?o"
      using True chunkSize_pos [of s] by (simp_all add: n_def min_def)
    obtain buf re where rd: "ReadAt src ?o n = (buf, re)"
      by fastforce
    obtain w' k werr where wr: "Write w buf = (w', k, werr)"
      using prod_cases3 by blast
    let ?B = "drop ?o (take sz (readable src))"
    have buf: "buf = take n ?B"
      using ReadAt_readable(1) [OF rd] n by (simp add: drop_take min_def)
    have B: "?B = buf @ drop (length buf) ?B"
      by (rule take_then_drop [OF buf])
    note A = Write_accepted [OF wr]
    have step: "(if buf \<noteq> [] then Write w buf else (w, 0, False)) = (w', k, werr)"
      using wr Write_nil [of w] by (cases buf) auto
    have unf: "sendFrom s w src offset sz out =
        (if werr then (out @ take k buf, Some WriteError)
         else case re of ReadFull \<Rightarrow> sendFrom s w' src offset sz (out @ take k buf)
          | ReadEOF \<Rightarrow> if offset + length (out @ take k buf) \<ge> sz then (out @ take k buf, None)
              else (out @ take k buf, Some SourceEOF)
          | ReadFailed \<Rightarrow> (out @ take k buf, Some SourceError))"
      by (subst sendFrom.simps) (simp only: True if_True Let_def n_def [symmetric] rd step prod.case)
    show ?thesis
    proof (cases werr)
      case True
      then show ?thesis
        using less.prems unf A(1) A(2) [OF True, of "drop (length buf) ?B"] B by auto
    next
      case ok: False
      have k: "take k buf = buf"
        using wr ok Write_all [of w buf w' k] by simp
      have acc: "accepted w ?B = buf @ accepted w' (drop (length buf) ?B)"
        using A(3) [OF ok, of "drop (length buf) ?B"] B by simp
      show ?thesis
      proof (cases "re = ReadFull")
        case True
        have "length buf = n"
          using ReadAt_full rd True by blast
        then have "sz - (offset + length (out @ buf)) < sz - ?o"
          using n by simp
        from less.hyps [OF this, of w'] less.prems unf ok k True acc show ?thesis
          by (auto simp add: ac_simps)
      next
        case False
        then have "length buf < n"
          using ReadAt_readable(2) [OF rd n(1)] by simp
        then have "drop (length buf) ?B = []"
          using buf by (simp add: min_def split: if_splits)
        then show ?thesis
          using less.prems unf ok k False acc by (cases re) (auto split: if_splits)
      qed
    qed
  qed
qed

section \<open>What a run of \<open>Send\<close> put on the wire\<close>

fun forward :: "nat \<Rightarrow> (nat \<times> bytes) list \<Rightarrow> bool" where
  "forward n [] = True"
| "forward n ((off, b) # t) = (n \<le> off \<and> forward (off + length b) t)"

fun gapless :: "nat \<Rightarrow> (nat \<times> bytes) list \<Rightarrow> bool" where
  "gapless n [] = True"
| "gapless n ((off, b) # t) = (off = n \<and> gapless (n + length b) t)"

fun trace_end :: "nat \<Rightarrow> (nat \<times> bytes) list \<Rightarrow> nat" where
  "trace_end n [] = n"
| "trace_end n ((off, b) # t) = trace_end (off + length b) t"

lemma trace_append:
  "trace_end n (t @ [(off, b)]) = off + length b"
  "forward n (t @ [(off, b)]) = (forward n t \<and> trace_end n t \<le> off)"
  "gapless n (t @ [(off, b)]) = (gapless n t \<and> trace_end n t = off)"
proof -
  show "trace_end n (t @ [(off, b)]) = off + length b"
    by (induction n t rule: trace_end.induct) simp_all
  show "forward n (t @ [(off, b)]) = (forward n t \<and> trace_end n t \<le> off)"
    by (induction n t rule: trace_end.induct) auto
  show "gapless n (t @ [(off, b)]) = (gapless n t \<and> trace_end n t = off)"
    by (induction n t rule: gapless.induct) auto
qed

definition piece_of :: "bytes \<Rightarrow> nat \<times> bytes \<Rightarrow> bool" where
  "piece_of B p = (\<exists>k. snd p = take k (drop (fst p) B))"

lemma gapless_concat:
  assumes "gapless n t" and "\<forall>p\<in>set t. piece_of B p"
  shows "concat (map snd t) = take (length (concat (map snd t))) (drop n B) \<and>
    trace_end n t = n + length (concat (map snd t))"
  using assms
proof (induction n t rule: gapless.induct)
  case (2 n off b t)
  obtain k where k: "b = take k (drop n B)"
    using 2(2,3) by (auto simp add: piece_of_def)
  have ih: "concat (map snd t) = take (length (concat (map snd t))) (drop (n + length b) B)"
    "trace_end (n + length b) t = n + length b + length (concat (map snd t))"
    using 2 by simp_all
  have "drop n B = b @ drop (n + length b) B"
    using take_then_drop [OF k] by (simp add: add.commute)
  then show ?case
    using ih 2(2) by simp
qed simp

definition sender_ok :: "payload \<Rightarrow> nat \<Rightarrow> sender \<Rightarrow> bool" where
  "sender_ok src sz st = (forward 0 (sn_trace st) \<and> sn_offset st = trace_end 0 (sn_trace st) \<and>
     (\<forall>p\<in>set (sn_trace st). piece_of (take sz (readable src)) p))"

text \<open>A relay whose count is never ahead of the sender's, and one that takes every frame.\<close>

definition modest :: "'c relay_dial \<Rightarrow> bool" where
  "modest r = (case r of Unreachable \<Rightarrow> True
     | Reached replies c \<Rightarrow> \<forall>f ack. 0 \<le> cf_ResumeOffset f \<longrightarrow> replies f = Reply ack \<longrightarrow>
         ak_Offset ack \<le> cf_ResumeOffset f)"

definition welcomes :: "'c relay_dial \<Rightarrow> bool" where
  "welcomes r = (case r of Unreachable \<Rightarrow> False
     | Reached replies c \<Rightarrow> \<forall>f. \<exists>ack. replies f = Reply ack \<and> ak_Err ack = None)"

lemma connect_frame_offset: "0 \<le> cf_ResumeOffset (connect_frame ep role off)"
  by (simp add: connect_frame_def)

lemma Dial_modest:
  assumes "Dial peer ep role off d r = Inr (c, route, actual)" and "modest r"
  shows "actual \<le> int off"
proof -
  have le: "ak_Offset ack \<le> int off"
    if "replies (connect_frame ep role off) = Reply ack" "r = Reached replies c'" for replies c' ack
  proof -
    have "ak_Offset ack \<le> cf_ResumeOffset (connect_frame ep role off)"
      using assms(2) that connect_frame_offset [of ep role off] by (auto simp add: modest_def)
    then show ?thesis
      by (simp add: connect_frame_def)
  qed
  show ?thesis
    using assms(1) le
    by (auto simp add: Dial_def dialRelay_def Connect_def
        split: option.splits sum.splits prod.splits relay_dial.splits reply.splits if_splits)
qed

lemma dialRelay_welcome:
  assumes "welcomes r" and "pr_RelayAddr peer \<noteq> ''''" and "r = Reached replies c"
  shows "\<exists>actual. dialRelay peer ep role off r = Inr (c, actual)"
proof -
  obtain ack where "replies (connect_frame ep role off) = Reply ack" "ak_Err ack = None"
    using assms(1,3) by (auto simp add: welcomes_def)
  then show ?thesis
    using assms(2,3) by (auto simp add: dialRelay_def Connect_def)
qed

lemma Dial_welcome:
  assumes "welcomes r" and "pr_RelayAddr peer \<noteq> ''''"
  shows "\<exists>c route actual. Dial peer ep role off d r = Inr (c, route, actual)"
proof (cases r)
  case (Reached replies c)
  then show ?thesis
    using dialRelay_welcome [OF assms Reached, of ep role off]
    by (auto simp add: Dial_def split: option.splits)
qed (use assms in \<open>simp add: welcomes_def\<close>)

lemma send_step_cases:
  assumes "send_step s src sz a st = (r, st')"
  obtains (no_route) e where "r = Some (SendNoRoute e)" "st' = st"
      "Dial (tr_Peer s) (tr_Endpoint s) RoleSource (sn_offset st) (sa_direct a) (sa_relay a) = Inl e"
  | (sent) c route actual off out err
    where "Dial (tr_Peer s) (tr_Endpoint s) RoleSource (sn_offset st) (sa_direct a) (sa_relay a) = Inr (c, route, actual)"
      "off = nat (max (int (sn_offset st)) actual)" "sendFrom s c src off sz [] = (out, err)"
      "sn_offset st' = off + length out" "sn_trace st' = sn_trace st @ [(off, out)]"
      "r = (if err = None then Some SendDone else if sa_cancelled a then Some SendCancelled else None)"
proof (cases "Dial (tr_Peer s) (tr_Endpoint s) RoleSource (sn_offset st) (sa_direct a) (sa_relay a)")
  case (Inl e)
  then show ?thesis
    using assms no_route [of e] by (simp add: send_step_def)
next
  case (Inr x)
  obtain c route actual where x: "x = (c, route, actual)"
    using prod_cases3 by blast
  define off where "off = nat (max (int (sn_offset st)) actual)"
  obtain out err where o: "sendFrom s c src off sz [] = (out, err)"
    by fastforce
  show ?thesis
    using assms sent [OF Inr [unfolded x] off_def o] o
    by (auto simp add: send_step_def Inr x off_def [symmetric] Let_def split: if_splits)
qed

lemma send_step_ok:
  assumes "send_step s src sz a st = (r, st')" and "sender_ok src sz st"
  shows "sender_ok src sz st' \<and> (r = Some SendDone \<longrightarrow> sz \<le> sn_offset st') \<and>
    (gapless 0 (sn_trace st) \<and> modest (sa_relay a) \<longrightarrow> gapless 0 (sn_trace st'))"
  using assms(1)
proof (cases rule: send_step_cases)
  case (sent c route actual off out err)
  have out: "out = accepted c (drop off (take sz (readable src)))" "err = None \<longrightarrow> sz \<le> off + length out"
    using sendFrom_spec [OF sent(3)] by auto
  have "piece_of (take sz (readable src)) (off, out)"
    using accepted_prefix [of c] out(1) by (simp add: piece_of_def)
  moreover have "sn_offset st \<le> off"
    using sent(2) by simp
  moreover have "modest (sa_relay a) \<Longrightarrow> off = sn_offset st"
    using Dial_modest [OF sent(1)] sent(2) by simp
  ultimately show ?thesis
    using assms(2) sent(4-6) out(2) by (auto simp add: sender_ok_def trace_append)
qed (use assms in auto)

lemma send_loop_ok:
  assumes "send_loop s src sz as st = (fin, st')" and "sender_ok src sz st"
  shows "sender_ok src sz st' \<and> (fin = SendDone \<longrightarrow> sz \<le> sn_offset st') \<and>
    (gapless 0 (sn_trace st) \<and> (\<forall>a\<in>set as. modest (sa_relay a)) \<longrightarrow> gapless 0 (sn_trace st'))"
  using assms
proof (induction as arbitrary: st)
  case (Cons a as)
  obtain r st1 where step: "send_step s src sz a st = (r, st1)"
    by fastforce
  note ok = send_step_ok [OF step Cons.prems(2)]
  show ?case
  proof (cases "sn_offset st < sz")
    case True
    show ?thesis
    proof (cases r)
      case None
      then show ?thesis
        using Cons.IH [of st1] Cons.prems(1) step ok True by simp
    next
      case (Some e)
      then show ?thesis
        using Cons.prems(1) step ok True by auto
    qed
  qed (use Cons.prems in auto)
qed (auto split: if_splits)

lemma new_sender_ok: "sender_ok src sz new_sender"
  by (simp add: sender_ok_def new_sender_def)

lemma Send_ok:
  assumes "Send s src sz as = (fin, st)"
  shows "sender_ok src sz st \<and> (fin = SendDone \<longrightarrow> sz \<le> sn_offset st) \<and>
    ((\<forall>a\<in>set as. modest (sa_relay a)) \<longrightarrow> gapless 0 (sn_trace st))"
  using send_loop_ok [OF assms [unfolded Send_def] new_sender_ok] by (simp add: new_sender_def)

lemma Send_exact:
  assumes "Send s src sz as = (fin, st)" and "\<forall>a\<in>set as. modest (sa_relay a)"
  shows "concat (map snd (sn_trace st)) = take (sn_offset st) (take sz (readable src)) \<and>
    sn_offset st = length (concat (map snd (sn_trace st)))"
proof -
  have g: "gapless 0 (sn_trace st)" "sender_ok src sz st"
    using Send_ok [OF assms(1)] assms(2) by simp_all
  then show ?thesis
    using gapless_concat [OF g(1), of "take sz (readable src)"] by (simp add: sender_ok_def)
qed

section \<open>What a run of \<open>Receive\<close> keeps\<close>








lemma Send_done_exact:
  assumes "Send s src sz as = (SendDone, st)" and "\<forall>a\<in>set as. modest (sa_relay a)"
  shows "concat (map snd (sn_trace st)) = take sz (readable src)"
    and "length (concat (map snd (sn_trace st))) = sz" and "sz \<le> length (readable src)"
proof -
  have off: "sz \<le> sn_offset st"
    using Send_ok [OF assms(1)] by simp
  note e = Send_exact [OF assms]
  have "take (sn_offset st) (take sz (readable src)) = take sz (readable src)"
    using off by (simp add: min_absorb2)
  then have c: "concat (map snd (sn_trace st)) = take sz (readable src)"
    by (rule trans [OF conjunct1 [OF e]])
  have len: "sz \<le> length (concat (map snd (sn_trace st)))"
    by (rule subst [OF conjunct2 [OF e], of "\<lambda>n. sz \<le> n"]) (rule off)
  show "concat (map snd (sn_trace st)) = take sz (readable src)"
    by (rule c)
  have "sz \<le> length (take sz (readable src))"
    using len unfolding c .
  then show "sz \<le> length (readable src)" "length (concat (map snd (sn_trace st))) = sz"
    unfolding c by simp_all
qed

lemma short_of_size:
  assumes "gapless 0 (sn_trace st)" and "sender_ok src sz st" and "length (readable src) < sz"
  shows "sn_offset st < sz"
proof -
  have t: "concat (map snd (sn_trace st)) = take (length (concat (map snd (sn_trace st)))) (take sz (readable src))"
    "sn_offset st = length (concat (map snd (sn_trace st)))"
    using gapless_concat [OF assms(1), of "take sz (readable src)"] assms(2) by (simp_all add: sender_ok_def)
  have "length (concat (map snd (sn_trace st))) \<le> length (readable src)"
    by (subst t(1)) simp
  then show ?thesis
    using t(2) assms(3) by simp
qed

section \<open>Properties\<close>

text \<open>A transfer of four bytes in chunks of three: the direct connection dies after two bytes and
  the relay takes over.\<close>

definition sample_transfer :: Session where
  "sample_transfer = \<lparr>tr_Peer = \<lparr>pr_DirectAddr = ''peer:1'', pr_RelayAddr = ''relay:1''\<rparr>,
     tr_Endpoint = \<lparr>ep_Grant = ''g'', ep_Source = ''a'', ep_Sink = ''b''\<rparr>, tr_ChunkSize = 3\<rparr>"

definition sample_payload :: payload where
  "sample_payload = \<lparr>pl_bytes = [1, 2, 3, 4], pl_bad = None\<rparr>"

definition open_relay :: "'c \<Rightarrow> 'c relay_dial" where
  "open_relay c = Reached (\<lambda>f. Reply (ack_ok 0)) c"

definition sample_sends :: "send_attempt list" where
  "sample_sends = [\<lparr>sa_direct = Some (Some 2), sa_relay = open_relay None, sa_cancelled = False\<rparr>,
     \<lparr>sa_direct = None, sa_relay = Reached (\<lambda>f. Reply (ack_ok (cf_ResumeOffset f))) None, sa_cancelled = False\<rparr>]"


lemma sendFrom_done: "sz \<le> offset + length out \<Longrightarrow> sendFrom s w src offset sz out = (out, None)"
  by (subst sendFrom.simps) simp

lemma sample_Send:
  "Send sample_transfer sample_payload 4 sample_sends = (SendDone,
     \<lparr>sn_routes = [RouteDirect, RouteRelay], sn_lastRoute = Some RouteRelay, sn_offset = 4,
       sn_trace = [(0, [1, 2]), (2, [3, 4])]\<rparr>)"
proof -
  have ck: "chunkSize sample_transfer = 3"
    by (simp add: chunkSize_def sample_transfer_def)
  have "sendFrom sample_transfer (Some 2) sample_payload 0 4 [] = ([1, 2], Some WriteError)"
    by (subst sendFrom.simps) (simp add: ck ReadAt_def sample_payload_def Write_def)
  moreover have "sendFrom sample_transfer None sample_payload 2 4 [] = ([3, 4], None)"
    by (subst sendFrom.simps) (simp add: ck ReadAt_def sample_payload_def Write_def sendFrom_done)
  ultimately show ?thesis
    by (simp add: Send_def new_sender_def send_step_def Dial_def dialRelay_def Connect_def ack_ok_def
      sample_transfer_def [THEN arg_cong [where f = tr_Peer]] sample_transfer_def [THEN arg_cong [where f = tr_Endpoint]]
      sample_sends_def open_relay_def connect_frame_def Let_def)
qed

text \<open>Sending neither skips nor repeats a byte of the payload, whatever the network does: every
  connection gets a stretch of the payload that starts no earlier than the last one stopped, and
  against relays whose count is never ahead of the sender's the stretches join without a gap, so
  a send that reports success has put exactly the payload on the wire.\<close>

theorem sending_is_exact:
  assumes "Send s src sz as = (fin, st)"
  shows "forward 0 (sn_trace st) \<and> (\<forall>p\<in>set (sn_trace st). piece_of (take sz (readable src)) p) \<and>
    ((\<forall>a\<in>set as. modest (sa_relay a)) \<longrightarrow> gapless 0 (sn_trace st) \<and>
      (fin = SendDone \<longrightarrow> concat (map snd (sn_trace st)) = take sz (readable src) \<and> sz \<le> length (readable src)))"
proof (intro conjI impI)
  note ok = Send_ok [OF assms]
  show "forward 0 (sn_trace st)" "\<forall>p\<in>set (sn_trace st). piece_of (take sz (readable src)) p"
    using ok by (simp_all add: sender_ok_def)
  assume modest: "\<forall>a\<in>set as. modest (sa_relay a)"
  show "gapless 0 (sn_trace st)"
    using ok modest by simp
  assume "fin = SendDone"
  then show "concat (map snd (sn_trace st)) = take sz (readable src)" "sz \<le> length (readable src)"
    using Send_done_exact [OF _ modest] assms by blast+
qed

theorem sending_is_exact_witness:
  "\<exists>st. Send sample_transfer sample_payload 4 sample_sends = (SendDone, st) \<and> forward 0 (sn_trace st)"
  using sending_is_exact [OF sample_Send] sample_Send by blast



text \<open>C37: a payload that cannot be read to its size is never given up: as long as the peer or the
  relay takes the connections, the sender dials again and again for the rest and returns neither
  the read error nor any other.\<close>

theorem faulty_source_never_returns:
  assumes "length (readable src) < sz" and "pr_RelayAddr (tr_Peer s) \<noteq> ''''"
    and "\<forall>a\<in>set as. welcomes (sa_relay a) \<and> modest (sa_relay a) \<and> \<not> sa_cancelled a"
  shows "\<exists>st. Send s src sz as = (SendRunning, st) \<and> length (sn_trace st) = length as"
proof -
  have "\<exists>st'. send_loop s src sz as st = (SendRunning, st') \<and>
      length (sn_trace st') = length (sn_trace st) + length as"
    if "sender_ok src sz st" "gapless 0 (sn_trace st)" for st
    using assms(3) that
  proof (induction as arbitrary: st)
    case (Cons a as)
    obtain r st1 where step: "send_step s src sz a st = (r, st1)"
      by fastforce
    note ok = send_step_ok [OF step Cons.prems(2)]
    have g1: "gapless 0 (sn_trace st1)" "sender_ok src sz st1"
      using ok Cons.prems(1,3) by simp_all
    have "r = None \<and> length (sn_trace st1) = Suc (length (sn_trace st))"
      using step
    proof (cases rule: send_step_cases)
      case (no_route e)
      then show ?thesis
        using Dial_welcome [OF _ assms(2), of "sa_relay a" "tr_Endpoint s" RoleSource "sn_offset st" "sa_direct a"]
          Cons.prems(1) by simp
    next
      case (sent c route actual off out err)
      then show ?thesis
        using short_of_size [OF g1 assms(1)] ok Cons.prems(1) by (cases "err = None") auto
    qed
    then show ?case
      using Cons.IH [of st1] Cons.prems(1) g1 step short_of_size [OF Cons.prems(3,2) assms(1)] by simp
  next
    case Nil
    then show ?case
      using short_of_size [OF Nil.prems(3,2) assms(1)] by simp
  qed
  from this [OF new_sender_ok] show ?thesis
    by (simp add: Send_def new_sender_def)
qed

theorem faulty_source_never_returns_witness:
  "\<exists>st. Send sample_transfer sample_payload 5 [\<lparr>sa_direct = None, sa_relay = open_relay None, sa_cancelled = False\<rparr>] =
    (SendRunning, st) \<and> length (sn_trace st) = 1"
proof -
  let ?as = "[\<lparr>sa_direct = None, sa_relay = open_relay None, sa_cancelled = False\<rparr>] :: send_attempt list"
  have "\<forall>a\<in>set ?as. welcomes (sa_relay a) \<and> modest (sa_relay a) \<and> \<not> sa_cancelled a"
    by (simp add: open_relay_def welcomes_def modest_def ack_ok_def)
  then show ?thesis
    using faulty_source_never_returns [of sample_payload 5 sample_transfer ?as]
    by (simp add: sample_payload_def sample_transfer_def readable_def)
qed

end
