(* ===== verification/Names.thy ===== *)
theory Names
  imports Prelude
begin

text \<open>
  Names of reference entries, \<open>src/reference/name.go\<close>: the tags at the end of a name, the regions,
  languages and revision they state, and the rank that orders revisions.  Letter case and white
  space are those of the ASCII range; other bytes of a name pass through unchanged.
\<close>

section \<open>Library functions\<close>

text \<open>\<open>strings.EqualFold\<close>, \<open>FieldsFunc\<close>, \<open>Fields\<close>, \<open>LastIndexByte\<close>, \<open>SplitN\<close>, \<open>TrimFunc\<close> for
  everything but digits, and \<open>strconv.Atoi\<close>.\<close>

definition EqualFold :: "string \<Rightarrow> string \<Rightarrow> bool" where
  "EqualFold s t = (to_lower s = to_lower t)"

fun split_where :: "(char \<Rightarrow> bool) \<Rightarrow> string \<Rightarrow> string list" where
  "split_where P [] = [[]]"
| "split_where P (x # s) =
     (if P x then [] # split_where P s
      else case split_where P s of [] \<Rightarrow> [[x]] | p # ps \<Rightarrow> (x # p) # ps)"

definition FieldsFunc :: "(char \<Rightarrow> bool) \<Rightarrow> string \<Rightarrow> string list" where
  "FieldsFunc P s = filter (\<lambda>p. p \<noteq> '''') (split_where P s)"

definition Fields :: "string \<Rightarrow> string list" where
  "Fields s = FieldsFunc is_space s"

fun join :: "string \<Rightarrow> string list \<Rightarrow> string" where
  "join sep [] = ''''"
| "join sep [p] = p"
| "join sep (p # q # ps) = p @ sep @ join sep (q # ps)"

definition LastIndexByte :: "string \<Rightarrow> char \<Rightarrow> nat option" where
  "LastIndexByte s c =
     (if c \<in> set s then Some (length s - 1 - length (takeWhile (\<lambda>x. x \<noteq> c) (rev s))) else None)"

fun SplitN :: "char \<Rightarrow> nat \<Rightarrow> string \<Rightarrow> string list" where
  "SplitN c 0 s = []"
| "SplitN c (Suc 0) s = [s]"
| "SplitN c (Suc (Suc n)) s =
     (if c \<in> set s
      then takeWhile (\<lambda>x. x \<noteq> c) s # SplitN c (Suc n) (tl (dropWhile (\<lambda>x. x \<noteq> c) s))
      else [s])"

definition trim_to_digits :: "string \<Rightarrow> string" where
  "trim_to_digits s = rev (dropWhile (\<lambda>c. \<not> is_digit c) (rev (dropWhile (\<lambda>c. \<not> is_digit c) s)))"

definition digits_value :: "string \<Rightarrow> int" where
  "digits_value s = foldl (\<lambda>n c. 10 * n + (int (of_char c) - 48)) 0 s"

definition Atoi :: "string \<Rightarrow> int option" where
  "Atoi s =
     (let neg = (case s of c # r \<Rightarrow> c = CHR ''-'' | [] \<Rightarrow> False);
          d = (case s of c # r \<Rightarrow> if c = CHR ''-'' \<or> c = CHR ''+'' then r else s | [] \<Rightarrow> s);
          v = (if neg then - digits_value d else digits_value d) in
      if d = '''' \<or> \<not> list_all is_digit d then None
      else if - (2 ^ 63) \<le> v \<and> v < 2 ^ 63 then Some v else None)"

section \<open>Tags\<close>

record NameMeta =
  nm_CanonicalKey :: string
  nm_Regions :: "string list"
  nm_Languages :: "string list"
  nm_Revision :: string
  nm_RevisionRank :: int
  nm_Flags :: "string list"
  nm_IsBIOS :: bool

definition knownRegions :: "(string \<times> string) list" where
  "knownRegions = map (\<lambda>r. (to_lower r, r))
     [''World'', ''USA'', ''Europe'', ''Japan'', ''Asia'', ''Australia'', ''Brazil'', ''Canada'', ''China'',
      ''Korea'', ''Taiwan'', ''Russia'', ''France'', ''Germany'', ''Italy'', ''Spain'', ''Netherlands'',
      ''Sweden'', ''Norway'', ''Denmark'', ''Finland'', ''Portugal'', ''Greece'', ''Hong Kong'', ''India'',
      ''Israel'', ''Mexico'', ''New Zealand'', ''Poland'', ''Scandinavia'', ''South Africa'',
      ''Switzerland'', ''Turkey'', ''United Kingdom'', ''Belgium'', ''Austria'', ''Ireland'',
      ''Latin America'', ''Unknown'']"

definition knownLanguages :: "string list" where
  "knownLanguages =
     [''en'', ''ja'', ''fr'', ''de'', ''es'', ''it'', ''nl'', ''pt'', ''sv'', ''no'', ''da'', ''fi'', ''zh'', ''ko'',
      ''ru'', ''pl'', ''cs'', ''hu'', ''el'', ''tr'', ''ar'', ''he'', ''ca'', ''sl'', ''hr'', ''sk'', ''ro'', ''bg'',
      ''uk'', ''et'', ''lv'', ''lt'', ''id'', ''ms'', ''th'', ''vi'', ''hi'', ''gd'', ''af'', ''sq'', ''eu'', ''fa'']"

text \<open>The loop of \<open>splitTags\<close>; the tags are collected from the right.\<close>

lemma trim_space_length: "length (trim_space s) \<le> length s"
  unfolding trim_space_def by (metis length_dropWhile_le length_rev order_trans)

lemma LastIndexByte_less: "LastIndexByte s c = Some i \<Longrightarrow> i < length s"
  by (cases s) (auto simp add: LastIndexByte_def split: if_splits)

function split_loop :: "string \<Rightarrow> string list \<Rightarrow> string list \<times> string" where
  "split_loop base tags =
     (let trimmed = trim_space base in
      if trimmed = '''' then (rev tags, trim_space base)
      else if last trimmed \<noteq> CHR '')'' \<and> last trimmed \<noteq> CHR '']'' then (rev tags, trimmed)
      else case LastIndexByte trimmed (if last trimmed = CHR '')'' then CHR ''('' else CHR ''['') of
        None \<Rightarrow> (rev tags, trim_space trimmed)
      | Some idx \<Rightarrow> split_loop (take idx trimmed)
          (tags @ [trim_space (butlast (drop (Suc idx) trimmed))]))"
  by pat_completeness auto
termination
proof (relation "measure (\<lambda>(base, tags). length base)", goal_cases)
  case (2 base tags trimmed idx)
  then have "idx < length trimmed" "length trimmed \<le> length base"
    using LastIndexByte_less trim_space_length by auto
  then show ?case
    by simp
qed simp

declare split_loop.simps [simp del]

definition splitTags :: "string \<Rightarrow> string list \<times> string" where
  "splitTags s = split_loop s []"

definition normalizeKey :: "string \<Rightarrow> string" where
  "normalizeKey s = join '' '' (Fields (trim_space s))"

definition tag_parts :: "string \<Rightarrow> string list" where
  "tag_parts tag = map (\<lambda>p. to_lower (trim_space p)) (split_char CHR '','' tag)"

definition isRegionTag :: "string \<Rightarrow> bool" where
  "isRegionTag tag = (list_all (\<lambda>p. map_of knownRegions p \<noteq> None) (tag_parts tag) \<and> tag_parts tag \<noteq> [])"

definition splitRegions :: "string \<Rightarrow> string list" where
  "splitRegions tag = List.map_filter (map_of knownRegions) (tag_parts tag)"

definition isLanguageTag :: "string \<Rightarrow> bool" where
  "isLanguageTag tag = (tag_parts tag \<noteq> [] \<and> list_all (\<lambda>p. p \<in> set knownLanguages) (tag_parts tag))"

definition splitLanguages :: "string \<Rightarrow> string list" where
  "splitLanguages tag = tag_parts tag"

definition isRevisionTag :: "string \<Rightarrow> bool" where
  "isRevisionTag tag =
     (let lower = to_lower tag in
      has_prefix lower ''rev '' \<or> lower = ''rev'' \<or>
      (length lower > 1 \<and> lower ! 0 = CHR ''v'' \<and> is_digit (lower ! 1)))"

fun rank_parts :: "string list \<Rightarrow> int \<Rightarrow> int \<Rightarrow> int" where
  "rank_parts [] rank scale = rank"
| "rank_parts (p # ps) rank scale =
     (case Atoi (trim_to_digits p) of
        None \<Rightarrow> rank
      | Some n \<Rightarrow>
        (let rank' = wrap64 (rank + n * scale); scale' = scale div 100 in
         if scale' = 0 then rank' else rank_parts ps rank' scale'))"

definition revisionRank :: "string \<Rightarrow> int" where
  "revisionRank tag =
     (let lower = to_lower (trim_space tag) in
      if has_prefix lower ''rev'' then
        (let rest = trim_space (drop 3 lower) in
         if rest = '''' then 1
         else case Atoi rest of
           Some n \<Rightarrow> n
         | None \<Rightarrow>
           if length rest = 1 \<and> CHR ''a'' \<le> rest ! 0 \<and> rest ! 0 \<le> CHR ''z''
           then int (of_char (rest ! 0)) - int (of_char CHR ''a'') + 1
           else 1)
      else if length lower > 1 \<and> lower ! 0 = CHR ''v'' then rank_parts (SplitN CHR ''.'' 3 (tl lower)) 0 10000
      else 0)"

text \<open>The \<open>switch\<close> over one tag.\<close>

definition parse_tag :: "NameMeta \<Rightarrow> string \<Rightarrow> NameMeta" where
  "parse_tag meta tag =
     (if isRegionTag tag then meta\<lparr>nm_Regions := nm_Regions meta @ splitRegions tag\<rparr>
      else if isLanguageTag tag then meta\<lparr>nm_Languages := nm_Languages meta @ splitLanguages tag\<rparr>
      else if isRevisionTag tag then meta\<lparr>nm_Revision := tag, nm_RevisionRank := revisionRank tag\<rparr>
      else meta\<lparr>nm_Flags := nm_Flags meta @ [tag], nm_IsBIOS := nm_IsBIOS meta \<or> EqualFold tag ''BIOS''\<rparr>)"

definition ParseName :: "string \<Rightarrow> NameMeta" where
  "ParseName name =
     (let work = trim_space name;
          bios = has_prefix work ''[BIOS]'';
          work' = (if bios then trim_space (drop 6 work) else work);
          (tags, base) = splitTags work' in
      foldl parse_tag
        \<lparr>nm_CanonicalKey = normalizeKey base, nm_Regions = [], nm_Languages = [], nm_Revision = '''',
          nm_RevisionRank = 0, nm_Flags = [], nm_IsBIOS = bios\<rparr> tags)"

section \<open>Lemmas on names\<close>

lemma trim_space_id:
  assumes "s \<noteq> ''''" and "\<not> is_space (hd s)" and "\<not> is_space (last s)"
  shows "trim_space s = s"
proof -
  have "dropWhile is_space s = s"
    using assms(1,2) by (cases s) simp_all
  moreover have "dropWhile is_space (rev s) = rev s"
    using assms(1,3) by (cases "rev s") (simp_all add: last_rev hd_rev [symmetric])
  ultimately show ?thesis
    by (simp add: trim_space_def)
qed

lemma dropWhile_fixed: "dropWhile P s = s \<Longrightarrow> s \<noteq> [] \<Longrightarrow> \<not> P (hd s)"
proof (cases s)
  case (Cons x xs)
  assume "dropWhile P s = s"
  then show ?thesis
    using Cons length_dropWhile_le [of P xs] by (auto split: if_splits)
qed simp

lemma trim_space_fixed:
  assumes "trim_space s = s" and "s \<noteq> ''''"
  shows "\<not> is_space (hd s)" and "\<not> is_space (last s)"
proof -
  have len: "length s \<le> length (dropWhile is_space s)"
    using assms(1) unfolding trim_space_def by (metis length_dropWhile_le length_rev)
  then have d: "dropWhile is_space s = s"
    by (metis add_cancel_left_left append_Nil length_append le_antisym length_0_conv length_dropWhile_le takeWhile_dropWhile_id)
  then show "\<not> is_space (hd s)"
    using dropWhile_fixed assms(2) by blast
  have "dropWhile is_space (rev s) = rev s"
    using assms(1) d unfolding trim_space_def by (metis rev_rev_ident)
  then show "\<not> is_space (last s)"
    using dropWhile_fixed [of is_space "rev s"] assms(2) by (simp add: hd_rev)
qed

lemma is_space_facts [simp]: "is_space CHR '' ''" "\<not> is_space CHR '')''"
  by (simp_all add: is_space_def)

lemma trim_space_pad:
  assumes "s \<noteq> ''''" and "\<not> is_space (hd s)" and "\<not> is_space (last s)" and "pad = '''' \<or> pad = '' ''"
  shows "trim_space (s @ pad) = s"
proof -
  have "dropWhile is_space (s @ pad) = s @ pad" "dropWhile is_space (rev s) = rev s"
    using assms(1-3) by (cases s; cases "rev s"; simp add: last_rev hd_rev [symmetric])+
  then show ?thesis
    using assms(4) by (auto simp add: trim_space_def)
qed

text \<open>A base title with its tags, as a catalogue writes them.\<close>

definition tagged :: "string \<Rightarrow> string list \<Rightarrow> string" where
  "tagged base tags = base @ concat (map (\<lambda>t. '' ('' @ t @ '')'') tags)"

definition plain_base :: "string \<Rightarrow> bool" where
  "plain_base base = (base \<noteq> '''' \<and> trim_space base = base \<and> last base \<noteq> CHR '')'' \<and> last base \<noteq> CHR '']'')"

definition plain_tag :: "string \<Rightarrow> bool" where
  "plain_tag t = (trim_space t = t \<and> CHR ''('' \<notin> set t)"

lemma tagged_ends:
  assumes "plain_base base"
  shows "tagged base tags \<noteq> ''''" and "\<not> is_space (hd (tagged base tags))" and "\<not> is_space (last (tagged base tags))"
proof -
  have b: "base \<noteq> ''''" "\<not> is_space (hd base)" "\<not> is_space (last base)"
    using assms trim_space_fixed [of base] by (simp_all add: plain_base_def)
  then show "tagged base tags \<noteq> ''''" "\<not> is_space (hd (tagged base tags))"
    by (simp_all add: tagged_def)
  show "\<not> is_space (last (tagged base tags))"
    using b by (cases tags rule: rev_cases) (simp_all add: tagged_def)
qed

lemma LastIndexByte_open:
  "CHR ''('' \<notin> set t \<Longrightarrow> LastIndexByte (x @ ''('' @ t @ '')'') CHR ''('' = Some (length x)"
proof -
  assume t: "CHR ''('' \<notin> set t"
  have "takeWhile (\<lambda>c. c \<noteq> CHR ''('') (rev t @ CHR ''('' # rev x) = rev t"
    using t by (induction t rule: rev_induct) auto
  then show ?thesis
    by (simp add: LastIndexByte_def)
qed

lemma split_loop_tagged:
  assumes "plain_base base" and "list_all plain_tag tags" and "pad = '''' \<or> pad = '' ''"
  shows "split_loop (tagged base tags @ pad) acc = (tags @ rev acc, base)"
  using assms(2,3)
proof (induction tags arbitrary: pad acc rule: rev_induct)
  case Nil
  have "trim_space (base @ pad) = base"
    using trim_space_pad [of base pad] tagged_ends [OF assms(1), of "[]"] Nil.prems(2) by (simp add: tagged_def)
  then show ?case
    using assms(1) by (simp add: split_loop.simps [of "base @ pad"] tagged_def plain_base_def)
next
  case (snoc t tags)
  let ?x = "tagged base tags @ '' ''"
  have t: "tagged base (tags @ [t]) = ?x @ ''('' @ t @ '')''"
    by (simp add: tagged_def)
  have trim: "trim_space (tagged base (tags @ [t]) @ pad) = tagged base (tags @ [t])"
    using trim_space_pad tagged_ends [OF assms(1)] snoc.prems(2) by blast
  have tag: "trim_space t = t" "CHR ''('' \<notin> set t"
    using snoc.prems(1) by (simp_all add: plain_tag_def)
  have idx: "LastIndexByte (tagged base (tags @ [t])) CHR ''('' = Some (length ?x)"
    using LastIndexByte_open [OF tag(2), of ?x] t by simp
  have parts: "take (length ?x) (tagged base (tags @ [t])) = ?x"
    "butlast (drop (Suc (length ?x)) (tagged base (tags @ [t]))) = t"
    "last (tagged base (tags @ [t])) = CHR '')''"
    by (simp_all add: t)
  have "split_loop (tagged base (tags @ [t]) @ pad) acc = split_loop ?x (acc @ [t])"
    by (subst split_loop.simps)
      (simp only: Let_def trim tagged_ends(1) [OF assms(1)] parts idx if_False simp_thms option.case tag(1) refl if_True)
  then show ?case
    using snoc.IH [of "'' ''" "acc @ [t]"] snoc.prems(1) by simp
qed

lemma ParseName_tagged:
  assumes "plain_base base" and "list_all plain_tag tags" and "\<not> has_prefix (tagged base tags) ''[BIOS]''"
  shows "ParseName (tagged base tags) = foldl parse_tag
    \<lparr>nm_CanonicalKey = normalizeKey base, nm_Regions = [], nm_Languages = [], nm_Revision = '''',
      nm_RevisionRank = 0, nm_Flags = [], nm_IsBIOS = False\<rparr> tags"
  using assms trim_space_id [OF tagged_ends] split_loop_tagged [of base tags "''''" "[]"]
  by (simp add: ParseName_def splitTags_def)

text \<open>Ranks of versions.\<close>

lemma digit_lower: "is_digit c \<Longrightarrow> lower_char c = c"
  by (simp add: is_digit_def lower_char_def)

lemma digit_facts: "is_digit c \<Longrightarrow> c \<noteq> CHR ''.'' \<and> c \<noteq> CHR ''-'' \<and> c \<noteq> CHR ''+'' \<and> \<not> is_space c"
  by (auto simp add: is_digit_def is_space_def)

definition numeral_of :: "string \<Rightarrow> bool" where
  "numeral_of p = (p \<noteq> '''' \<and> list_all is_digit p)"

lemma digits_value_nonneg: "list_all is_digit p \<Longrightarrow> 0 \<le> digits_value p"
proof -
  have "0 \<le> n \<Longrightarrow> list_all is_digit p \<Longrightarrow> 0 \<le> foldl (\<lambda>n c. 10 * n + (int (of_char c) - 48)) n p" for n
    by (induction p arbitrary: n) (auto simp add: is_digit_def)
  then show "list_all is_digit p \<Longrightarrow> 0 \<le> digits_value p"
    by (simp add: digits_value_def)
qed

lemma trim_to_digits_numeral: "numeral_of p \<Longrightarrow> trim_to_digits p = p"
proof -
  assume p: "numeral_of p"
  then have "dropWhile (\<lambda>c. \<not> is_digit c) p = p" "dropWhile (\<lambda>c. \<not> is_digit c) (rev p) = rev p"
    by (cases p; simp add: numeral_of_def; fail) (use p in \<open>cases "rev p"; auto simp add: numeral_of_def list_all_iff rev_eq_Cons_iff\<close>)
  then show ?thesis
    by (simp add: trim_to_digits_def)
qed

lemma Atoi_numeral: "numeral_of p \<Longrightarrow> digits_value p < 2 ^ 63 \<Longrightarrow> Atoi p = Some (digits_value p)"
  using digits_value_nonneg [of p] digit_facts
  by (cases p) (auto simp add: Atoi_def numeral_of_def)

definition version_tag :: "string \<Rightarrow> string \<Rightarrow> string \<Rightarrow> string" where
  "version_tag p q r = ''v'' @ p @ ''.'' @ q @ ''.'' @ r"

lemma SplitN_dot: "CHR ''.'' \<notin> set p \<Longrightarrow> SplitN CHR ''.'' (Suc (Suc n)) (p @ ''.'' @ s) = p # SplitN CHR ''.'' (Suc n) s"
proof -
  assume p: "CHR ''.'' \<notin> set p"
  then have "takeWhile (\<lambda>c. c \<noteq> CHR ''.'') (p @ CHR ''.'' # s) = p"
    "dropWhile (\<lambda>c. c \<noteq> CHR ''.'') (p @ CHR ''.'' # s) = CHR ''.'' # s"
    by (induction p) auto
  then show ?thesis
    by simp
qed

lemma numeral_no_dot: "numeral_of p \<Longrightarrow> CHR ''.'' \<notin> set p"
  using digit_facts by (auto simp add: numeral_of_def list_all_iff)

lemma to_lower_digits: "list_all is_digit p \<Longrightarrow> to_lower p = p"
  by (induction p) (auto simp add: digit_lower)

lemma to_lower_append: "to_lower (a @ b) = to_lower a @ to_lower b"
  by (simp add: to_lower_def)

lemma version_rank:
  assumes "numeral_of p" and "numeral_of q" and "numeral_of r"
    and "digits_value p < 100" and "digits_value q < 2 ^ 32" and "digits_value r < 2 ^ 32"
  shows "revisionRank (version_tag p q r) = 10000 * digits_value p + 100 * digits_value q + digits_value r"
proof -
  have nn: "0 \<le> digits_value p" "0 \<le> digits_value q" "0 \<le> digits_value r"
    using assms(1-3) digits_value_nonneg by (simp_all add: numeral_of_def)
  have last: "\<not> is_space (last (version_tag p q r))"
    using assms(3) digit_facts by (auto simp add: version_tag_def numeral_of_def list_all_iff last_append)
  have trim: "trim_space (version_tag p q r) = version_tag p q r"
    by (rule trim_space_id) (use last in \<open>simp_all add: version_tag_def is_space_def\<close>)
  have lower: "to_lower (version_tag p q r) = version_tag p q r"
    using assms(1-3) by (simp add: version_tag_def numeral_of_def to_lower_append to_lower_digits lower_char_def)
  have parts: "SplitN CHR ''.'' 3 (tl (version_tag p q r)) = [p, q, r]"
    using SplitN_dot [OF numeral_no_dot [OF assms(1)], of "Suc 0" "q @ ''.'' @ r"]
      SplitN_dot [OF numeral_no_dot [OF assms(2)], of 0 r]
    by (simp add: version_tag_def numeral_3_eq_3)
  have atoi: "Atoi (trim_to_digits p) = Some (digits_value p)" "Atoi (trim_to_digits q) = Some (digits_value q)"
    "Atoi (trim_to_digits r) = Some (digits_value r)"
    using assms Atoi_numeral by (simp_all add: trim_to_digits_numeral)
  have "revisionRank (version_tag p q r) = rank_parts [p, q, r] 0 10000"
    using parts by (simp add: revisionRank_def Let_def trim lower) (simp add: version_tag_def has_prefix_def)
  also have "\<dots> = 10000 * digits_value p + 100 * digits_value q + digits_value r"
    using assms nn by (simp add: atoi wrap64_id)
  finally show ?thesis .
qed

lemma hundreds_lex:
  fixes a b c a' b' c' :: int
  assumes "0 \<le> b" "b < 100" "0 \<le> c" "c < 100" "0 \<le> b'" "b' < 100" "0 \<le> c'" "c' < 100"
  shows "10000 * a + 100 * b + c < 10000 * a' + 100 * b' + c' \<longleftrightarrow>
    a < a' \<or> a = a' \<and> (b < b' \<or> b = b' \<and> c < c')"
proof (cases a a' rule: linorder_cases)
  case equal
  then show ?thesis
    using assms by (cases b b' rule: linorder_cases) auto
qed (use assms in auto)

section \<open>Properties\<close>

text \<open>Parsing undoes the writing of a name: the tags written after a plain title are found again, in
  order and complete, so every release of a game has the canonical key of its bare title, and its
  regions, languages, revision and flags are exactly those its tags state.\<close>

theorem names_roundtrip:
  assumes "plain_base base" and "list_all plain_tag tags" and "\<not> has_prefix (tagged base tags) ''[BIOS]''"
  shows "splitTags (tagged base tags) = (tags, base) \<and>
    nm_CanonicalKey (ParseName (tagged base tags)) = normalizeKey base \<and>
    nm_Regions (ParseName (tagged base tags)) = concat (map splitRegions (filter isRegionTag tags)) \<and>
    nm_Flags (ParseName (tagged base tags)) =
      filter (\<lambda>t. \<not> isRegionTag t \<and> \<not> isLanguageTag t \<and> \<not> isRevisionTag t) tags"
proof -
  have fields: "nm_CanonicalKey (foldl parse_tag m ts) = nm_CanonicalKey m"
    "nm_Regions (foldl parse_tag m ts) = nm_Regions m @ concat (map splitRegions (filter isRegionTag ts))"
    "nm_Flags (foldl parse_tag m ts) = nm_Flags m @
      filter (\<lambda>t. \<not> isRegionTag t \<and> \<not> isLanguageTag t \<and> \<not> isRevisionTag t) ts" for m ts
    by (induction ts arbitrary: m) (auto simp add: parse_tag_def)
  show ?thesis
    using split_loop_tagged [OF assms(1,2), of "''''" "[]"] ParseName_tagged [OF assms]
    by (simp add: splitTags_def fields)
qed

text \<open>Version tags rank by major, then minor, then patch number, while each is below a hundred.\<close>

theorem versions_rank_in_order:
  assumes "list_all numeral_of [p, q, r, p', q', r']"
    and "list_all (\<lambda>x. digits_value x < 100) [p, q, r, p', q', r']"
  shows "revisionRank (version_tag p q r) < revisionRank (version_tag p' q' r') \<longleftrightarrow>
    digits_value p < digits_value p' \<or> digits_value p = digits_value p' \<and>
      (digits_value q < digits_value q' \<or> digits_value q = digits_value q' \<and> digits_value r < digits_value r')"
proof -
  have nn: "0 \<le> digits_value x" if "x \<in> set [p, q, r, p', q', r']" for x
    using assms(1) that digits_value_nonneg [of x] unfolding list_all_iff numeral_of_def by blast
  have "revisionRank (version_tag p q r) = 10000 * digits_value p + 100 * digits_value q + digits_value r"
    "revisionRank (version_tag p' q' r') = 10000 * digits_value p' + 100 * digits_value q' + digits_value r'"
    by (rule version_rank; use assms in simp)+
  then show ?thesis
    using hundreds_lex [of "digits_value q" "digits_value r" "digits_value q'" "digits_value r'" "digits_value p"
        "digits_value p'"] nn assms(2) by simp
qed

theorem names_roundtrip_witness:
  "splitTags (tagged ''Tetris'' [''World'', ''Rev 1'']) = ([''World'', ''Rev 1''], ''Tetris'')"
proof -
  have "plain_base ''Tetris''" "list_all plain_tag [''World'', ''Rev 1'']"
    by (simp_all add: plain_base_def plain_tag_def trim_space_def is_space_def)
  then show ?thesis
    using names_roundtrip [of "''Tetris''" "[''World'', ''Rev 1'']"] by (simp add: tagged_def has_prefix_def)
qed

theorem versions_rank_in_order_witness:
  "revisionRank (version_tag ''1'' ''9'' ''9'') < revisionRank (version_tag ''2'' ''0'' ''0'')"
  by (subst versions_rank_in_order) (simp_all add: numeral_of_def is_digit_def digits_value_def)

text \<open>A minor number of a hundred ranks as the next major version.\<close>

lemma minor_overflow: "revisionRank (version_tag ''1'' ''100'' ''0'') = revisionRank (version_tag ''2'' ''0'' ''0'')"
  by (simp add: version_rank numeral_of_def is_digit_def digits_value_def)

end
