(* ===== verification/Catalogue.thy ===== *)
theory Catalogue
  imports Names Manifest Adapters
begin

text \<open>
  Reference catalogues, \<open>src/reference/\<close> \<open>dat.go\<close>, \<open>set.go\<close>, \<open>profile.go\<close>: the import of a decoded
  catalogue file, the hash indexes and the lookup, and the entries a collection profile expects.
  The XML decoder is an argument.  \<open>sort.Slice\<close> is not stable, so it is an argument with its
  documented contract, the locale \<open>slice_sort\<close>; insertion sort is an instance.
\<close>

section \<open>\<open>sort.Slice\<close>\<close>

type_synonym 'a sorter = "('a \<Rightarrow> 'a \<Rightarrow> bool) \<Rightarrow> 'a list \<Rightarrow> 'a list"

definition strict_weak :: "('a \<Rightarrow> 'a \<Rightarrow> bool) \<Rightarrow> bool" where
  "strict_weak lt = ((\<forall>a b. lt a b \<longrightarrow> \<not> lt b a) \<and> (\<forall>a b c. \<not> lt a b \<longrightarrow> \<not> lt b c \<longrightarrow> \<not> lt a c))"

lemma strict_weak_asym: "strict_weak lt \<Longrightarrow> lt a b \<Longrightarrow> \<not> lt b a"
  unfolding strict_weak_def by blast

lemma strict_weak_neg_trans: "strict_weak lt \<Longrightarrow> \<not> lt a b \<Longrightarrow> \<not> lt b c \<Longrightarrow> \<not> lt a c"
  unfolding strict_weak_def by meson

definition sorts :: "'a sorter \<Rightarrow> bool" where
  "sorts srt = (\<forall>lt xs. strict_weak lt \<longrightarrow>
     mset (srt lt xs) = mset xs \<and> sorted_wrt (\<lambda>a b. \<not> lt b a) (srt lt xs))"

locale slice_sort =
  fixes srt :: "'a sorter"
  assumes contract: "sorts srt"
begin

lemma sorted_set: "strict_weak lt \<Longrightarrow> set (srt lt xs) = set xs"
  using contract unfolding sorts_def by (metis set_mset_mset)

lemma sorted_nil: "strict_weak lt \<Longrightarrow> srt lt xs = [] \<longleftrightarrow> xs = []"
  using sorted_set [of lt xs] by (metis set_empty)

lemma least_first:
  assumes "strict_weak lt" and "xs \<noteq> []"
  shows "hd (srt lt xs) \<in> set xs \<and> (\<forall>x\<in>set xs. \<not> lt x (hd (srt lt xs)))"
proof -
  obtain y ys where y: "srt lt xs = y # ys"
    using sorted_nil [OF assms(1)] assms(2) by (cases "srt lt xs") auto
  have "sorted_wrt (\<lambda>a b. \<not> lt b a) (y # ys)"
    using contract assms(1) y unfolding sorts_def by metis
  moreover have "\<not> lt y y"
    using assms(1) unfolding strict_weak_def by blast
  ultimately show ?thesis
    using sorted_set [OF assms(1), of xs] y by auto
qed

end

fun insert_by :: "('a \<Rightarrow> 'a \<Rightarrow> bool) \<Rightarrow> 'a \<Rightarrow> 'a list \<Rightarrow> 'a list" where
  "insert_by lt x [] = [x]"
| "insert_by lt x (y # ys) = (if lt y x then y # insert_by lt x ys else x # y # ys)"

definition insertion_sort :: "'a sorter" where
  "insertion_sort lt xs = foldr (insert_by lt) xs []"

lemma insert_by_mset: "mset (insert_by lt x ys) = add_mset x (mset ys)"
  by (induction ys) auto

lemma insert_by_set [simp]: "set (insert_by lt x ys) = insert x (set ys)"
  by (induction ys) auto

lemma insert_by_sorted:
  assumes "strict_weak lt" and "sorted_wrt (\<lambda>a b. \<not> lt b a) ys"
  shows "sorted_wrt (\<lambda>a b. \<not> lt b a) (insert_by lt x ys)"
  using assms(2)
proof (induction ys)
  case (Cons y ys)
  note weak = strict_weak_asym [OF assms(1)] strict_weak_neg_trans [OF assms(1)]
  show ?case
  proof (cases "lt y x")
    case True
    then have "\<not> lt x y"
      by (rule weak(1))
    then show ?thesis
      using True Cons by simp
  next
    case False
    have "\<not> lt z x" if "z \<in> set ys" for z
      using weak(2) [OF _ False, of z] Cons.prems that by simp
    then show ?thesis
      using False Cons.prems by simp
  qed
qed simp

lemma insertion_sort_sorts: "sorts insertion_sort"
  unfolding sorts_def insertion_sort_def
proof (intro allI impI conjI)
  fix lt :: "'a \<Rightarrow> 'a \<Rightarrow> bool" and xs
  assume "strict_weak lt"
  then show "sorted_wrt (\<lambda>a b. \<not> lt b a) (foldr (insert_by lt) xs [])"
    by (induction xs) (auto intro: insert_by_sorted)
  show "mset (foldr (insert_by lt) xs []) = mset xs"
    by (induction xs) (auto simp add: insert_by_mset)
qed

interpretation insertion: slice_sort insertion_sort
  by unfold_locales (rule insertion_sort_sorts)

section \<open>Sets\<close>

record Entry =
  en_GameName :: string
  en_ROMName :: string
  en_CanonicalKey :: string
  en_Regions :: "string list"
  en_Languages :: "string list"
  en_Revision :: string
  en_RevisionRank :: int
  en_Flags :: "string list"
  en_IsBIOS :: bool
  en_Digest :: Digest

type_synonym hash_index = "string \<Rightarrow> nat list"

record RefSet =
  cs_Family :: string
  cs_Name :: string
  cs_Description :: string
  cs_Version :: string
  cs_Date :: string
  cs_Author :: string
  cs_Homepage :: string
  cs_ImportDigest :: Digest
  cs_Platform :: PlatformID
  cs_Entries :: "Entry list"
  cs_bySHA256 :: hash_index
  cs_bySHA1 :: hash_index
  cs_byMD5 :: hash_index
  cs_byCRC :: hash_index

text \<open>One of the four maps \<open>index\<close> fills in its loop.\<close>

definition index_by :: "(Digest \<Rightarrow> string) \<Rightarrow> Entry list \<Rightarrow> hash_index" where
  "index_by hash es =
     foldl (\<lambda>m i. let h = hash (Normalized (en_Digest (es ! i))) in
         if h \<noteq> '''' then m(h := m h @ [i]) else m)
       (\<lambda>_. []) [0..<length es]"

definition index :: "RefSet \<Rightarrow> RefSet" where
  "index s = s\<lparr>cs_bySHA256 := index_by d_SHA256 (cs_Entries s), cs_bySHA1 := index_by d_SHA1 (cs_Entries s),
     cs_byMD5 := index_by d_MD5 (cs_Entries s), cs_byCRC := index_by d_CRC32 (cs_Entries s)\<rparr>"

definition set_Ref :: "RefSet \<Rightarrow> string" where
  "set_Ref s = cs_Family s @ '' '' @ cs_Name s @ '' '' @ cs_Version s"

record Match =
  mt_Index :: nat
  mt_Entry :: Entry
  mt_Strength :: StrengthLevel

text \<open>The \<open>switch\<close> of \<open>Lookup\<close>: the candidates of the first hash that has any.\<close>

definition candidates :: "RefSet \<Rightarrow> Digest \<Rightarrow> nat list" where
  "candidates s d =
     (if d_SHA256 d \<noteq> '''' \<and> length (cs_bySHA256 s (d_SHA256 d)) > 0 then cs_bySHA256 s (d_SHA256 d)
      else if d_SHA1 d \<noteq> '''' \<and> length (cs_bySHA1 s (d_SHA1 d)) > 0 then cs_bySHA1 s (d_SHA1 d)
      else if d_MD5 d \<noteq> '''' \<and> length (cs_byMD5 s (d_MD5 d)) > 0 then cs_byMD5 s (d_MD5 d)
      else if d_CRC32 d \<noteq> '''' \<and> length (cs_byCRC s (d_CRC32 d)) > 0 then cs_byCRC s (d_CRC32 d)
      else [])"

definition match_less :: "Match \<Rightarrow> Match \<Rightarrow> bool" where
  "match_less a b =
     (if mt_Strength a \<noteq> mt_Strength b then mt_Strength a > mt_Strength b
      else en_ROMName (mt_Entry a) < en_ROMName (mt_Entry b))"

definition recheck :: "RefSet \<Rightarrow> Digest \<Rightarrow> nat \<Rightarrow> Match option" where
  "recheck s d idx =
     (let entry = cs_Entries s ! idx; (strength, ok) = Compare d (en_Digest entry) in
      if \<not> ok \<or> strength = StrengthNone then None
      else Some \<lparr>mt_Index = idx, mt_Entry = entry, mt_Strength = strength\<rparr>)"

definition set_Lookup :: "Match sorter \<Rightarrow> RefSet \<Rightarrow> Digest \<Rightarrow> Match list" where
  "set_Lookup srt s canonical =
     (let d = Normalized canonical in srt match_less (List.map_filter (recheck s d) (candidates s d)))"

definition CanonicalKeys :: "RefSet \<Rightarrow> string list" where
  "CanonicalKeys s = sort (remdups (map en_CanonicalKey (cs_Entries s)))"

section \<open>Import\<close>

record datROM =
  dr_Name :: string
  dr_Size :: int
  dr_CRC :: string
  dr_MD5 :: string
  dr_SHA1 :: string
  dr_SHA256 :: string
  dr_Status :: string

record datGame =
  dg_Name :: string
  dg_ROMs :: "datROM list"

record datFile =
  df_Name :: string
  df_Description :: string
  df_Version :: string
  df_Date :: string
  df_Author :: string
  df_Homepage :: string
  df_Games :: "datGame list"

record ImportOptions =
  io_Family :: string
  io_Platform :: PlatformID

definition FamilyNoIntro :: string where "FamilyNoIntro = ''no-intro''"

datatype import_error = ErrReadingCatalogue string | ErrParsing | ErrNoName | ErrNoVersion string | ErrNoEntries string

text \<open>The body of the loop over the files of a game.\<close>

definition rom_entry :: "string \<Rightarrow> datROM \<Rightarrow> Entry option" where
  "rom_entry game rom =
     (if dr_CRC rom = '''' \<and> dr_MD5 rom = '''' \<and> dr_SHA1 rom = '''' \<and> dr_SHA256 rom = '''' then None
      else if EqualFold (dr_Status rom) ''baddump'' then None
      else let meta = ParseName game in
        Some \<lparr>en_GameName = game, en_ROMName = dr_Name rom, en_CanonicalKey = nm_CanonicalKey meta,
          en_Regions = nm_Regions meta, en_Languages = nm_Languages meta, en_Revision = nm_Revision meta,
          en_RevisionRank = nm_RevisionRank meta, en_Flags = nm_Flags meta, en_IsBIOS = nm_IsBIOS meta,
          en_Digest = \<lparr>d_Size = dr_Size rom, d_CRC32 = to_lower (dr_CRC rom), d_MD5 = to_lower (dr_MD5 rom),
            d_SHA1 = to_lower (dr_SHA1 rom), d_SHA256 = to_lower (dr_SHA256 rom)\<rparr>\<rparr>)"

definition dat_entries :: "datFile \<Rightarrow> Entry list" where
  "dat_entries doc = concat (map (\<lambda>g. List.map_filter (rom_entry (dg_Name g)) (dg_ROMs g)) (df_Games doc))"

definition ImportDAT :: "hashes \<Rightarrow> (bytes \<Rightarrow> datFile option) \<Rightarrow> stream \<Rightarrow> ImportOptions \<Rightarrow> import_error + RefSet" where
  "ImportDAT H decode r opts =
     (case r of
        (raw, Some e) \<Rightarrow> Inl (ErrReadingCatalogue e)
      | (raw, None) \<Rightarrow>
        (case decode raw of
           None \<Rightarrow> Inl ErrParsing
         | Some doc \<Rightarrow>
           if df_Name doc = '''' then Inl ErrNoName
           else if df_Version doc = '''' then Inl (ErrNoVersion (df_Name doc))
           else if dat_entries doc = [] then Inl (ErrNoEntries (df_Name doc))
           else Inr (index \<lparr>cs_Family = (if io_Family opts = '''' then FamilyNoIntro else io_Family opts),
             cs_Name = df_Name doc, cs_Description = df_Description doc, cs_Version = df_Version doc,
             cs_Date = df_Date doc, cs_Author = df_Author doc, cs_Homepage = df_Homepage doc,
             cs_ImportDigest = DigestBytes H raw, cs_Platform = io_Platform opts, cs_Entries = dat_entries doc,
             cs_bySHA256 = (\<lambda>_. []), cs_bySHA1 = (\<lambda>_. []), cs_byMD5 = (\<lambda>_. []), cs_byCRC = (\<lambda>_. [])\<rparr>)))"

section \<open>Profiles\<close>

record Profile =
  pf_Name :: string
  pf_Version :: string
  pf_Regions :: "string list"
  pf_ExcludedFlags :: "string list"
  pf_IncludeBIOS :: bool
  pf_IncludeUntaggedRegion :: bool
  pf_OneGamePerCanonical :: bool

definition DefaultProfile :: Profile where
  "DefaultProfile = \<lparr>pf_Name = ''North America plus World 1G1R'', pf_Version = ''1'',
     pf_Regions = [''USA'', ''Canada'', ''World''],
     pf_ExcludedFlags = [''Beta'', ''Proto'', ''Prototype'', ''Demo'', ''Sample'', ''Kiosk'',
       ''Program'', ''Test Program'', ''Debug'', ''Pirate'', ''Unl''],
     pf_IncludeBIOS = False, pf_IncludeUntaggedRegion = True, pf_OneGamePerCanonical = True\<rparr>"

definition profile_Ref :: "Profile \<Rightarrow> string" where
  "profile_Ref p = pf_Name p @ '' v'' @ pf_Version p"

text \<open>The two nested loops of \<open>regionPriority\<close>; \<open>None\<close> is the initial \<open>-1\<close>.\<close>

definition region_best :: "string list \<Rightarrow> string list \<Rightarrow> nat option" where
  "region_best allowed regions =
     foldl (\<lambda>best r. foldl (\<lambda>best i. if EqualFold r (allowed ! i) \<and>
           (case best of None \<Rightarrow> True | Some b \<Rightarrow> i < b) then Some i else best)
         best [0..<length allowed]) None regions"

definition regionPriority :: "Profile \<Rightarrow> Entry \<Rightarrow> nat \<times> bool" where
  "regionPriority p e =
     (if en_Regions e = [] then
        (if pf_IncludeUntaggedRegion p then (length (pf_Regions p), True) else (0, False))
      else case region_best (pf_Regions p) (en_Regions e) of
        None \<Rightarrow> (0, False)
      | Some best \<Rightarrow> (best, True))"

definition profile_excluded :: "Profile \<Rightarrow> Entry \<Rightarrow> bool" where
  "profile_excluded p e = list_ex (\<lambda>f. list_ex (EqualFold f) (pf_ExcludedFlags p)) (en_Flags e)"

definition eligible :: "Profile \<Rightarrow> Entry \<Rightarrow> bool" where
  "eligible p e =
     (if en_IsBIOS e \<and> \<not> pf_IncludeBIOS p then False
      else if profile_excluded p e then False
      else snd (regionPriority p e))"

text \<open>A selection; \<open>sl_included\<close> lists the keys of \<open>included\<close>.\<close>

record Selection =
  sl_Profile :: Profile
  sl_Set :: RefSet
  sl_included :: "nat list"
  sl_chosen :: "(string \<times> nat) list"

definition profile_less :: "Profile \<Rightarrow> Entry list \<Rightarrow> nat \<Rightarrow> nat \<Rightarrow> bool" where
  "profile_less p es a b =
     (let ea = es ! a; eb = es ! b; pa = fst (regionPriority p ea); pb = fst (regionPriority p eb) in
      if pa \<noteq> pb then pa < pb
      else if en_RevisionRank ea \<noteq> en_RevisionRank eb then en_RevisionRank ea > en_RevisionRank eb
      else en_ROMName ea < en_ROMName eb)"

definition by_key :: "Profile \<Rightarrow> Entry list \<Rightarrow> (string \<times> nat list) list" where
  "by_key p es =
     foldl (\<lambda>m i. if \<not> eligible p (es ! i) then m
         else let key = en_CanonicalKey (es ! i);
                  old = (case map_of m key of None \<Rightarrow> [] | Some l \<Rightarrow> l) in
           al_put key (old @ [i]) m)
       [] [0..<length es]"

definition Apply :: "nat sorter \<Rightarrow> Profile \<Rightarrow> RefSet \<Rightarrow> Selection" where
  "Apply srt p s =
     (if \<not> pf_OneGamePerCanonical p
      then \<lparr>sl_Profile = p, sl_Set = s,
        sl_included = filter (\<lambda>i. eligible p (cs_Entries s ! i)) [0..<length (cs_Entries s)], sl_chosen = []\<rparr>
      else let chosen = map (\<lambda>(key, indices). (key, hd (srt (profile_less p (cs_Entries s)) indices)))
            (by_key p (cs_Entries s)) in
        \<lparr>sl_Profile = p, sl_Set = s, sl_included = map snd chosen, sl_chosen = chosen\<rparr>)"

definition Includes :: "Selection \<Rightarrow> nat \<Rightarrow> bool" where
  "Includes sel i = (i \<in> set (sl_included sel))"

definition IncludedIndices :: "Selection \<Rightarrow> nat list" where
  "IncludedIndices sel = sort (sl_included sel)"

definition Size :: "Selection \<Rightarrow> nat" where
  "Size sel = length (sl_included sel)"

definition ChosenFor :: "Selection \<Rightarrow> string \<Rightarrow> Entry option" where
  "ChosenFor sel key = map_option (\<lambda>i. cs_Entries (sl_Set sel) ! i) (map_of (sl_chosen sel) key)"

section \<open>The orders\<close>

lemma strict_weak_key: "strict_weak (\<lambda>a b. f a < (f b :: 'k :: linorder))"
  unfolding strict_weak_def by auto

lemma strict_weak_lex:
  fixes f :: "'a \<Rightarrow> 'k :: linorder"
  assumes "strict_weak R"
  shows "strict_weak (\<lambda>a b. if f a \<noteq> f b then f a < f b else R a b)"
    and "strict_weak (\<lambda>a b. if f a \<noteq> f b then f b < f a else R a b)"
proof -
  note weak = strict_weak_asym [OF assms] strict_weak_neg_trans [OF assms]
  show "strict_weak (\<lambda>a b. if f a \<noteq> f b then f a < f b else R a b)"
    unfolding strict_weak_def by (auto split: if_splits dest: weak)
  show "strict_weak (\<lambda>a b. if f a \<noteq> f b then f b < f a else R a b)"
    unfolding strict_weak_def by (auto split: if_splits dest: weak)
qed

lemma match_less_weak: "strict_weak match_less"
  unfolding match_less_def
  by (rule strict_weak_lex(2) [OF strict_weak_key])

lemma profile_less_weak: "strict_weak (profile_less p es)"
  unfolding profile_less_def Let_def
  by (intro strict_weak_lex strict_weak_key)

section \<open>Indexes and lookup\<close>

lemma index_by_nth:
  "index_by f es h = (if h = '''' then [] else
     filter (\<lambda>i. f (Normalized (en_Digest (es ! i))) = h) [0..<length es])"
proof -
  let ?step = "\<lambda>m i. let h = f (Normalized (en_Digest (es ! i))) in if h \<noteq> '''' then m(h := m h @ [i]) else m"
  have "foldl ?step m is h = m h @ (if h = '''' then [] else
      filter (\<lambda>i. f (Normalized (en_Digest (es ! i))) = h) is)" for m "is"
    by (induction "is" arbitrary: m) (auto simp add: Let_def)
  then show ?thesis
    by (simp add: index_by_def)
qed

lemma index_fields [simp]:
  "cs_Entries (index s) = cs_Entries s" "cs_Family (index s) = cs_Family s" "cs_Name (index s) = cs_Name s"
  "cs_Version (index s) = cs_Version s"
  "cs_bySHA256 (index s) = index_by d_SHA256 (cs_Entries s)" "cs_bySHA1 (index s) = index_by d_SHA1 (cs_Entries s)"
  "cs_byMD5 (index s) = index_by d_MD5 (cs_Entries s)" "cs_byCRC (index s) = index_by d_CRC32 (cs_Entries s)"
  by (simp_all add: index_def)

text \<open>The entries that state the same value of a hash.\<close>

definition sharing :: "(Digest \<Rightarrow> string) \<Rightarrow> RefSet \<Rightarrow> Digest \<Rightarrow> nat set" where
  "sharing f s d = {i. i < length (cs_Entries s) \<and> f d \<noteq> '''' \<and>
     f (Normalized (en_Digest (cs_Entries s ! i))) = f d}"

lemma index_by_set:
  "set (index_by f (cs_Entries s) (f d)) = sharing f s d"
  by (auto simp add: index_by_nth sharing_def)

lemma candidates_set:
  "set (candidates (index s) d) =
     (if sharing d_SHA256 s d \<noteq> {} then sharing d_SHA256 s d
      else if sharing d_SHA1 s d \<noteq> {} then sharing d_SHA1 s d
      else if sharing d_MD5 s d \<noteq> {} then sharing d_MD5 s d
      else sharing d_CRC32 s d)"
proof -
  have len: "f d \<noteq> '''' \<and> length (index_by f (cs_Entries s) (f d)) > 0 \<longleftrightarrow> sharing f s d \<noteq> {}" for f
    by (simp add: index_by_set [symmetric]) (auto simp add: index_by_nth)
  show ?thesis
    unfolding candidates_def index_fields len by (auto simp add: index_by_set)
qed

lemma candidates_bound: "i \<in> set (candidates (index s) d) \<Longrightarrow> i < length (cs_Entries s)"
  by (auto simp add: candidates_set sharing_def split: if_splits)

lemma recheck_some:
  "recheck s d i = Some m \<longleftrightarrow> mt_Index m = i \<and> mt_Entry m = cs_Entries s ! i \<and> mt_Strength m \<noteq> StrengthNone \<and>
    Compare d (en_Digest (cs_Entries s ! i)) = (mt_Strength m, True)"
  by (cases "Compare d (en_Digest (cs_Entries s ! i))"; cases m) (auto simp add: recheck_def)

lemma set_map_filter: "set (List.map_filter f xs) = {y. \<exists>x\<in>set xs. f x = Some y}"
  by (induction xs) (auto simp add: List.map_filter_simps split: option.splits)

lemma set_Lookup_set:
  assumes "sorts srt"
  shows "m \<in> set (set_Lookup srt s c) \<longleftrightarrow>
    mt_Index m \<in> set (candidates s (Normalized c)) \<and> recheck s (Normalized c) (mt_Index m) = Some m"
proof -
  have srt: "set (srt match_less xs) = set xs" for xs
    using slice_sort.sorted_set [OF slice_sort.intro [OF assms] match_less_weak] .
  show ?thesis
    by (auto simp add: set_Lookup_def Let_def srt set_map_filter recheck_some)
qed

section \<open>Selection\<close>

definition rivals :: "Profile \<Rightarrow> Entry list \<Rightarrow> string \<Rightarrow> nat list" where
  "rivals p es key = filter (\<lambda>i. eligible p (es ! i) \<and> en_CanonicalKey (es ! i) = key) [0..<length es]"

lemma by_key_map:
  "map_of (by_key p es) key = (if rivals p es key = [] then None else Some (rivals p es key)) \<and>
    distinct (map fst (by_key p es))"
proof -
  let ?step = "\<lambda>m i. if \<not> eligible p (es ! i) then m
      else let key = en_CanonicalKey (es ! i); old = (case map_of m key of None \<Rightarrow> [] | Some l \<Rightarrow> l) in
        al_put key (old @ [i]) m"
  let ?riv = "\<lambda>is. filter (\<lambda>i. eligible p (es ! i) \<and> en_CanonicalKey (es ! i) = key) is"
  have "distinct (map fst (foldl ?step [] is))" for "is"
    by (induction "is" rule: rev_induct) (simp_all add: Let_def al_put_distinct)
  moreover have "map_of (foldl ?step [] is) key = (if ?riv is = [] then None else Some (?riv is))" for "is"
  proof (induction "is" rule: rev_induct)
    case (snoc i "is")
    show ?case
    proof (cases "eligible p (es ! i) \<and> en_CanonicalKey (es ! i) = key")
      case True
      then show ?thesis
        using snoc by (simp add: Let_def)
    next
      case False
      then show ?thesis
        using snoc by (auto simp add: Let_def)
    qed
  qed simp
  ultimately show ?thesis
    by (simp add: by_key_def rivals_def)
qed

lemma rivals_set:
  "i \<in> set (rivals p es key) \<longleftrightarrow> i < length es \<and> eligible p (es ! i) \<and> en_CanonicalKey (es ! i) = key"
  by (auto simp add: rivals_def)

text \<open>What \<open>regionPriority\<close> finds: the earliest region of the profile the entry has.\<close>

definition has_region :: "Profile \<Rightarrow> Entry \<Rightarrow> nat \<Rightarrow> bool" where
  "has_region p e i = (i < length (pf_Regions p) \<and> (\<exists>r\<in>set (en_Regions e). EqualFold r (pf_Regions p ! i)))"

definition least_of :: "(nat \<Rightarrow> bool) \<Rightarrow> nat option \<Rightarrow> bool" where
  "least_of P best = (case best of None \<Rightarrow> \<forall>i. \<not> P i | Some b \<Rightarrow> P b \<and> (\<forall>i<b. \<not> P i))"

lemma least_of_step:
  assumes "least_of P best"
  shows "least_of (\<lambda>i. P i \<or> i = j \<and> Q) (if Q \<and> (case best of None \<Rightarrow> True | Some b \<Rightarrow> j < b) then Some j else best)"
  using assms by (cases best) (auto simp add: least_of_def)

lemma least_of_cong:
  assumes "least_of P best" and "\<And>i. P i \<longleftrightarrow> P' i"
  shows "least_of P' best"
proof -
  have "P = P'"
    by (rule ext) (rule assms(2))
  then show ?thesis
    using assms(1) by (simp only:)
qed

lemma region_best_least:
  "least_of (\<lambda>i. i < length allowed \<and> (\<exists>r\<in>set regions. EqualFold r (allowed ! i))) (region_best allowed regions)"
proof -
  let ?inner = "\<lambda>r best i. if EqualFold r (allowed ! i) \<and> (case best of None \<Rightarrow> True | Some b \<Rightarrow> i < b)
      then Some i else best"
  have inner: "least_of (\<lambda>i. P i \<or> i \<in> set is \<and> EqualFold r (allowed ! i)) (foldl (?inner r) best is)"
    if "least_of P best" for P best "is" and r :: string
  proof (induction "is" rule: rev_induct)
    case Nil
    then show ?case
      using that by simp
  next
    case (snoc j "is")
    have "foldl (?inner r) best (is @ [j]) = ?inner r (foldl (?inner r) best is) j"
      by simp
    then show ?case
      by (simp only:) (rule least_of_cong [OF least_of_step [OF snoc, of j "EqualFold r (allowed ! j)"]], auto)
  qed
  show ?thesis
    unfolding region_best_def
  proof (induction regions rule: rev_induct)
    case Nil
    then show ?case
      by (simp add: least_of_def)
  next
    case (snoc r regions)
    show ?case
      unfolding foldl_append foldl_Cons foldl_Nil
      by (rule least_of_cong [OF inner [OF snoc, of "[0..<length allowed]" r]]) auto
  qed
qed

lemma regionPriority_least:
  assumes "en_Regions e \<noteq> []"
  shows "snd (regionPriority p e) \<longleftrightarrow> (\<exists>i. has_region p e i)"
    and "snd (regionPriority p e) \<Longrightarrow> has_region p e (fst (regionPriority p e)) \<and>
      (\<forall>i<fst (regionPriority p e). \<not> has_region p e i)"
  using region_best_least [of "pf_Regions p" "en_Regions e"] assms
  by (auto simp add: regionPriority_def has_region_def least_of_def split: option.splits)

lemma Apply_selected:
  assumes "sorts srt" and "pf_OneGamePerCanonical p"
  shows "distinct (map fst (sl_chosen (Apply srt p s)))"
    and "(key, c) \<in> set (sl_chosen (Apply srt p s)) \<longleftrightarrow> rivals p (cs_Entries s) key \<noteq> [] \<and>
      c = hd (srt (profile_less p (cs_Entries s)) (rivals p (cs_Entries s) key))"
    and "sl_included (Apply srt p s) = map snd (sl_chosen (Apply srt p s))"
proof -
  let ?m = "by_key p (cs_Entries s)"
  let ?f = "\<lambda>(key, indices). (key, hd (srt (profile_less p (cs_Entries s)) indices))"
  have a: "sl_chosen (Apply srt p s) = map ?f ?m"
    using assms(2) by (simp add: Apply_def)
  have k: "map_of ?m key = (if rivals p (cs_Entries s) key = [] then None else Some (rivals p (cs_Entries s) key))"
    "distinct (map fst ?m)" for key
    using by_key_map [of p "cs_Entries s" key] by simp_all
  have "map fst (map ?f ?m) = map fst ?m"
    by (simp add: case_prod_beta')
  then show "distinct (map fst (sl_chosen (Apply srt p s)))"
    unfolding a using k(2) by (simp only:)
  have "(key, l) \<in> set ?m \<longleftrightarrow> rivals p (cs_Entries s) key \<noteq> [] \<and> l = rivals p (cs_Entries s) key" for l
    by (subst map_of_eq_Some_iff [OF k(2), symmetric]) (simp add: k(1), blast)
  then show "(key, c) \<in> set (sl_chosen (Apply srt p s)) \<longleftrightarrow> rivals p (cs_Entries s) key \<noteq> [] \<and>
      c = hd (srt (profile_less p (cs_Entries s)) (rivals p (cs_Entries s) key))"
    unfolding a by force
  show "sl_included (Apply srt p s) = map snd (sl_chosen (Apply srt p s))"
    using assms(2) by (simp add: Apply_def)
qed

lemma not_profile_less:
  assumes "\<not> profile_less p es j c"
  shows "fst (regionPriority p (es ! c)) \<le> fst (regionPriority p (es ! j))"
    and "fst (regionPriority p (es ! c)) = fst (regionPriority p (es ! j)) \<Longrightarrow>
      en_RevisionRank (es ! j) \<le> en_RevisionRank (es ! c) \<and>
      (en_RevisionRank (es ! j) = en_RevisionRank (es ! c) \<longrightarrow> en_ROMName (es ! c) \<le> en_ROMName (es ! j))"
  using assms by (auto simp add: profile_less_def Let_def not_less split: if_splits)

lemma Apply_included:
  assumes "sorts srt" and "pf_OneGamePerCanonical p" and "Includes (Apply srt p s) c"
  shows "c \<in> set (rivals p (cs_Entries s) (en_CanonicalKey (cs_Entries s ! c)))"
    and "j \<in> set (rivals p (cs_Entries s) (en_CanonicalKey (cs_Entries s ! c))) \<Longrightarrow>
      \<not> profile_less p (cs_Entries s) j c"
    and "(en_CanonicalKey (cs_Entries s ! c), c) \<in> set (sl_chosen (Apply srt p s))"
proof -
  let ?lt = "profile_less p (cs_Entries s)"
  obtain key where key: "(key, c) \<in> set (sl_chosen (Apply srt p s))"
    using assms(3) Apply_selected(3) [OF assms(1,2)] by (auto simp add: Includes_def)
  then have ne: "rivals p (cs_Entries s) key \<noteq> []" and c: "c = hd (srt ?lt (rivals p (cs_Entries s) key))"
    using Apply_selected(2) [OF assms(1,2)] by blast+
  note least = slice_sort.least_first [OF slice_sort.intro [OF assms(1)] profile_less_weak ne, of p "cs_Entries s", folded c]
  have k: "en_CanonicalKey (cs_Entries s ! c) = key"
    using least by (simp add: rivals_set)
  show "c \<in> set (rivals p (cs_Entries s) (en_CanonicalKey (cs_Entries s ! c)))"
    "j \<in> set (rivals p (cs_Entries s) (en_CanonicalKey (cs_Entries s ! c))) \<Longrightarrow> \<not> ?lt j c"
    "(en_CanonicalKey (cs_Entries s ! c), c) \<in> set (sl_chosen (Apply srt p s))"
    using least key by (simp_all add: k)
qed

lemma Apply_key:
  assumes "sorts srt" and "pf_OneGamePerCanonical p" and "rivals p (cs_Entries s) key \<noteq> []"
  shows "\<exists>!c. Includes (Apply srt p s) c \<and> en_CanonicalKey (cs_Entries s ! c) = key"
proof -
  let ?c = "hd (srt (profile_less p (cs_Entries s)) (rivals p (cs_Entries s) key))"
  have c: "(key, ?c) \<in> set (sl_chosen (Apply srt p s))"
    using Apply_selected(2) [OF assms(1,2)] assms(3) by blast
  then have inc: "Includes (Apply srt p s) ?c"
    using Apply_selected(3) [OF assms(1,2)] by (force simp add: Includes_def)
  have "en_CanonicalKey (cs_Entries s ! ?c) = key"
    using slice_sort.least_first [OF slice_sort.intro [OF assms(1)] profile_less_weak assms(3), of p "cs_Entries s"]
    by (simp add: rivals_set)
  moreover have "d = ?c" if "Includes (Apply srt p s) d" "en_CanonicalKey (cs_Entries s ! d) = key" for d
    using Apply_included(3) [OF assms(1,2) that(1)] that(2) Apply_selected(2) [OF assms(1,2)] by simp
  ultimately show ?thesis
    using inc by blast
qed

lemma Apply_size:
  assumes "sorts srt" and "pf_OneGamePerCanonical p"
  shows "Size (Apply srt p s) = card {key. rivals p (cs_Entries s) key \<noteq> []}"
proof -
  have "set (map fst (sl_chosen (Apply srt p s))) = {key. rivals p (cs_Entries s) key \<noteq> []}"
    using Apply_selected(2) [OF assms] by force
  then show ?thesis
    using distinct_card [OF Apply_selected(1) [OF assms, of s]] Apply_selected(3) [OF assms, of s]
    by (simp add: Size_def)
qed

section \<open>Properties\<close>

definition sample_entry :: "string \<Rightarrow> string \<Rightarrow> string \<Rightarrow> Entry" where
  "sample_entry name region crc = \<lparr>en_GameName = name, en_ROMName = name, en_CanonicalKey = ''Tetris'',
     en_Regions = [region], en_Languages = [], en_Revision = '''', en_RevisionRank = 0, en_Flags = [],
     en_IsBIOS = False, en_Digest = \<lparr>d_Size = 0, d_CRC32 = crc, d_MD5 = '''', d_SHA1 = '''', d_SHA256 = ''''\<rparr>\<rparr>"

definition sample_set :: RefSet where
  "sample_set = \<lparr>cs_Family = ''no-intro'', cs_Name = ''gb'', cs_Description = '''', cs_Version = ''1'', cs_Date = '''',
     cs_Author = '''', cs_Homepage = '''', cs_ImportDigest = \<lparr>d_Size = 0, d_CRC32 = '''', d_MD5 = '''', d_SHA1 = '''',
       d_SHA256 = ''''\<rparr>, cs_Platform = ''gb'',
     cs_Entries = [sample_entry ''b'' ''World'' ''00'', sample_entry ''a'' ''USA'' ''11''],
     cs_bySHA256 = (\<lambda>_. []), cs_bySHA1 = (\<lambda>_. []), cs_byMD5 = (\<lambda>_. []), cs_byCRC = (\<lambda>_. [])\<rparr>"

definition at_least_as_good :: "Profile \<Rightarrow> Entry \<Rightarrow> Entry \<Rightarrow> bool" where
  "at_least_as_good p a b =
     (let ra = fst (regionPriority p a); rb = fst (regionPriority p b) in
      ra < rb \<or> ra = rb \<and> (en_RevisionRank b < en_RevisionRank a \<or>
        en_RevisionRank b = en_RevisionRank a \<and> en_ROMName a \<le> en_ROMName b))"

text \<open>C20: one game counts once: under one-game-one-ROM every canonical title that has an eligible
  entry has exactly one in the selection, that entry is eligible, no eligible entry of the title
  has an earlier region, or with the same region a newer revision, or with the same revision an
  earlier name, and the size of the selection is the number of those titles.\<close>

theorem one_game_one_entry:
  assumes "sorts srt" and "pf_OneGamePerCanonical p" and "j < length (cs_Entries s)" and "eligible p (cs_Entries s ! j)"
  shows "(\<exists>!c. Includes (Apply srt p s) c \<and> en_CanonicalKey (cs_Entries s ! c) = en_CanonicalKey (cs_Entries s ! j)) \<and>
    (\<forall>c. Includes (Apply srt p s) c \<and> en_CanonicalKey (cs_Entries s ! c) = en_CanonicalKey (cs_Entries s ! j) \<longrightarrow>
      c < length (cs_Entries s) \<and> eligible p (cs_Entries s ! c) \<and>
      at_least_as_good p (cs_Entries s ! c) (cs_Entries s ! j)) \<and>
    Size (Apply srt p s) =
      card {en_CanonicalKey (cs_Entries s ! i) | i. i < length (cs_Entries s) \<and> eligible p (cs_Entries s ! i)}"
proof (intro conjI allI impI)
  let ?es = "cs_Entries s"
  have j: "j \<in> set (rivals p ?es (en_CanonicalKey (?es ! j)))"
    using assms(3,4) by (simp add: rivals_set)
  then show "\<exists>!c. Includes (Apply srt p s) c \<and> en_CanonicalKey (?es ! c) = en_CanonicalKey (?es ! j)"
    by (intro Apply_key [OF assms(1,2)]) auto
  fix c
  assume c: "Includes (Apply srt p s) c \<and> en_CanonicalKey (?es ! c) = en_CanonicalKey (?es ! j)"
  note inc = Apply_included [OF assms(1,2) conjunct1 [OF c]]
  show "c < length ?es" "eligible p (?es ! c)"
    using inc(1) by (simp_all add: rivals_set)
  have "\<not> profile_less p ?es j c"
    using inc(2) j c by simp
  then show "at_least_as_good p (?es ! c) (?es ! j)"
    using not_profile_less [of p ?es j c] by (auto simp add: at_least_as_good_def Let_def)
next
  let ?es = "cs_Entries s"
  have "{key. rivals p ?es key \<noteq> []} = {en_CanonicalKey (?es ! i) | i. i < length ?es \<and> eligible p (?es ! i)}"
    by (auto simp add: rivals_def filter_empty_conv)
  then show "Size (Apply srt p s) = card {en_CanonicalKey (?es ! i) | i. i < length ?es \<and> eligible p (?es ! i)}"
    using Apply_size [OF assms(1,2), of s] by simp
qed

theorem one_game_one_entry_witness:
  "\<exists>!c. Includes (Apply insertion_sort DefaultProfile sample_set) c \<and>
    en_CanonicalKey (cs_Entries sample_set ! c) = ''Tetris''"
proof -
  have "eligible DefaultProfile (cs_Entries sample_set ! 0)" "pf_OneGamePerCanonical DefaultProfile"
    "0 < length (cs_Entries sample_set)" "en_CanonicalKey (cs_Entries sample_set ! 0) = ''Tetris''"
    by (simp_all add: eligible_def DefaultProfile_def sample_set_def sample_entry_def profile_excluded_def
        regionPriority_def region_best_def EqualFold_def upt_rec lower_char_def)
  then show ?thesis
    using one_game_one_entry [OF insertion_sort_sorts, of DefaultProfile 0 sample_set] by simp
qed

text \<open>The lookup is exact: with any sort that keeps its contract, the matches of a digest are the
  entries that share the strongest of its hashes any entry has and that the full comparison does
  not contradict, each with the strength of that comparison.\<close>

theorem lookup_exact:
  assumes "sorts srt"
  shows "m \<in> set (set_Lookup srt (index s) c) \<longleftrightarrow>
    (let d = Normalized c; entry = cs_Entries s ! mt_Index m in
     mt_Index m \<in> (if sharing d_SHA256 s d \<noteq> {} then sharing d_SHA256 s d
        else if sharing d_SHA1 s d \<noteq> {} then sharing d_SHA1 s d
        else if sharing d_MD5 s d \<noteq> {} then sharing d_MD5 s d
        else sharing d_CRC32 s d) \<and>
     mt_Entry m = entry \<and> Compare d (en_Digest entry) = (mt_Strength m, True) \<and> mt_Strength m \<noteq> StrengthNone)"
  unfolding set_Lookup_set [OF assms] candidates_set recheck_some index_fields Let_def by blast

theorem lookup_exact_witness:
  "set (set_Lookup insertion_sort (index sample_set) (en_Digest (sample_entry ''x'' ''y'' ''11''))) =
    {\<lparr>mt_Index = 1, mt_Entry = sample_entry ''a'' ''USA'' ''11'', mt_Strength = StrengthWeak\<rparr>}"
proof -
  have share: "sharing d_SHA256 sample_set (Normalized (en_Digest (sample_entry ''x'' ''y'' ''11''))) = {}"
    "sharing d_SHA1 sample_set (Normalized (en_Digest (sample_entry ''x'' ''y'' ''11''))) = {}"
    "sharing d_MD5 sample_set (Normalized (en_Digest (sample_entry ''x'' ''y'' ''11''))) = {}"
    "sharing d_CRC32 sample_set (Normalized (en_Digest (sample_entry ''x'' ''y'' ''11''))) = {1}"
    by (auto simp add: sharing_def sample_set_def sample_entry_def lower_char_def less_Suc_eq nth_Cons')
  have cmp: "Compare (Normalized (en_Digest (sample_entry ''x'' ''y'' ''11''))) (en_Digest (cs_Entries sample_set ! 1)) =
      (StrengthWeak, True)"
    by (simp add: sample_set_def sample_entry_def Compare_def Normalized_def digest_cmp_def strength_order lower_char_def)
  have e: "cs_Entries sample_set ! 1 = sample_entry ''a'' ''USA'' ''11''"
    by (simp add: sample_set_def)
  show ?thesis
    unfolding set_eq_iff lookup_exact [OF insertion_sort_sorts] share Let_def
    using cmp e by (auto intro: Match.equality)
qed

end
