(* ===== verification/Classify.thy ===== *)
theory Classify
  imports Catalogue Analyze
begin

text \<open>
  Classification of a held file, \<open>src/reference/classify.go\<close>: the single place that turns the
  evidence of an analysis into the permission to advertise a file.
\<close>

section \<open>Titles\<close>

text \<open>\<open>strings.Contains\<close>.\<close>

definition contains :: "string \<Rightarrow> string \<Rightarrow> bool" where
  "contains s t = list_ex (\<lambda>i. has_prefix (drop i s) t) [0..<Suc (length s)]"

definition leadingArticles :: "string list" where
  "leadingArticles = [''the'', ''a'', ''an'', ''le'', ''la'', ''les'', ''l'', ''der'', ''die'', ''das'', ''el'', ''los'',
     ''las'', ''il'', ''lo'', ''gli'', ''de'', ''het'']"

definition normalizeTitle :: "string \<Rightarrow> string" where
  "normalizeTitle s =
     (let fields = FieldsFunc (\<lambda>r. \<not> (CHR ''a'' \<le> r \<and> r \<le> CHR ''z'') \<and> \<not> is_digit r) (to_lower s);
          fields1 = (if length fields > 1 \<and> hd fields \<in> set leadingArticles then tl fields else fields);
          fields2 = (if length fields1 > 1 \<and> last fields1 \<in> set leadingArticles then butlast fields1 else fields1)
      in concat fields2)"

definition titlesAgree :: "string \<Rightarrow> string \<Rightarrow> bool" where
  "titlesAgree a b =
     (let na = normalizeTitle a; nb = normalizeTitle b in
      if na = '''' \<or> nb = '''' then True else na = nb \<or> contains na nb \<or> contains nb na)"

section \<open>Classification\<close>

text \<open>The notes of an outcome, with the values each is formatted from.\<close>

datatype class_note =
    NoteNoCanonical
  | NoteLibraryOnly string string
  | NoteNoEntry string
  | NoteManyGames "string list"
  | NoteTitleConflict string string
  | NoteExcluded string string
  | NoteVerified string string StrengthLevel

record ClassOutcome =
  oc_Classification :: Classification
  oc_Match :: "ReferenceMatch option"
  oc_Notes :: "class_note list"

definition plain_outcome :: "Classification \<Rightarrow> class_note list \<Rightarrow> ClassOutcome" where
  "plain_outcome c notes = \<lparr>oc_Classification = c, oc_Match = None, oc_Notes = notes\<rparr>"

text \<open>The match the profile includes, or else the first.\<close>

definition best_match :: "Selection \<Rightarrow> Match list \<Rightarrow> Match" where
  "best_match sel matches =
     (case find (\<lambda>m. Includes sel (mt_Index m)) matches of Some m \<Rightarrow> m | None \<Rightarrow> hd matches)"

definition ref_match :: "Selection \<Rightarrow> Match \<Rightarrow> ReferenceMatch" where
  "ref_match sel best = \<lparr>rm_Family = cs_Family (sl_Set sel), rm_SetName = cs_Name (sl_Set sel),
     rm_SetVersion = cs_Version (sl_Set sel), rm_EntryName = en_ROMName (mt_Entry best),
     rm_CanonicalKey = en_CanonicalKey (mt_Entry best), rm_Strength = mt_Strength best\<rparr>"

definition Classify :: "Match sorter \<Rightarrow> AResult option \<Rightarrow> Selection \<Rightarrow> string \<Rightarrow> ClassOutcome" where
  "Classify srt result sel metadataTitle =
     (case result of
        None \<Rightarrow> plain_outcome ClassUnmatched []
      | Some res \<Rightarrow>
        if \<not> rs_Canonicalized res then plain_outcome ClassUnmatched [NoteNoCanonical]
        else let matches = set_Lookup srt (sl_Set sel) (rs_Canonical res) in
        if matches = [] then
          (if trim_space metadataTitle \<noteq> ''''
           then plain_outcome ClassMatchedUnverified [NoteLibraryOnly metadataTitle (set_Ref (sl_Set sel))]
           else plain_outcome ClassUnmatched [NoteNoEntry (set_Ref (sl_Set sel))])
        else if length (remdups (map (\<lambda>m. en_CanonicalKey (mt_Entry m)) matches)) > 1
          then plain_outcome ClassConflict [NoteManyGames (map (\<lambda>m. en_GameName (mt_Entry m)) matches)]
        else let best = best_match sel matches; refMatch = ref_match sel best; title = trim_space metadataTitle;
                 game = en_GameName (mt_Entry best) in
        if title \<noteq> '''' \<and> \<not> titlesAgree title (en_CanonicalKey (mt_Entry best))
          then \<lparr>oc_Classification = ClassConflict, oc_Match = Some refMatch, oc_Notes = [NoteTitleConflict title game]\<rparr>
        else if \<not> Includes sel (mt_Index best)
          then \<lparr>oc_Classification = ClassVerifiedExcluded, oc_Match = Some refMatch,
            oc_Notes = [NoteExcluded game (profile_Ref (sl_Profile sel))]\<rparr>
        else \<lparr>oc_Classification = ClassVerifiedEligible, oc_Match = Some refMatch,
            oc_Notes = [NoteVerified game (set_Ref (sl_Set sel)) (mt_Strength best)]\<rparr>)"

section \<open>Lemmas\<close>

lemma set_Lookup_index:
  assumes "sorts srt" and "m \<in> set (set_Lookup srt (index s) c)"
  shows "mt_Index m < length (cs_Entries s)" and "mt_Entry m = cs_Entries s ! mt_Index m"
    and "Compare (Normalized c) (en_Digest (mt_Entry m)) = (mt_Strength m, True)" and "mt_Strength m \<noteq> StrengthNone"
  using assms(2) candidates_bound [of "mt_Index m" s "Normalized c"]
  unfolding set_Lookup_set [OF assms(1)] recheck_some by simp_all

lemma best_match_in:
  assumes "matches \<noteq> []"
  shows "best_match sel matches \<in> set matches"
    and "Includes sel (mt_Index (best_match sel matches)) \<longleftrightarrow> (\<exists>m\<in>set matches. Includes sel (mt_Index m))"
  using assms by (auto simp add: best_match_def find_Some_iff find_None_iff split: option.splits)

lemma one_key:
  assumes "\<not> length (remdups xs) > 1" and "x \<in> set xs" and "y \<in> set xs"
  shows "x = y"
proof -
  have "card (set xs) \<le> 1"
    using assms(1) by (simp add: length_remdups_card_conv)
  then show ?thesis
    using assms(2,3) card_le_Suc0_iff_eq [of "set xs"] by simp
qed

lemma eligible_facts:
  assumes "oc_Classification (Classify srt (Some res) sel title) = ClassVerifiedEligible"
  defines "matches \<equiv> set_Lookup srt (sl_Set sel) (rs_Canonical res)"
  shows "rs_Canonicalized res" and "matches \<noteq> []"
    and "\<not> length (remdups (map (\<lambda>m. en_CanonicalKey (mt_Entry m)) matches)) > 1"
    and "Includes sel (mt_Index (best_match sel matches))"
    and "oc_Match (Classify srt (Some res) sel title) = Some (ref_match sel (best_match sel matches))"
    and "trim_space title = '''' \<or> titlesAgree (trim_space title) (en_CanonicalKey (mt_Entry (best_match sel matches)))"
  using assms by (auto simp add: Classify_def plain_outcome_def Let_def split: if_splits)

lemma best_match_least:
  assumes "sorted_wrt (\<lambda>a b. \<not> match_less b a) ms" and "x \<in> set ms"
    and "Includes sel (mt_Index x) = Includes sel (mt_Index (best_match sel ms))"
  shows "\<not> match_less x (best_match sel ms)"
proof -
  have irr: "\<not> match_less a a" for a
    using strict_weak_asym [OF match_less_weak] by blast
  obtain k where k: "k < length ms" "x = ms ! k"
    using assms(2) by (auto simp add: in_set_conv_nth)
  show ?thesis
  proof (cases "find (\<lambda>m. Includes sel (mt_Index m)) ms")
    case None
    moreover obtain y ys where "ms = y # ys"
      using assms(2) by (cases ms) simp_all
    ultimately show ?thesis
      using assms(1,2) irr [of y] by (auto simp add: best_match_def)
  next
    case (Some m)
    then obtain i where i: "i < length ms" "m = ms ! i" "Includes sel (mt_Index m)"
        "\<forall>j<i. \<not> Includes sel (mt_Index (ms ! j))"
      by (auto simp add: find_Some_iff)
    have b: "best_match sel ms = ms ! i"
      using Some i(2) by (simp add: best_match_def)
    have "Includes sel (mt_Index (ms ! k))"
      using assms(3) i(2,3) unfolding b k(2) by simp
    then have "i \<le> k"
      using i(4) not_le by blast
    then consider "i = k" | "i < k"
      by fastforce
    then show ?thesis
    proof cases
      case 1
      then show ?thesis
        unfolding b k(2) using irr by simp
    next
      case 2
      show ?thesis
        unfolding b k(2) using sorted_wrt_nth_less [OF assms(1) 2 k(1)] .
    qed
  qed
qed

lemma match_less_neither: "\<not> match_less a b \<Longrightarrow> \<not> match_less b a \<Longrightarrow>
    mt_Strength a = mt_Strength b \<and> en_ROMName (mt_Entry a) = en_ROMName (mt_Entry b)"
  by (auto simp add: match_less_def split: if_splits)

lemma best_match_same:
  assumes "sorted_wrt (\<lambda>a b. \<not> match_less b a) xs" and "sorted_wrt (\<lambda>a b. \<not> match_less b a) ys"
    and "set xs = set ys" and "xs \<noteq> []"
  shows "mt_Strength (best_match sel xs) = mt_Strength (best_match sel ys) \<and>
    en_ROMName (mt_Entry (best_match sel xs)) = en_ROMName (mt_Entry (best_match sel ys)) \<and>
    Includes sel (mt_Index (best_match sel xs)) = Includes sel (mt_Index (best_match sel ys))"
proof -
  have ne: "ys \<noteq> []"
    using assms(3,4) by auto
  have inc: "Includes sel (mt_Index (best_match sel xs)) = Includes sel (mt_Index (best_match sel ys))"
    using best_match_in(2) [OF assms(4), of sel] best_match_in(2) [OF ne, of sel] assms(3) by simp
  have "best_match sel ys \<in> set xs" "best_match sel xs \<in> set ys"
    using best_match_in(1) [OF ne] best_match_in(1) [OF assms(4)] assms(3) by blast+
  then have "\<not> match_less (best_match sel ys) (best_match sel xs)" "\<not> match_less (best_match sel xs) (best_match sel ys)"
    using best_match_least [OF assms(1) _ inc [symmetric]] best_match_least [OF assms(2) _ inc] by blast+
  then show ?thesis
    using match_less_neither inc by blast
qed

lemma set_Lookup_sorted:
  assumes "sorts srt"
  shows "sorted_wrt (\<lambda>a b. \<not> match_less b a) (set_Lookup srt s c)"
    and "mset (set_Lookup srt s c) = mset (List.map_filter (recheck s (Normalized c)) (candidates s (Normalized c)))"
  using assms match_less_weak unfolding sorts_def set_Lookup_def Let_def by blast+

lemma eligible_entry:
  assumes "sorts srt" and "sl_Set sel = index s"
    and "oc_Classification (Classify srt (Some res) sel title) = ClassVerifiedEligible"
  shows "rs_Canonicalized res \<and> (\<exists>i<length (cs_Entries s). \<exists>strength. Includes sel i \<and> strength \<noteq> StrengthNone \<and>
    Compare (Normalized (rs_Canonical res)) (en_Digest (cs_Entries s ! i)) = (strength, True) \<and>
    oc_Match (Classify srt (Some res) sel title) = Some \<lparr>rm_Family = cs_Family s, rm_SetName = cs_Name s,
      rm_SetVersion = cs_Version s, rm_EntryName = en_ROMName (cs_Entries s ! i),
      rm_CanonicalKey = en_CanonicalKey (cs_Entries s ! i), rm_Strength = strength\<rparr> \<and>
    (\<forall>m\<in>set (set_Lookup srt (index s) (rs_Canonical res)). en_CanonicalKey (mt_Entry m) = en_CanonicalKey (cs_Entries s ! i)))"
proof -
  let ?ms = "set_Lookup srt (index s) (rs_Canonical res)" and ?b = "best_match sel (set_Lookup srt (index s) (rs_Canonical res))"
  note f = eligible_facts [OF assms(3), unfolded assms(2)]
  have b: "?b \<in> set ?ms"
    by (rule best_match_in(1) [OF f(2)])
  note e = set_Lookup_index [OF assms(1) b]
  have "en_CanonicalKey (mt_Entry m) = en_CanonicalKey (mt_Entry ?b)" if "m \<in> set ?ms" for m
    using one_key [OF f(3)] that b by simp
  then show ?thesis
    using f(1,4,5) e by (intro conjI exI [of _ "mt_Index ?b"] exI [of _ "mt_Strength ?b"])
      (simp_all add: ref_match_def assms(2))
qed

section \<open>Properties\<close>

text \<open>C6: nothing is advertised without a matching hash: a file classified as eligible has a canonical
  payload, whose digest agrees with an entry of the catalogue that the profile includes without
  any contradiction, the reported match is that entry, and no matching entry belongs to another
  game.\<close>

theorem eligible_needs_hash:
  assumes "sorts srt" and "sl_Set sel = index s"
    and "oc_Classification (Classify srt (Some res) sel title) = ClassVerifiedEligible"
  shows "rs_Canonicalized res \<and> (\<exists>i<length (cs_Entries s). \<exists>strength. Includes sel i \<and> strength \<noteq> StrengthNone \<and>
    Compare (Normalized (rs_Canonical res)) (en_Digest (cs_Entries s ! i)) = (strength, True) \<and>
    oc_Match (Classify srt (Some res) sel title) = Some \<lparr>rm_Family = cs_Family s, rm_SetName = cs_Name s,
      rm_SetVersion = cs_Version s, rm_EntryName = en_ROMName (cs_Entries s ! i),
      rm_CanonicalKey = en_CanonicalKey (cs_Entries s ! i), rm_Strength = strength\<rparr> \<and>
    (\<forall>m\<in>set (set_Lookup srt (index s) (rs_Canonical res)). en_CanonicalKey (mt_Entry m) = en_CanonicalKey (cs_Entries s ! i)))"
  by (rule eligible_entry [OF assms])

text \<open>Metadata only adds suspicion: what a file is without a title decides everything a title can
  change; with any title it is that again, or a conflict when the hash matched, or matched but
  unverified when it did not, so no title makes a file eligible.\<close>

theorem metadata_never_verifies:
  "let plain = Classify srt result sel ''''; titled = Classify srt result sel title in
    oc_Classification titled = oc_Classification plain \<and> oc_Match titled = oc_Match plain \<or>
    oc_Classification titled = ClassConflict \<and> oc_Match titled = oc_Match plain \<and> oc_Match plain \<noteq> None \<or>
    oc_Classification titled = ClassMatchedUnverified \<and> oc_Classification plain = ClassUnmatched \<and> oc_Match titled = None"
proof (cases result)
  case (Some res)
  have "trim_space '''' = ''''"
    by (simp add: trim_space_def)
  then show ?thesis
    using Some by (simp add: Classify_def plain_outcome_def Let_def)
qed (simp add: Classify_def plain_outcome_def)

text \<open>Two Bridges reach the same conclusion: whatever the two sorts do with equal elements, the same
  file gets the same classification and the same reported match.\<close>

theorem classification_is_deterministic:
  assumes "sorts srt" and "sorts srt'" and "sl_Set sel = index s"
  shows "oc_Classification (Classify srt result sel title) = oc_Classification (Classify srt' result sel title) \<and>
    oc_Match (Classify srt result sel title) = oc_Match (Classify srt' result sel title)"
proof (cases "\<exists>res. result = Some res \<and> rs_Canonicalized res")
  case False
  then show ?thesis
    by (cases result) (auto simp add: Classify_def)
next
  case True
  then obtain res where res: "result = Some res" "rs_Canonicalized res"
    by blast
  let ?xs = "set_Lookup srt (index s) (rs_Canonical res)" and ?ys = "set_Lookup srt' (index s) (rs_Canonical res)"
  let ?key = "\<lambda>m. en_CanonicalKey (mt_Entry m)"
  have "mset ?xs = mset ?ys"
    using set_Lookup_sorted(2) [OF assms(1)] set_Lookup_sorted(2) [OF assms(2)] by simp
  then have eq: "set ?xs = set ?ys" "?xs = [] \<longleftrightarrow> ?ys = []"
    by (metis set_mset_mset, metis mset_zero_iff)
  have keys: "length (remdups (map ?key ?xs)) = length (remdups (map ?key ?ys))"
    by (simp add: length_remdups_card_conv eq(1))
  show ?thesis
  proof (cases "?xs = [] \<or> length (remdups (map ?key ?xs)) > 1")
    case True
    then show ?thesis
      using res eq(2) keys by (auto simp add: Classify_def assms(3) plain_outcome_def Let_def)
  next
    case False
    then have ne: "?xs \<noteq> []" "?ys \<noteq> []" and one: "\<not> length (remdups (map ?key ?xs)) > 1"
      using eq(2) by auto
    note same = best_match_same [OF set_Lookup_sorted(1) [OF assms(1)] set_Lookup_sorted(1) [OF assms(2)] eq(1) ne(1), of sel]
    have "?key (best_match sel ?xs) = ?key (best_match sel ?ys)"
      using one_key [OF one] best_match_in(1) [OF ne(1), of sel] best_match_in(1) [OF ne(2), of sel] eq(1) by simp
    then show ?thesis
      using res ne one keys same by (simp add: Classify_def assms(3) Let_def ref_match_def)
  qed
qed

text \<open>The strength of the agreement is not asked for: a file of which the catalogue states the CRC32
  only is eligible on that alone.\<close>

definition crc_only_result :: AResult where
  "crc_only_result = (empty_result ''x'')\<lparr>rs_Canonicalized := True,
     rs_Canonical := en_Digest (sample_entry ''x'' ''y'' ''11'')\<rparr>"


definition sample_selection :: Selection where
  "sample_selection = Apply insertion_sort DefaultProfile (index sample_set)"

lemma weak_match_is_eligible:
  "oc_Classification (Classify insertion_sort (Some crc_only_result) sample_selection '''') = ClassVerifiedEligible \<and>
    map_option rm_Strength (oc_Match (Classify insertion_sort (Some crc_only_result) sample_selection '''')) =
      Some StrengthWeak"
  by code_simp

lemma sample_selection_set: "sl_Set sample_selection = index sample_set"
  by (simp add: sample_selection_def Apply_def Let_def)

theorem eligible_needs_hash_witness:
  "\<exists>i<2. Includes sample_selection i"
  using eligible_needs_hash [OF insertion_sort_sorts sample_selection_set conjunct1 [OF weak_match_is_eligible]]
  by (auto simp add: sample_set_def numeral_2_eq_2)

text \<open>A sort that leaves equal elements in the opposite order.\<close>

definition reversing_sort :: "'a sorter" where
  "reversing_sort lt xs = insertion_sort lt (rev xs)"

lemma reversing_sort_sorts: "sorts reversing_sort"
  using insertion_sort_sorts unfolding sorts_def reversing_sort_def by (metis mset_rev)

theorem classification_is_deterministic_witness:
  "oc_Match (Classify insertion_sort (Some crc_only_result) sample_selection ''Tetris'') =
    oc_Match (Classify reversing_sort (Some crc_only_result) sample_selection ''Tetris'')"
  using classification_is_deterministic [OF insertion_sort_sorts reversing_sort_sorts sample_selection_set] by blast

end
