(* ===== verification/Passwords.thy ===== *)
theory Passwords
  imports Names
begin

text \<open>
  Password hashes.  The Host's, \<open>src/host/directory/password.go\<close>: Argon2id, printed with its
  parameters and read back with \<open>fmt.Sscanf\<close> and raw base64; the key derivation is a parameter
  whose value \<open>None\<close> is a panic of the library, and so is its version number.  The Bridge's,
  \<open>src/bridge/adminui/pbkdf2.go\<close>: PBKDF2 over HMAC-SHA256, which is written out in the code, with
  the HMAC as the parameter.  Random salts are arguments.
\<close>

section \<open>Library functions: decimal, hexadecimal, base64, \<open>Sscanf\<close>\<close>

fun dec_nat :: "nat \<Rightarrow> string" where
  "dec_nat n = (if n < 10 then [char_of (48 + n)] else dec_nat (n div 10) @ [char_of (48 + n mod 10)])"

declare dec_nat.simps [simp del]

definition hex_value :: "char \<Rightarrow> nat option" where
  "hex_value c = (let n = of_char c :: nat in
     if 48 \<le> n \<and> n \<le> 57 then Some (n - 48)
     else if 97 \<le> n \<and> n \<le> 102 then Some (n - 87)
     else if 65 \<le> n \<and> n \<le> 70 then Some (n - 55) else None)"

text \<open>\<open>hex.DecodeString\<close>.\<close>

fun hex_decode :: "string \<Rightarrow> bytes option" where
  "hex_decode [] = Some []"
| "hex_decode [c] = None"
| "hex_decode (a # b # s) =
     (case (hex_value a, hex_value b) of
        (Some x, Some y) \<Rightarrow> map_option ((#) (of_nat (16 * x + y))) (hex_decode s)
      | _ \<Rightarrow> None)"

text \<open>\<open>base64.RawStdEncoding\<close>: no padding; line breaks are skipped when decoding.\<close>

definition b64_char :: "nat \<Rightarrow> char" where
  "b64_char n = char_of (if n < 26 then 65 + n else if n < 52 then 71 + n
     else if n < 62 then n - 4 else if n = 62 then 43 else (47 :: nat))"

definition b64_value :: "char \<Rightarrow> nat option" where
  "b64_value c = (let n = of_char c :: nat in
     if 65 \<le> n \<and> n \<le> 90 then Some (n - 65)
     else if 97 \<le> n \<and> n \<le> 122 then Some (n - 71)
     else if 48 \<le> n \<and> n \<le> 57 then Some (n + 4)
     else if n = 43 then Some 62 else if n = 47 then Some 63 else None)"

fun b64_sextets :: "nat list \<Rightarrow> nat list" where
  "b64_sextets [] = []"
| "b64_sextets [a] = [a div 4, a mod 4 * 16]"
| "b64_sextets [a, b] = [a div 4, a mod 4 * 16 + b div 16, b mod 16 * 4]"
| "b64_sextets (a # b # c # s) =
     a div 4 # (a mod 4 * 16 + b div 16) # (b mod 16 * 4 + c div 64) # c mod 64 # b64_sextets s"

definition b64_encode :: "bytes \<Rightarrow> string" where
  "b64_encode bs = map b64_char (b64_sextets (map unat bs))"

fun b64_octets :: "nat list \<Rightarrow> nat list option" where
  "b64_octets [] = Some []"
| "b64_octets [a] = None"
| "b64_octets [a, b] = Some [a * 4 + b div 16]"
| "b64_octets [a, b, c] = Some [a * 4 + b div 16, b mod 16 * 16 + c div 4]"
| "b64_octets (a # b # c # d # s) =
     map_option (\<lambda>r. (a * 4 + b div 16) # (b mod 16 * 16 + c div 4) # (c mod 4 * 64 + d) # r) (b64_octets s)"

definition b64_decode :: "string \<Rightarrow> bytes option" where
  "b64_decode s =
     (let vs = map b64_value (filter (\<lambda>c. c \<noteq> CHR 0x0A \<and> c \<noteq> CHR 0x0D) s) in
      if None \<in> set vs then None else map_option (map of_nat) (b64_octets (map the vs)))"

text \<open>\<open>fmt.Sscanf\<close> over a format of literals and \<open>%d\<close>: a literal must match, a verb skips spaces
  (a newline is an error), reads digits (after a sign, into a signed integer) and fails on a value
  too wide; what follows the format is not looked at.\<close>

fun scan_skip :: "string \<Rightarrow> string option" where
  "scan_skip [] = Some []"
| "scan_skip (c # s) =
     (if c = CHR 0x0D \<and> s \<noteq> [] \<and> hd s = CHR 0x0A then scan_skip s
      else if c = CHR 0x0A then None
      else if is_space c then scan_skip s else Some (c # s))"

definition scan_literal :: "string \<Rightarrow> string \<Rightarrow> string option" where
  "scan_literal l s = (if has_prefix s l then Some (drop (length l) s) else None)"

definition scan_uint :: "nat \<Rightarrow> string \<Rightarrow> (nat \<times> string) option" where
  "scan_uint w s =
     (case scan_skip s of
        None \<Rightarrow> None
      | Some r \<Rightarrow>
        (let d = takeWhile is_digit r in
         if d = '''' \<or> digits_value d \<ge> 2 ^ w then None
         else Some (nat (digits_value d), dropWhile is_digit r)))"

definition scan_int :: "string \<Rightarrow> (int \<times> string) option" where
  "scan_int s =
     (case scan_skip s of
        None \<Rightarrow> None
      | Some r \<Rightarrow>
        (let signed = (r \<noteq> [] \<and> (hd r = CHR ''-'' \<or> hd r = CHR ''+''));
             body = (if signed then tl r else r);
             d = takeWhile is_digit body;
             v = (if signed \<and> hd r = CHR ''-'' then - digits_value d else digits_value d) in
         if d = '''' \<or> v < - (2 ^ 63) \<or> v \<ge> 2 ^ 63 then None
         else Some (v, dropWhile is_digit body)))"

section \<open>The Host: Argon2id\<close>

definition argon2Time :: nat where "argon2Time = 2"
definition argon2Memory :: nat where "argon2Memory = 19 * 1024"
definition argon2Threads :: nat where "argon2Threads = 4"
definition argon2KeyLen :: nat where "argon2KeyLen = 32"

type_synonym id_key = "string \<Rightarrow> bytes \<Rightarrow> nat \<Rightarrow> nat \<Rightarrow> nat \<Rightarrow> nat \<Rightarrow> bytes option"

definition host_hashPassword :: "nat \<Rightarrow> id_key \<Rightarrow> bytes \<Rightarrow> string \<Rightarrow> string option" where
  "host_hashPassword ver idkey salt password =
     (case idkey password salt argon2Time argon2Memory argon2Threads argon2KeyLen of
        None \<Rightarrow> None
      | Some key \<Rightarrow> Some (''argon2id$v='' @ dec_nat ver @ ''$m='' @ dec_nat argon2Memory @ '',t='' @
          dec_nat argon2Time @ '',p='' @ dec_nat argon2Threads @ ''$'' @ b64_encode salt @ ''$'' @ b64_encode key))"

text \<open>\<open>Sscanf(s, "m=%d,t=%d,p=%d", ...)\<close>.\<close>

definition scan_parameters :: "string \<Rightarrow> (nat \<times> nat \<times> nat) option" where
  "scan_parameters s =
     (case Option.bind (scan_literal ''m='' s) (scan_uint 32) of
        None \<Rightarrow> None
      | Some (mem, s) \<Rightarrow>
        (case Option.bind (scan_literal '',t='' s) (scan_uint 32) of
           None \<Rightarrow> None
         | Some (cost, s) \<Rightarrow>
           (case Option.bind (scan_literal '',p='' s) (scan_uint 8) of
              None \<Rightarrow> None
            | Some (threads, s) \<Rightarrow> Some (mem, cost, threads))))"

definition host_verifyPassword :: "nat \<Rightarrow> id_key \<Rightarrow> string \<Rightarrow> string \<Rightarrow> bool option" where
  "host_verifyPassword ver idkey password encoded =
     (let parts = split_char (CHR ''$'') encoded in
      if length parts \<noteq> 5 \<or> parts ! 0 \<noteq> ''argon2id'' then Some False
      else case Option.bind (scan_literal ''v='' (parts ! 1)) scan_int of
        None \<Rightarrow> Some False
      | Some (version, r) \<Rightarrow>
        if version \<noteq> int ver then Some False
        else case scan_parameters (parts ! 2) of
          None \<Rightarrow> Some False
        | Some (mem, cost, threads) \<Rightarrow>
          (case (b64_decode (parts ! 3), b64_decode (parts ! 4)) of
             (Some salt, Some want) \<Rightarrow>
               map_option (\<lambda>got. got = want) (idkey password salt cost mem threads (length want))
           | _ \<Rightarrow> Some False))"

section \<open>The Bridge: PBKDF2\<close>

definition pbkdf2Iterations :: nat where "pbkdf2Iterations = 210000"
definition pbkdf2KeyLen :: nat where "pbkdf2KeyLen = 32"

type_synonym mac = "bytes \<Rightarrow> bytes \<Rightarrow> bytes"

fun pbkdf2_rounds :: "mac \<Rightarrow> bytes \<Rightarrow> nat \<Rightarrow> bytes \<Rightarrow> bytes \<Rightarrow> bytes" where
  "pbkdf2_rounds hmac key 0 u result = result"
| "pbkdf2_rounds hmac key (Suc n) u result =
     (let u' = hmac key u in pbkdf2_rounds hmac key n u' (map2 (\<lambda>a b. xor a b) result u'))"

definition be32 :: "nat \<Rightarrow> bytes" where
  "be32 n = [of_nat (n div 2 ^ 24), of_nat (n div 2 ^ 16), of_nat (n div 2 ^ 8), of_nat n]"

definition pbkdf2Block :: "mac \<Rightarrow> bytes \<Rightarrow> bytes \<Rightarrow> nat \<Rightarrow> nat \<Rightarrow> bytes" where
  "pbkdf2Block hmac key salt iterations blockIndex =
     (let u = hmac key (salt @ be32 blockIndex) in pbkdf2_rounds hmac key (iterations - 1) u u)"

definition pbkdf2 :: "mac \<Rightarrow> string \<Rightarrow> bytes \<Rightarrow> nat \<Rightarrow> nat \<Rightarrow> bytes" where
  "pbkdf2 hmac password salt iterations keyLen =
     take keyLen (concat (map (pbkdf2Block hmac (bytes_of password) salt iterations)
       [1..<Suc ((keyLen + 32 - 1) div 32)]))"

definition bridge_hashPassword :: "mac \<Rightarrow> bytes \<Rightarrow> string \<Rightarrow> string" where
  "bridge_hashPassword hmac salt password =
     ''pbkdf2-sha256$'' @ dec_nat pbkdf2Iterations @ ''$'' @ hex_encode salt @ ''$'' @
       hex_encode (pbkdf2 hmac password salt pbkdf2Iterations pbkdf2KeyLen)"

definition bridge_verifyPassword :: "mac \<Rightarrow> string \<Rightarrow> string \<Rightarrow> bool" where
  "bridge_verifyPassword hmac password encoded =
     (let parts = split_char (CHR ''$'') encoded in
      if length parts \<noteq> 4 \<or> parts ! 0 \<noteq> ''pbkdf2-sha256'' then False
      else case Atoi (parts ! 1) of
        None \<Rightarrow> False
      | Some iterations \<Rightarrow>
        if iterations \<le> 0 then False
        else case (hex_decode (parts ! 2), hex_decode (parts ! 3)) of
          (Some salt, Some want) \<Rightarrow> pbkdf2 hmac password salt (nat iterations) (length want) = want
        | _ \<Rightarrow> False)"

section \<open>Round trips of the encodings\<close>

lemma of_char_small [simp]: "n < 256 \<Longrightarrow> of_char (char_of n) = n" for n :: nat
  by (simp add: of_char_of)

lemma dec_nat_digits: "list_all is_digit (dec_nat n) \<and> dec_nat n \<noteq> '''' \<and> digits_value (dec_nat n) = int n"
proof (induction n rule: less_induct)
  case (less n)
  have digit: "d < 10 \<Longrightarrow> is_digit (char_of (48 + d)) \<and> int (of_char (char_of (48 + d) :: char)) = int (48 + d)" for d :: nat
    by (simp add: is_digit_def of_char_of)
  show ?case
  proof (cases "n < 10")
    case True
    then show ?thesis
      using digit [of n] by (subst (1 2 3) dec_nat.simps) (simp add: digits_value_def)
  next
    case False
    have "list_all is_digit (dec_nat (n div 10)) \<and> dec_nat (n div 10) \<noteq> '''' \<and>
        digits_value (dec_nat (n div 10)) = int (n div 10)"
      using False by (intro less.IH) simp
    moreover have "dec_nat n = dec_nat (n div 10) @ [char_of (48 + n mod 10)]"
      using False by (subst dec_nat.simps) simp
    moreover have "10 * int (n div 10) + int (n mod 10) = int n"
      by presburger
    ultimately show ?thesis
      using digit [of "n mod 10"] by (simp add: digits_value_def)
  qed
qed

lemma dec_nat_chars: "c \<in> set (dec_nat n) \<Longrightarrow> is_digit c"
  using dec_nat_digits [of n] by (simp add: list_all_iff)

lemma digit_not_dollar: "is_digit c \<Longrightarrow> c \<noteq> CHR ''$'' \<and> \<not> is_space c \<and> c \<noteq> CHR 0x0A \<and> c \<noteq> CHR 0x0D \<and>
    c \<noteq> CHR ''-'' \<and> c \<noteq> CHR ''+''"
  by (auto simp add: is_digit_def is_space_def)

lemma hex_value_digit: "n < 16 \<Longrightarrow> hex_value (hex_digit n) = Some n"
  by (auto simp add: hex_value_def hex_digit_def Let_def)

lemma hex_roundtrip: "hex_decode (hex_encode bs) = Some bs"
proof (induction bs)
  case (Cons b bs)
  have "unat b div 16 < 16" "unat b mod 16 < 16" "16 * (unat b div 16) + unat b mod 16 = unat b"
    using byte_less [of b] by (simp_all add: less_mult_imp_div_less)
  then show ?case
    using Cons by (simp add: hex_encode_def hex_value_digit flip: of_nat_mult of_nat_add)
qed (simp add: hex_encode_def)

lemma hex_encode_no_dollar: "CHR ''$'' \<notin> set (hex_encode bs)"
proof -
  have "hex_digit n \<noteq> CHR ''$''" if "n < 16" for n
    using hex_value_digit [OF that] by (auto simp add: hex_value_def)
  then show ?thesis
    using byte_less by (auto simp add: hex_encode_def less_mult_imp_div_less dest: sym)
qed

lemma b64_value_char: "n < 64 \<Longrightarrow> b64_value (b64_char n) = Some n"
  by (simp add: b64_value_def b64_char_def Let_def) presburger

lemma b64_char_plain: "n < 64 \<Longrightarrow> b64_char n \<noteq> CHR ''$'' \<and> b64_char n \<noteq> CHR 0x0A \<and> b64_char n \<noteq> CHR 0x0D"
  using b64_value_char [of n] by (auto simp add: b64_value_def)

lemma shifted: "q < m \<Longrightarrow> (r * m + q) div m = r \<and> (r * m + q) mod m = q" for q m r :: nat
  by simp

lemma sextet_bounds:
  assumes "(a :: nat) < 256"
  shows "a div 4 < 64" "a div 16 < 16" "a div 64 < 4"
  using assms by (simp_all add: less_mult_imp_div_less)

lemma sextet_sums:
  assumes "(b :: nat) < 256"
  shows "a mod 4 * 16 + b div 16 < 64" "a mod 16 * 4 + b div 64 < 64" "a mod 4 * 16 < 64" "a mod 16 * 4 < 64"
  using sextet_bounds [OF assms] mod_less_divisor [of 4 a] mod_less_divisor [of 16 a] by linarith+

lemma sextets_less: "\<forall>a \<in> set xs. a < 256 \<Longrightarrow> \<forall>v \<in> set (b64_sextets xs). v < 64"
  by (induction xs rule: b64_sextets.induct) (auto simp add: sextet_bounds sextet_sums)

lemma octets_sextets: "\<forall>a \<in> set xs. a < 256 \<Longrightarrow> b64_octets (b64_sextets xs) = Some xs"
proof (induction xs rule: b64_sextets.induct)
  case (4 a b c s)
  then show ?case
    using shifted [OF sextet_bounds(2), of b "a mod 4"] shifted [OF sextet_bounds(3), of c "b mod 16"]
    by (simp del: mod_mult_self3 div_mult_self3)
next
  case (3 a b)
  then show ?case
    using shifted [OF sextet_bounds(2), of b "a mod 4"] by (simp del: mod_mult_self3 div_mult_self3)
qed simp_all

lemma b64_roundtrip: "b64_decode (b64_encode bs) = Some bs"
proof -
  let ?vs = "b64_sextets (map unat bs)"
  have bytes: "\<forall>a \<in> set (map unat bs). a < 256"
    using byte_less by auto
  note small = sextets_less [OF this]
  have "filter (\<lambda>c. c \<noteq> CHR 0x0A \<and> c \<noteq> CHR 0x0D) (b64_encode bs) = b64_encode bs"
    using small b64_char_plain by (auto simp add: b64_encode_def filter_id_conv)
  moreover have "map b64_value (b64_encode bs) = map Some ?vs"
    using small b64_value_char by (auto simp add: b64_encode_def)
  moreover have "map (of_nat :: nat \<Rightarrow> 8 word) (map unat bs) = bs"
    by (simp add: map_idI)
  ultimately show ?thesis
    using octets_sextets [OF bytes] by (auto simp add: b64_decode_def Let_def comp_def)
qed

lemma b64_encode_no_dollar: "CHR ''$'' \<notin> set (b64_encode bs)"
proof -
  have "\<forall>v \<in> set (b64_sextets (map unat bs)). v < 64"
    by (rule sextets_less) (use byte_less in auto)
  then show ?thesis
    using b64_char_plain by (fastforce simp add: b64_encode_def)
qed

lemma split_char_none: "c \<notin> set p \<Longrightarrow> split_char c p = [p]"
  by (induction p) auto

lemma split_char_piece: "c \<notin> set p \<Longrightarrow> split_char c (p @ c # s) = p # split_char c s"
  by (induction p) auto

section \<open>Reading back what was printed\<close>

lemma scan_literal_append [simp]: "scan_literal l (l @ s) = Some s"
  by (simp add: scan_literal_def has_prefix_def)

lemma scan_int_nat:
  assumes "n < 2 ^ 63"
  shows "scan_int (dec_nat n) = Some (int n, '''')"
proof -
  note d = dec_nat_digits [of n]
  obtain c r where c: "dec_nat n = c # r"
    using d by (cases "dec_nat n") auto
  then have "is_digit c"
    using d by simp
  note c' = digit_not_dollar [OF this]
  have "scan_skip (dec_nat n) = Some (dec_nat n)"
    using c c' by simp
  moreover have all: "takeWhile is_digit (dec_nat n) = dec_nat n" "dropWhile is_digit (dec_nat n) = ''''"
    using dec_nat_chars by (simp_all add: takeWhile_eq_all_conv dropWhile_eq_Nil_conv)
  moreover have "\<not> (hd (dec_nat n) = CHR ''-'' \<or> hd (dec_nat n) = CHR ''+'')"
    using c c' by simp
  ultimately show ?thesis
    using assms d by (simp add: scan_int_def Let_def all)
qed

lemma Atoi_dec_nat:
  assumes "n < 2 ^ 63"
  shows "Atoi (dec_nat n) = Some (int n)"
proof -
  note d = dec_nat_digits [of n]
  obtain c r where c: "dec_nat n = c # r"
    using d by (cases "dec_nat n") auto
  then have "is_digit c"
    using d by simp
  then show ?thesis
    using assms d digit_not_dollar [of c] c by (auto simp add: Atoi_def Let_def)
qed

definition host_parameters :: string where "host_parameters = ''m=19456,t=2,p=4''"

lemma printed_parameters:
  "''m='' @ dec_nat argon2Memory @ '',t='' @ dec_nat argon2Time @ '',p='' @ dec_nat argon2Threads = host_parameters"
  by (simp add: argon2Memory_def argon2Time_def argon2Threads_def dec_nat.simps host_parameters_def) code_simp

lemma scanned_parameters: "scan_parameters host_parameters = Some (argon2Memory, argon2Time, argon2Threads)"
  by (simp add: scan_parameters_def host_parameters_def scan_literal_def has_prefix_def scan_uint_def
      is_space_def is_digit_def digits_value_def argon2Memory_def argon2Time_def argon2Threads_def Let_def)

lemma host_parts:
  "split_char CHR ''$'' (''argon2id$v='' @ dec_nat ver @ ''$m='' @ dec_nat argon2Memory @ '',t='' @
      dec_nat argon2Time @ '',p='' @ dec_nat argon2Threads @ ''$'' @ b64_encode salt @ ''$'' @ b64_encode key) =
    [''argon2id'', ''v='' @ dec_nat ver, host_parameters, b64_encode salt, b64_encode key]"
proof -
  have all: "''argon2id$v='' @ dec_nat ver @ ''$m='' @ dec_nat argon2Memory @ '',t='' @
      dec_nat argon2Time @ '',p='' @ dec_nat argon2Threads @ ''$'' @ b64_encode salt @ ''$'' @ b64_encode key =
    ''argon2id'' @ CHR ''$'' # (''v='' @ dec_nat ver) @ CHR ''$'' # host_parameters @ CHR ''$'' #
      b64_encode salt @ CHR ''$'' # b64_encode key"
    unfolding printed_parameters [symmetric] by simp
  have "CHR ''$'' \<notin> set ''argon2id''" "CHR ''$'' \<notin> set (''v='' @ dec_nat ver)" "CHR ''$'' \<notin> set host_parameters"
    using dec_nat_chars [of "CHR ''$''" ver] by (auto simp add: is_digit_def host_parameters_def)
  then show ?thesis
    unfolding all by (simp only: split_char_piece split_char_none b64_encode_no_dollar not_False_eq_True)
qed

lemma bridge_parts:
  "split_char CHR ''$'' (''pbkdf2-sha256$'' @ dec_nat n @ ''$'' @ hex_encode salt @ ''$'' @ hex_encode key) =
    [''pbkdf2-sha256'', dec_nat n, hex_encode salt, hex_encode key]"
proof -
  have all: "''pbkdf2-sha256$'' @ dec_nat n @ ''$'' @ hex_encode salt @ ''$'' @ hex_encode key =
    ''pbkdf2-sha256'' @ CHR ''$'' # dec_nat n @ CHR ''$'' # hex_encode salt @ CHR ''$'' # hex_encode key"
    by simp
  have "CHR ''$'' \<notin> set ''pbkdf2-sha256''" "CHR ''$'' \<notin> set (dec_nat n)"
    using dec_nat_chars [of "CHR ''$''" n] by (auto simp add: is_digit_def)
  then show ?thesis
    unfolding all by (simp only: split_char_piece split_char_none hex_encode_no_dollar not_False_eq_True)
qed

lemma bridge_verify_stored:
  assumes "0 < n" and "n < 2 ^ 63"
  shows "bridge_verifyPassword hmac q
      (''pbkdf2-sha256$'' @ dec_nat n @ ''$'' @ hex_encode salt @ ''$'' @ hex_encode key) \<longleftrightarrow>
    pbkdf2 hmac q salt n (length key) = key"
  unfolding bridge_verifyPassword_def bridge_parts Let_def
  using assms by (simp add: Atoi_dec_nat hex_roundtrip)

text \<open>Up to one block, a shorter key is a prefix of a longer one.\<close>

lemma length_map2_fold: "length u = 32 \<Longrightarrow> \<forall>k m. length (hmac k m) = 32 \<Longrightarrow> length r = 32 \<Longrightarrow>
    length (pbkdf2_rounds hmac key n u r) = 32"
  by (induction n arbitrary: u r) (simp_all add: Let_def)

lemma length_pbkdf2Block:
  "\<forall>k m. length (hmac k m) = 32 \<Longrightarrow> length (pbkdf2Block hmac key salt n i) = 32"
  by (simp add: pbkdf2Block_def Let_def length_map2_fold)

lemma pbkdf2_prefix:
  assumes "\<forall>k m. length (hmac k m) = 32" and "l \<le> 32"
  shows "pbkdf2 hmac p salt n l = take l (pbkdf2 hmac p salt n 32)"
proof (cases "l = 0")
  case False
  then have "(l + 32 - 1) div 32 = 1"
    using assms(2) by (simp add: div_eq_dividend_iff flip: One_nat_def)
  then show ?thesis
    using assms(2) by (simp add: pbkdf2_def)
qed (simp add: pbkdf2_def)

lemma length_pbkdf2: "\<forall>k m. length (hmac k m) = 32 \<Longrightarrow> length (pbkdf2 hmac p salt n 32) = 32"
  by (simp add: pbkdf2_def length_pbkdf2Block)

section \<open>Properties\<close>

text \<open>An account's password hash is read back as it was printed: the stored string verifies a
  password exactly when the key derivation gives it the key it gave the original one, and so
  always verifies the original.\<close>

theorem host_password_roundtrip:
  assumes "host_hashPassword ver idkey salt p = Some enc" and "ver < 2 ^ 63"
    and "\<And>w s t m h n k. idkey w s t m h n = Some k \<Longrightarrow> length k = n"
  shows "host_verifyPassword ver idkey p enc = Some True \<and>
    host_verifyPassword ver idkey q enc =
      map_option (\<lambda>k. idkey p salt argon2Time argon2Memory argon2Threads argon2KeyLen = Some k)
        (idkey q salt argon2Time argon2Memory argon2Threads argon2KeyLen)"
proof -
  obtain key where key: "idkey p salt argon2Time argon2Memory argon2Threads argon2KeyLen = Some key"
    and enc: "enc = ''argon2id$v='' @ dec_nat ver @ ''$m='' @ dec_nat argon2Memory @ '',t='' @
      dec_nat argon2Time @ '',p='' @ dec_nat argon2Threads @ ''$'' @ b64_encode salt @ ''$'' @ b64_encode key"
    using assms(1) by (auto simp add: host_hashPassword_def split: option.splits)
  have "length key = argon2KeyLen"
    by (rule assms(3) [OF key])
  then have verify: "host_verifyPassword ver idkey w enc =
      map_option (\<lambda>k. k = key) (idkey w salt argon2Time argon2Memory argon2Threads argon2KeyLen)" for w
    unfolding host_verifyPassword_def enc host_parts Let_def
    using assms(2) by (simp add: scan_int_nat scanned_parameters b64_roundtrip del: append_Cons)
  show ?thesis
    unfolding verify key
    by (cases "idkey q salt argon2Time argon2Memory argon2Threads argon2KeyLen") auto
qed

theorem host_password_roundtrip_witness:
  "let idkey = (\<lambda>w s t m h n. Some (replicate n (of_nat (length w))));
       enc = the (host_hashPassword 19 idkey [1, 2] ''secret'')
   in host_verifyPassword 19 idkey ''secret'' enc = Some True \<and>
      host_verifyPassword 19 idkey ''guess'' enc = Some False"
proof -
  let ?idkey = "(\<lambda>w s t m h n. Some (replicate n (of_nat (length w)))) :: id_key"
  let ?enc = "the (host_hashPassword 19 ?idkey [1, 2] ''secret'')"
  have "host_hashPassword 19 ?idkey [1, 2] ''secret'' = Some ?enc"
    by (simp add: host_hashPassword_def)
  then have "host_verifyPassword 19 ?idkey ''secret'' ?enc = Some True \<and>
      host_verifyPassword 19 ?idkey ''guess'' ?enc =
        map_option (\<lambda>k. ?idkey ''secret'' [1, 2] argon2Time argon2Memory argon2Threads argon2KeyLen = Some k)
          (?idkey ''guess'' [1, 2] argon2Time argon2Memory argon2Threads argon2KeyLen)"
    by (rule host_password_roundtrip) auto
  then show ?thesis
    by (simp add: argon2KeyLen_def del: of_nat_numeral)
qed

text \<open>C30: a stored hash of the Bridge that lost the end of its key still verifies: whatever prefix is
  left is all that is compared, so a shorter one accepts more passwords and an empty one accepts
  every password.\<close>

theorem truncated_hash_accepts:
  assumes "\<forall>k m. length (hmac k m) = 32" and "0 < n" and "n < 2 ^ 63" and "l \<le> 32"
  shows "bridge_verifyPassword hmac q
      (''pbkdf2-sha256$'' @ dec_nat n @ ''$'' @ hex_encode salt @ ''$'' @ hex_encode (take l (pbkdf2 hmac p salt n 32))) \<longleftrightarrow>
    take l (pbkdf2 hmac q salt n 32) = take l (pbkdf2 hmac p salt n 32)"
proof -
  have "length (take l (pbkdf2 hmac p salt n 32)) = l"
    using assms(4) length_pbkdf2 [OF assms(1)] by simp
  then show ?thesis
    unfolding bridge_verify_stored [OF assms(2,3)] using pbkdf2_prefix [OF assms(1,4)] by (simp only:)
qed

theorem truncated_hash_accepts_witness:
  "let hmac = (\<lambda>k m. replicate 32 (of_nat (length k + length m))) :: mac
   in bridge_verifyPassword hmac ''anything''
        (''pbkdf2-sha256$'' @ dec_nat 1 @ ''$'' @ hex_encode [7] @ ''$'' @ hex_encode (take 0 (pbkdf2 hmac ''secret'' [7] 1 32)))"
  unfolding Let_def by (subst truncated_hash_accepts) simp_all

end
