(* ===== verification/HostTables.thy ===== *)
theory HostTables
  imports Credentials Catalogue
begin

text \<open>
  The Host's database, \<open>src/host/hoststore/\<close> \<open>schema.sql\<close>, \<open>events.go\<close>, \<open>inventory.go\<close>.  A table is an
  association list from its primary key to its row, so that a query can count and join rows; the
  two tables of the credential protocol are the \<open>cred_db\<close> of \<open>Credentials\<close>.  A statement is a
  function of the database that checks the constraints of the schema: keys that exist already,
  foreign keys, and integers too wide for their column are errors.  Every statement of an
  operation has a name in \<open>stmt\<close>, and the argument \<open>flt\<close> says which
  of them the database refuses in this call.  A transaction that meets an error returns it and no
  database: the caller goes on with the one it had.  \<open>ORDER BY\<close> leaves rows with equal keys in any
  order, so it is an argument with the contract \<open>sorts\<close>.
\<close>

section \<open>Statements and their errors\<close>

datatype sql_error = SqlRefused | SqlUnique | SqlForeignKey | SqlOutOfRange

datatype (plugins only: code size) stmt =
    StRecordEvent
  | StReplaceBegin | StReplaceSnapshot | StReplaceClear | StReplaceItem FileID | StReplaceCommit
  | StSnapshotFor | StPerBridge | StCountDistinct | StCountDuplicated | StSumReplicas
  | StOwnerExists | StInsertOwner | StLookupAccount | StInsertSession | StLookupSession | StDeleteSession
  | StCreateBegin | StInsertSwarm | StInsertOwnerMember | StCreateCommit
  | StLookupSwarm | StListSwarms
  | StDeleteBegin | StDeleteItems | StDeleteSnapshots | StDeleteEnrolled | StDeleteInvitations
  | StDeleteMembers | StDeleteSwarm | StDeleteCommit
  | StInsertInvitation | StListInvitations
  | StForgetBegin | StClearVia | StForgetInvitation | StForgetCommit
  | StRedeem | StEnsureBridge | StInsertEnrolled | StLoadFamily | StSaveFamily | StListBridges
  | StRemoveBegin | StRemoveItems | StRemoveSnapshot | StRemoveEnrolled | StRemoveCommit
  | StSetDisplayName | StLookupEnrolled | StPublishName
  | StUpsertCatalogue | StListCatalogues | StDeleteCatalogue | StFetchCatalogues

datatype store_error =
    StoreSql stmt sql_error
  | StoreEvent event_error
  | StoreBridge string

type_synonym faults = "stmt \<Rightarrow> bool"

definition sql_run :: "faults \<Rightarrow> stmt \<Rightarrow> (sql_error + 'a) \<Rightarrow> store_error + 'a" where
  "sql_run flt lbl r =
     (if flt lbl then Inl (StoreSql lbl SqlRefused)
      else case r of Inl e \<Rightarrow> Inl (StoreSql lbl e) | Inr x \<Rightarrow> Inr x)"

lemma sql_run_Inr [simp]: "sql_run flt lbl r = Inr x \<longleftrightarrow> \<not> flt lbl \<and> r = Inr x"
  by (auto simp add: sql_run_def split: sum.splits)

lemma sql_run_fine [simp]: "\<not> flt lbl \<Longrightarrow> sql_run flt lbl (Inr x) = Inr x"
  by simp

lemma sql_run_Inl:
  "sql_run flt lbl r = Inl e \<longleftrightarrow> flt lbl \<and> e = StoreSql lbl SqlRefused \<or>
    \<not> flt lbl \<and> (\<exists>c. r = Inl c \<and> e = StoreSql lbl c)"
  by (auto simp add: sql_run_def split: sum.splits)

section \<open>Tables\<close>

type_synonym ('k, 'r) table = "('k \<times> 'r) list"

definition tab_insert :: "'k \<Rightarrow> 'r \<Rightarrow> ('k, 'r) table \<Rightarrow> sql_error + ('k, 'r) table" where
  "tab_insert k r t = (if map_of t k = None then Inr (t @ [(k, r)]) else Inl SqlUnique)"

definition tab_delete :: "('k \<Rightarrow> bool) \<Rightarrow> ('k, 'r) table \<Rightarrow> ('k, 'r) table" where
  "tab_delete p t = filter (\<lambda>(k, r). \<not> p k) t"

definition tab_update :: "('k \<Rightarrow> 'r \<Rightarrow> bool) \<Rightarrow> ('r \<Rightarrow> 'r) \<Rightarrow> ('k, 'r) table \<Rightarrow> ('k, 'r) table" where
  "tab_update p f t = map (\<lambda>(k, r). if p k r then (k, f r) else (k, r)) t"

definition keys_distinct :: "('k, 'r) table \<Rightarrow> bool" where
  "keys_distinct t = distinct (map fst t)"

lemma tab_insert_Inr: "tab_insert k r t = Inr t' \<longleftrightarrow> map_of t k = None \<and> t' = t @ [(k, r)]"
  by (auto simp add: tab_insert_def)

lemma tab_delete_lookup: "map_of (tab_delete p t) k = (if p k then None else map_of t k)"
  by (induction t) (auto simp add: tab_delete_def)

lemma tab_update_keys [simp]: "map fst (tab_update p f t) = map fst t"
  by (induction t) (auto simp add: tab_update_def)

lemma tab_update_lookup:
  "map_of (tab_update p f t) k = map_option (\<lambda>r. if p k r then f r else r) (map_of t k)"
  by (induction t) (auto simp add: tab_update_def)

lemma tab_insert_lookup:
  "map_of t k = None \<Longrightarrow> map_of (t @ [(k, r)]) = (map_of t)(k \<mapsto> r)"
  by (auto simp add: map_add_def fun_eq_iff split: option.splits)

lemma keys_distinct_empty [simp]: "keys_distinct []"
  by (simp add: keys_distinct_def)

lemma keys_distinct_insert [intro]: "keys_distinct t \<Longrightarrow> map_of t k = None \<Longrightarrow> keys_distinct (t @ [(k, r)])"
  by (simp add: keys_distinct_def map_of_eq_None_iff)

lemma keys_distinct_delete [intro]: "keys_distinct t \<Longrightarrow> keys_distinct (tab_delete p t)"
  unfolding keys_distinct_def tab_delete_def by (rule distinct_map_filter)

lemma keys_distinct_update [simp]: "keys_distinct (tab_update p f t) = keys_distinct t"
  by (simp add: keys_distinct_def)

lemma keys_distinct_put [intro]: "keys_distinct t \<Longrightarrow> keys_distinct (al_put k r t)"
  by (simp add: keys_distinct_def al_put_distinct)

lemma keys_distinct_mem: "keys_distinct t \<Longrightarrow> (k, r) \<in> set t \<longleftrightarrow> map_of t k = Some r"
  by (simp add: keys_distinct_def)

section \<open>The schema\<close>

record account_row =
  hac_username :: string
  hac_display_name :: string
  hac_email :: "string option"
  hac_password_hash :: string
  hac_is_owner :: bool
  hac_created_at :: instant
  hac_disabled_at :: "instant option"

record session_row =
  hse_account :: string
  hse_created_at :: instant
  hse_expires_at :: instant

record swarm_row =
  hsw_name :: string
  hsw_alias_key :: bytes
  hsw_created_by :: string
  hsw_created_at :: instant

record swarm_member_row =
  hsm_role :: string
  hsm_joined_at :: instant

record invitation_row =
  hin_swarm :: string
  hin_code_hash :: string
  hin_issued_by :: string
  hin_max_uses :: int
  hin_use_count :: int
  hin_expires_at :: instant
  hin_created_at :: instant
  hin_revoked_at :: "instant option"

record bridge_member_row =
  hbm_via :: "string option"
  hbm_state :: string
  hbm_joined_at :: instant
  hbm_disabled_at :: "instant option"
  hbm_revoked_at :: "instant option"
  hbm_revoked_reason :: "string option"
  hbm_display_name :: string
  hbm_set_by_host :: bool

record snapshot_row =
  his_revision :: Revision
  his_item_count :: int
  his_total_bytes :: int
  his_fingerprints :: "PlatformID \<rightharpoonup> string"
  his_generated_at :: instant
  his_published_at :: instant

record item_row =
  hii_platform :: PlatformID
  hii_size :: int

record catalogue_row =
  hrc_filename :: string
  hrc_content :: bytes
  hrc_sha256 :: string
  hrc_entry_count :: int
  hrc_uploaded_by :: string
  hrc_uploaded_at :: instant

text \<open>The keys of the two-column tables are (Swarm, account), (Bridge, Swarm) and
  (Swarm, platform); an item's key is (Bridge, Swarm, file).\<close>

record host_db =
  hd_accounts :: "(string, account_row) table"
  hd_sessions :: "(string, session_row) table"
  hd_swarms :: "(string, swarm_row) table"
  hd_members :: "(string \<times> string, swarm_member_row) table"
  hd_invitations :: "(string, invitation_row) table"
  hd_enrolled :: "(string \<times> string, bridge_member_row) table"
  hd_snapshots :: "(string \<times> string, snapshot_row) table"
  hd_items :: "(string \<times> string \<times> FileID, item_row) table"
  hd_catalogues :: "(string \<times> PlatformID, catalogue_row) table"
  hd_events :: "Event list"
  hd_creds :: cred_db

text \<open>What \<open>ApplySchema\<close> leaves in an empty database; \<open>tm\<close> is the driver's conversion of times.\<close>

definition empty_host :: "(instant \<Rightarrow> instant) \<Rightarrow> host_db" where
  "empty_host tm = \<lparr>hd_accounts = [], hd_sessions = [], hd_swarms = [], hd_members = [],
     hd_invitations = [], hd_enrolled = [], hd_snapshots = [], hd_items = [], hd_catalogues = [],
     hd_events = [], hd_creds = \<lparr>db_bridges = Map.empty, db_families = Map.empty, db_time = tm,
       db_down = False\<rparr>\<rparr>"

definition host_time :: "host_db \<Rightarrow> instant \<Rightarrow> instant" where
  "host_time db t = db_time (hd_creds db) t"

definition has_account :: "host_db \<Rightarrow> string \<Rightarrow> bool" where
  "has_account db a = (map_of (hd_accounts db) a \<noteq> None)"

definition has_swarm :: "host_db \<Rightarrow> string \<Rightarrow> bool" where
  "has_swarm db s = (map_of (hd_swarms db) s \<noteq> None)"

definition has_invitation :: "host_db \<Rightarrow> string \<Rightarrow> bool" where
  "has_invitation db i = (map_of (hd_invitations db) i \<noteq> None)"

definition has_bridge :: "host_db \<Rightarrow> string \<Rightarrow> bool" where
  "has_bridge db b = (db_bridges (hd_creds db) b \<noteq> None)"

definition int4 :: "int \<Rightarrow> bool" where
  "int4 n = (- (2 ^ 31) \<le> n \<and> n < 2 ^ 31)"

section \<open>Events\<close>

definition event_Record :: "faults \<Rightarrow> Event \<Rightarrow> host_db \<Rightarrow> store_error + host_db" where
  "event_Record flt ev db =
     (case event_Validate ev of
        Some e \<Rightarrow> Inl (StoreEvent e)
      | None \<Rightarrow> sql_run flt StRecordEvent
          (Inr (db\<lparr>hd_events := hd_events db @ [ev\<lparr>ev_At := host_time db (ev_At ev)\<rparr>]\<rparr>)))"

section \<open>Inventories\<close>

record InventorySnapshot =
  isn_BridgeID :: string
  isn_SwarmID :: string
  isn_Revision :: Revision
  isn_ItemCount :: int
  isn_TotalBytes :: int
  isn_GeneratedAt :: instant
  isn_PublishedAt :: instant

definition total_bytes :: "Item list \<Rightarrow> int" where
  "total_bytes items = foldl (\<lambda>t it. wrap64 (t + d_Size (it_Canonical it))) 0 items"

definition upsert_snapshot :: "string \<Rightarrow> string \<Rightarrow> Manifest \<Rightarrow> instant \<Rightarrow> host_db \<Rightarrow> sql_error + host_db" where
  "upsert_snapshot b s m at db =
     (if unat (mf_Revision m) \<ge> 2 ^ 63 \<or> \<not> int4 (int (length (mf_Items m))) then Inl SqlOutOfRange
      else if \<not> has_bridge db b \<or> \<not> has_swarm db s then Inl SqlForeignKey
      else Inr (db\<lparr>hd_snapshots := al_put (b, s)
        \<lparr>his_revision = mf_Revision m, his_item_count = int (length (mf_Items m)),
         his_total_bytes = total_bytes (mf_Items m), his_fingerprints = mf_Fingerprints m,
         his_generated_at = host_time db (mf_GeneratedAt m), his_published_at = host_time db at\<rparr>
        (hd_snapshots db)\<rparr>))"

definition clear_items :: "string \<Rightarrow> string \<Rightarrow> host_db \<Rightarrow> host_db" where
  "clear_items b s db = db\<lparr>hd_items := tab_delete (\<lambda>(b', s', f). b' = b \<and> s' = s) (hd_items db)\<rparr>"

definition insert_item :: "string \<Rightarrow> string \<Rightarrow> Item \<Rightarrow> host_db \<Rightarrow> sql_error + host_db" where
  "insert_item b s it db =
     (if \<not> has_bridge db b \<or> \<not> has_swarm db s then Inl SqlForeignKey
      else res_bind (tab_insert (b, s, it_FileID it)
        \<lparr>hii_platform = it_Platform it, hii_size = d_Size (it_Canonical it)\<rparr> (hd_items db))
        (\<lambda>t. Inr (db\<lparr>hd_items := t\<rparr>)))"

fun insert_items :: "faults \<Rightarrow> string \<Rightarrow> string \<Rightarrow> Item list \<Rightarrow> host_db \<Rightarrow> store_error + host_db" where
  "insert_items flt b s [] db = Inr db"
| "insert_items flt b s (it # rest) db =
     res_bind (sql_run flt (StReplaceItem (it_FileID it)) (insert_item b s it db))
       (insert_items flt b s rest)"

definition Replace :: "faults \<Rightarrow> string \<Rightarrow> string \<Rightarrow> Manifest \<Rightarrow> instant \<Rightarrow> host_db \<Rightarrow> store_error + host_db" where
  "Replace flt b s m at db =
     res_bind (sql_run flt StReplaceBegin (Inr db)) (\<lambda>db.
     res_bind (sql_run flt StReplaceSnapshot (upsert_snapshot b s m at db)) (\<lambda>db.
     res_bind (sql_run flt StReplaceClear (Inr (clear_items b s db))) (\<lambda>db.
     res_bind (insert_items flt b s (mf_Items m) db) (\<lambda>db.
     sql_run flt StReplaceCommit (Inr db)))))"

definition scanSnapshotRow :: "(string \<times> string) \<times> snapshot_row \<Rightarrow> InventorySnapshot" where
  "scanSnapshotRow kr = (case kr of ((b, s), r) \<Rightarrow>
     \<lparr>isn_BridgeID = b, isn_SwarmID = s, isn_Revision = his_revision r, isn_ItemCount = his_item_count r,
      isn_TotalBytes = his_total_bytes r, isn_GeneratedAt = his_generated_at r,
      isn_PublishedAt = his_published_at r\<rparr>)"

definition SnapshotFor :: "faults \<Rightarrow> string \<Rightarrow> string \<Rightarrow> host_db \<Rightarrow> store_error + InventorySnapshot option" where
  "SnapshotFor flt b s db =
     sql_run flt StSnapshotFor
       (Inr (map_option (\<lambda>r. scanSnapshotRow ((b, s), r)) (map_of (hd_snapshots db) (b, s))))"

definition PerBridgeSnapshots ::
  "((string \<times> string) \<times> snapshot_row) sorter \<Rightarrow> faults \<Rightarrow> string \<Rightarrow> host_db \<Rightarrow> store_error + InventorySnapshot list" where
  "PerBridgeSnapshots ord flt s db =
     sql_run flt StPerBridge
       (Inr (map scanSnapshotRow (ord (\<lambda>a b. his_published_at (snd a) > his_published_at (snd b))
         (filter (\<lambda>((b, s'), r). s' = s) (hd_snapshots db)))))"

record SwarmInventoryTotals =
  tot_DistinctFiles :: int
  tot_TotalReplicas :: int
  tot_DuplicatedFiles :: int

text \<open>The rows of \<open>inventory_items\<close> of one Swarm, as (Bridge, file).\<close>

definition swarm_items :: "string \<Rightarrow> host_db \<Rightarrow> (string \<times> FileID) list" where
  "swarm_items s db = List.map_filter (\<lambda>((b, s', f), r). if s' = s then Some (b, f) else None) (hd_items db)"

definition holders :: "(string \<times> FileID) list \<Rightarrow> FileID \<Rightarrow> string list" where
  "holders rows f = remdups (map fst (filter (\<lambda>(b, f'). f' = f) rows))"

definition SwarmTotals :: "faults \<Rightarrow> string \<Rightarrow> host_db \<Rightarrow> store_error + SwarmInventoryTotals" where
  "SwarmTotals flt s db =
     (let rows = swarm_items s db; files = remdups (map snd rows) in
     res_bind (sql_run flt StCountDistinct (Inr (int (length files)))) (\<lambda>distinctFiles.
     res_bind (sql_run flt StCountDuplicated
       (Inr (int (length (filter (\<lambda>f. length (holders rows f) > 1) files))))) (\<lambda>duplicated.
     res_bind (sql_run flt StSumReplicas
       (Inr (sum_list (map (\<lambda>((b, s'), r). if s' = s then his_item_count r else 0) (hd_snapshots db))))) (\<lambda>total.
     Inr \<lparr>tot_DistinctFiles = distinctFiles, tot_TotalReplicas = total, tot_DuplicatedFiles = duplicated\<rparr>))))"

section \<open>What a replacement stores\<close>

definition item_entry :: "string \<Rightarrow> string \<Rightarrow> Item \<Rightarrow> (string \<times> string \<times> FileID) \<times> item_row" where
  "item_entry b s it =
     ((b, s, it_FileID it), \<lparr>hii_platform = it_Platform it, hii_size = d_Size (it_Canonical it)\<rparr>)"

lemma has_more [simp]:
  "has_bridge (db\<lparr>hd_items := t\<rparr>) b = has_bridge db b" "has_swarm (db\<lparr>hd_items := t\<rparr>) s = has_swarm db s"
  "has_bridge (db\<lparr>hd_snapshots := u\<rparr>) b = has_bridge db b" "has_swarm (db\<lparr>hd_snapshots := u\<rparr>) s = has_swarm db s"
  "has_bridge (clear_items b' s' db) b = has_bridge db b" "has_swarm (clear_items b' s' db) s = has_swarm db s"
  by (simp_all add: has_bridge_def has_swarm_def clear_items_def)

lemma insert_item_Inr:
  "insert_item b s it db = Inr db' \<longleftrightarrow> has_bridge db b \<and> has_swarm db s \<and>
    map_of (hd_items db) (b, s, it_FileID it) = None \<and>
    db' = db\<lparr>hd_items := hd_items db @ [item_entry b s it]\<rparr>"
  by (auto simp add: insert_item_def item_entry_def res_bind_Inr_iff tab_insert_Inr)

lemma insert_items_Inr:
  "insert_items flt b s its db = Inr db' \<longleftrightarrow>
    (\<forall>it \<in> set its. \<not> flt (StReplaceItem (it_FileID it))) \<and>
    (its = [] \<or> has_bridge db b \<and> has_swarm db s) \<and> distinct (map it_FileID its) \<and>
    (\<forall>it \<in> set its. map_of (hd_items db) (b, s, it_FileID it) = None) \<and>
    db' = db\<lparr>hd_items := hd_items db @ map (item_entry b s) its\<rparr>"
proof (induction its arbitrary: db)
  case (Cons it its)
  have fresh: "map_of (hd_items db @ [item_entry b s it]) (b, s, f) = None \<longleftrightarrow>
      map_of (hd_items db) (b, s, f) = None \<and> f \<noteq> it_FileID it" for f
    by (auto simp add: map_of_eq_None_iff item_entry_def)
  show ?case
    by (simp only: insert_items.simps res_bind_Inr_iff sql_run_Inr insert_item_Inr Cons.IH)
      (auto simp add: fresh image_iff simp del: map_of_append)
qed auto

text \<open>What a successful replacement leaves: the snapshot row and, for this Bridge in this Swarm,
  exactly the items of the manifest.\<close>

definition replaced :: "string \<Rightarrow> string \<Rightarrow> Manifest \<Rightarrow> instant \<Rightarrow> host_db \<Rightarrow> host_db" where
  "replaced b s m at db = db\<lparr>
     hd_snapshots := al_put (b, s)
       \<lparr>his_revision = mf_Revision m, his_item_count = int (length (mf_Items m)),
        his_total_bytes = total_bytes (mf_Items m), his_fingerprints = mf_Fingerprints m,
        his_generated_at = host_time db (mf_GeneratedAt m), his_published_at = host_time db at\<rparr>
       (hd_snapshots db),
     hd_items := tab_delete (\<lambda>(b', s', f). b' = b \<and> s' = s) (hd_items db) @ map (item_entry b s) (mf_Items m)\<rparr>"

definition replace_refused :: "faults \<Rightarrow> Manifest \<Rightarrow> bool" where
  "replace_refused flt m =
     (flt StReplaceBegin \<or>
      flt StReplaceSnapshot \<or>
      flt StReplaceClear \<or>
      (\<exists>it \<in> set (mf_Items m). flt (StReplaceItem (it_FileID it))) \<or>
      flt StReplaceCommit)"

lemma Replace_Inr:
  "Replace flt b s m at db = Inr db' \<longleftrightarrow> \<not> replace_refused flt m \<and>
    unat (mf_Revision m) < 2 ^ 63 \<and> int4 (int (length (mf_Items m))) \<and>
    has_bridge db b \<and> has_swarm db s \<and> distinct (map it_FileID (mf_Items m)) \<and>
    db' = replaced b s m at db"
proof -
  have up: "upsert_snapshot b s m at db = Inr d \<longleftrightarrow> unat (mf_Revision m) < 2 ^ 63 \<and>
      int4 (int (length (mf_Items m))) \<and> has_bridge db b \<and> has_swarm db s \<and>
      d = db\<lparr>hd_snapshots := hd_snapshots (replaced b s m at db)\<rparr>" for d
    by (auto simp add: upsert_snapshot_def replaced_def not_le)
  have gone: "map_of (hd_items (clear_items b s d)) (b, s, f) = None" for d f
    by (simp add: clear_items_def tab_delete_lookup)
  have all: "clear_items b s (db\<lparr>hd_snapshots := u\<rparr>)\<lparr>hd_items := t\<rparr> = db\<lparr>hd_snapshots := u, hd_items := t\<rparr>" for u t
    by (simp add: clear_items_def)
  show ?thesis
    unfolding Replace_def res_bind_Inr_iff sql_run_Inr
    by (auto simp add: up insert_items_Inr gone all replace_refused_def replaced_def clear_items_def tab_delete_lookup)
qed

lemma replaced_items:
  "map_of (hd_items (replaced b s m at db)) (b', s', f) =
    (if b' = b \<and> s' = s
     then map_of (map (\<lambda>it. (it_FileID it, snd (item_entry b s it))) (mf_Items m)) f
     else map_of (hd_items db) (b', s', f))"
proof -
  have "map_of (map (item_entry b s) its) (b', s', f) =
      (if b' = b \<and> s' = s then map_of (map (\<lambda>it. (it_FileID it, snd (item_entry b s it))) its) f else None)" for its
    by (induction its) (auto simp add: item_entry_def)
  then show ?thesis
    by (auto simp add: replaced_def tab_delete_lookup map_add_def split: option.splits)
qed

section \<open>The arithmetic over a Swarm\<close>

definition owner_key :: "(string \<times> string \<times> FileID) \<times> item_row \<Rightarrow> string \<times> string" where
  "owner_key x = (fst (fst x), fst (snd (fst x)))"

definition item_count :: "host_db \<Rightarrow> string \<Rightarrow> string \<Rightarrow> nat" where
  "item_count db b s = length (filter (\<lambda>x. owner_key x = (b, s)) (hd_items db))"

text \<open>The tables of inventories agree: a snapshot row counts the items of its Bridge in its
  Swarm, and there are none without it.\<close>

definition inventory_ok :: "host_db \<Rightarrow> bool" where
  "inventory_ok db = (keys_distinct (hd_items db) \<and> keys_distinct (hd_snapshots db) \<and>
     (\<forall>b s. (case map_of (hd_snapshots db) (b, s) of
        None \<Rightarrow> item_count db b s = 0
      | Some r \<Rightarrow> his_item_count r = int (item_count db b s))))"

lemma inventory_ok_Some: "inventory_ok db \<Longrightarrow> map_of (hd_snapshots db) (b, s) = Some r \<Longrightarrow>
    his_item_count r = int (item_count db b s)"
  unfolding inventory_ok_def by (elim conjE allE [of _ b] allE [of _ s]) simp

lemma inventory_ok_None: "inventory_ok db \<Longrightarrow> map_of (hd_snapshots db) (b, s) = None \<Longrightarrow>
    item_count db b s = 0"
  unfolding inventory_ok_def by (elim conjE allE [of _ b] allE [of _ s]) simp

section \<open>The inventories stay consistent\<close>

lemma owner_deleted:
  "filter (\<lambda>x. owner_key x = (b', s')) (tab_delete (\<lambda>(b'', s'', f). b'' = b \<and> s'' = s) t) =
    (if b' = b \<and> s' = s then [] else filter (\<lambda>x. owner_key x = (b', s')) t)"
  by (induction t) (auto simp add: tab_delete_def owner_key_def)

lemma owner_inserted:
  "length (filter (\<lambda>x. owner_key x = (b', s')) (map (item_entry b s) its)) =
    (if b' = b \<and> s' = s then length its else 0)"
  by (induction its) (auto simp add: item_entry_def owner_key_def)

lemma replaced_hd_items:
  "hd_items (replaced b s m at db) =
    tab_delete (\<lambda>(b'', s'', f). b'' = b \<and> s'' = s) (hd_items db) @ map (item_entry b s) (mf_Items m)"
  by (simp add: replaced_def)

lemma item_count_replaced:
  "item_count (replaced b s m at db) b' s' =
    (if b' = b \<and> s' = s then length (mf_Items m) else item_count db b' s')"
proof -
  show ?thesis
    unfolding item_count_def replaced_hd_items by (simp only: filter_append length_append owner_deleted owner_inserted) simp
qed

lemma replaced_keys:
  assumes "keys_distinct (hd_items db)" and "distinct (map it_FileID (mf_Items m))"
  shows "keys_distinct (hd_items (replaced b s m at db))"
proof -
  have keys: "map fst (map (item_entry b s) its) = map (\<lambda>f. (b, s, f)) (map it_FileID its)" for its
    by (simp add: item_entry_def)
  have "distinct (map (\<lambda>f. (b, s, f)) (map it_FileID (mf_Items m)))"
    using assms(2) by (auto simp add: distinct_map inj_on_def)
  moreover have "distinct (map fst (tab_delete (\<lambda>(b'', s'', f). b'' = b \<and> s'' = s) (hd_items db)))"
    using keys_distinct_delete [OF assms(1)] by (simp add: keys_distinct_def)
  moreover have "set (map fst (tab_delete (\<lambda>(b'', s'', f). b'' = b \<and> s'' = s) (hd_items db))) \<inter>
      set (map (\<lambda>f. (b, s, f)) (map it_FileID (mf_Items m))) = {}"
    by (auto simp add: tab_delete_def)
  ultimately show ?thesis
    unfolding keys_distinct_def replaced_hd_items map_append distinct_append keys by blast
qed

lemma inventory_okI:
  assumes "keys_distinct (hd_items db)" "keys_distinct (hd_snapshots db)"
    and "\<And>b s r. map_of (hd_snapshots db) (b, s) = Some r \<Longrightarrow> his_item_count r = int (item_count db b s)"
    and "\<And>b s. map_of (hd_snapshots db) (b, s) = None \<Longrightarrow> item_count db b s = 0"
  shows "inventory_ok db"
  unfolding inventory_ok_def using assms by (auto split: option.split)

lemma inventory_ok_replaced:
  assumes "inventory_ok db" and "distinct (map it_FileID (mf_Items m))"
  shows "inventory_ok (replaced b s m at db)"
proof (rule inventory_okI)
  show "keys_distinct (hd_items (replaced b s m at db))"
    using assms by (simp add: inventory_ok_def replaced_keys)
  show "keys_distinct (hd_snapshots (replaced b s m at db))"
    using assms(1) by (auto simp add: inventory_ok_def replaced_def)
next
  fix b' s' r assume "map_of (hd_snapshots (replaced b s m at db)) (b', s') = Some r"
  then show "his_item_count r = int (item_count (replaced b s m at db) b' s')"
    unfolding item_count_replaced
    by (auto simp add: replaced_def inventory_ok_Some [OF assms(1)] split: if_splits)
next
  fix b' s' assume "map_of (hd_snapshots (replaced b s m at db)) (b', s') = None"
  then show "item_count (replaced b s m at db) b' s' = 0"
    unfolding item_count_replaced
    by (auto simp add: replaced_def inventory_ok_None [OF assms(1)] split: if_splits)
qed

lemma inventory_ok_empty: "inventory_ok (empty_host tm)"
  by (rule inventory_okI) (simp_all add: empty_host_def item_count_def)

lemma sum_over_keys:
  "distinct ks \<Longrightarrow> \<forall>x \<in> set xs. key x \<in> set ks \<Longrightarrow>
    sum_list (map (\<lambda>k. length (filter (\<lambda>x. key x = k) xs)) ks) = length xs"
proof (induction xs)
  case (Cons x xs)
  have "sum_list (map (\<lambda>k. length (filter (\<lambda>x. key x = k) (x # xs))) ks) =
      (\<Sum>k\<in>set ks. (if k = key x then 1 else 0) + length (filter (\<lambda>x. key x = k) xs))"
    unfolding sum_list_distinct_conv_sum_set [OF Cons.prems(1)] by (rule sum.cong) auto
  also have "\<dots> = 1 + sum_list (map (\<lambda>k. length (filter (\<lambda>x. key x = k) xs)) ks)"
    using Cons.prems by (simp add: sum.distrib sum_list_distinct_conv_sum_set)
  finally show ?case
    using Cons by simp
qed simp

lemma swarm_items_eq:
  "swarm_items s db = map (\<lambda>x. (fst (fst x), snd (snd (fst x)))) (filter (\<lambda>x. snd (owner_key x) = s) (hd_items db))"
proof -
  have "List.map_filter (\<lambda>((b, s', f), r). if s' = s then Some (b, f) else None) xs =
      map (\<lambda>x. (fst (fst x), snd (snd (fst x)))) (filter (\<lambda>x. snd (owner_key x) = s) xs)"
    for xs :: "((string \<times> string \<times> FileID) \<times> item_row) list"
    by (induction xs) (auto simp add: map_filter_simps owner_key_def)
  then show ?thesis
    by (simp add: swarm_items_def)
qed

lemma swarm_items_distinct:
  assumes "keys_distinct (hd_items db)"
  shows "distinct (swarm_items s db)"
proof -
  let ?xs = "filter (\<lambda>x. snd (owner_key x) = s) (hd_items db)"
  have "distinct (map fst ?xs)"
    using assms unfolding keys_distinct_def by (rule distinct_map_filter)
  moreover have "inj_on (\<lambda>k. (fst k, snd (snd k))) (set (map fst ?xs))"
    by (auto simp add: inj_on_def owner_key_def)
  ultimately have "distinct (map (\<lambda>k. (fst k, snd (snd k))) (map fst ?xs))"
    by (simp only: distinct_map)
  moreover have "swarm_items s db = map (\<lambda>k. (fst k, snd (snd k))) (map fst ?xs)"
    by (simp add: swarm_items_eq)
  ultimately show ?thesis
    by simp
qed

lemma filter_owner:
  "filter (\<lambda>x. key x = (b, s')) (filter (\<lambda>x. snd (key x) = s) xs) =
    (if s' = s then filter (\<lambda>x. key x = (b, s')) xs else [])"
  by (induction xs) auto

lemma replicas_of_swarm:
  assumes "inventory_ok db"
  shows "sum_list (map (\<lambda>((b, s'), r). if s' = s then his_item_count r else 0) (hd_snapshots db)) =
    int (length (swarm_items s db))"
proof -
  let ?xs = "filter (\<lambda>x. snd (owner_key x) = s) (hd_items db)"
  have "keys_distinct (hd_snapshots db)"
    using assms by (simp add: inventory_ok_def)
  note snaps = this [unfolded keys_distinct_def]
  have each: "(\<lambda>((b, s'), r). if s' = s then his_item_count r else 0) kr =
      int (length (filter (\<lambda>x. owner_key x = fst kr) ?xs))" if "kr \<in> set (hd_snapshots db)" for kr
  proof (cases kr)
    case (Pair bs r)
    obtain b s' where bs: "bs = (b, s')"
      by (cases bs)
    have "map_of (hd_snapshots db) (b, s') = Some r"
      using that snaps Pair bs by simp
    then have "his_item_count r = int (item_count db b s')"
      by (rule inventory_ok_Some [OF assms])
    then show ?thesis
      by (simp add: Pair bs item_count_def filter_owner del: filter_filter)
  qed
  have keys: "\<forall>x \<in> set ?xs. owner_key x \<in> set (map fst (hd_snapshots db))"
  proof
    fix x assume x: "x \<in> set ?xs"
    obtain b s' where key: "owner_key x = (b, s')"
      by (cases "owner_key x")
    have "item_count db b s' \<noteq> 0"
      using x key by (auto simp add: item_count_def filter_empty_conv)
    then have "map_of (hd_snapshots db) (b, s') \<noteq> None"
      using inventory_ok_None [OF assms, of b s'] by (rule contrapos_nn)
    then show "owner_key x \<in> set (map fst (hd_snapshots db))"
      by (simp add: key map_of_eq_None_iff)
  qed
  have "sum_list (map (\<lambda>((b, s'), r). if s' = s then his_item_count r else 0) (hd_snapshots db)) =
      sum_list (map int (map (\<lambda>k. length (filter (\<lambda>x. owner_key x = k) ?xs)) (map fst (hd_snapshots db))))"
    unfolding map_map comp_def by (intro arg_cong [where f = sum_list] map_cong refl each)
  also have "\<dots> = int (length ?xs)"
    unfolding sum_list_of_nat using sum_over_keys [OF snaps keys] by (simp only:)
  finally show ?thesis
    by (simp add: swarm_items_eq)
qed

lemma holders_count: "distinct rows \<Longrightarrow> length (holders rows f) = length (filter (\<lambda>x. snd x = f) rows)"
  unfolding holders_def
  by (subst distinct_remdups_id) (auto simp add: distinct_map inj_on_def intro!: arg_cong [where f = length] filter_cong)

lemma holders_some: "f \<in> snd ` set rows \<Longrightarrow> holders rows f \<noteq> []"
  by (auto simp add: holders_def filter_empty_conv)

lemma replicas_by_file:
  assumes "distinct rows"
  shows "length rows = (\<Sum>f\<in>snd ` set rows. length (holders rows f))"
  using sum_over_keys [of "remdups (map snd rows)" rows snd]
  by (simp add: assms holders_count sum_list_distinct_conv_sum_set)

lemma counted_by_file:
  assumes "distinct rows"
  shows "int (card (snd ` set rows)) + int (card {f \<in> snd ` set rows. length (holders rows f) > 1}) \<le> int (length rows)"
    and "{f \<in> snd ` set rows. length (holders rows f) > 1} = {} \<longleftrightarrow> card (snd ` set rows) = length rows"
proof -
  let ?F = "snd ` set rows"
  have one: "f \<in> ?F \<Longrightarrow> 1 + (if length (holders rows f) > 1 then 1 else 0) \<le> length (holders rows f)" for f
    using holders_some [of f rows] by (cases "length (holders rows f)") auto
  have "card ?F + card {f \<in> ?F. length (holders rows f) > 1} =
      (\<Sum>f\<in>?F. 1 + (if length (holders rows f) > 1 then 1 else 0))"
    by (simp add: sum_Suc sum.If_cases Int_def)
  also have "\<dots> \<le> (\<Sum>f\<in>?F. length (holders rows f))"
    by (rule sum_mono) (rule one)
  finally show le: "int (card ?F) + int (card {f \<in> ?F. length (holders rows f) > 1}) \<le> int (length rows)"
    by (simp only: replicas_by_file [OF assms])
  show "{f \<in> ?F. length (holders rows f) > 1} = {} \<longleftrightarrow> card ?F = length rows" (is "?L \<longleftrightarrow> ?R")
  proof
    assume ?L
    then have "f \<in> ?F \<Longrightarrow> length (holders rows f) = 1" for f
      using one [of f] by fastforce
    then show ?R
      by (simp add: replicas_by_file [OF assms])
  next
    assume ?R
    then have "card {f \<in> ?F. length (holders rows f) > 1} = 0"
      using le by simp
    then show ?L
      by (subst (asm) card_0_eq) simp_all
  qed
qed

lemma totals_of_files:
  "int (length (remdups (map snd rows))) = int (card (snd ` set rows))"
  "int (length (filter P (remdups (map snd rows)))) = int (card {f \<in> snd ` set rows. P f})"
proof -
  show "int (length (remdups (map snd rows))) = int (card (snd ` set rows))"
    by (simp add: length_remdups_card_conv)
  have "length (filter P (remdups (map snd rows))) = card (set (filter P (remdups (map snd rows))))"
    by (rule distinct_card [symmetric]) simp
  moreover have "set (filter P (remdups (map snd rows))) = {f \<in> snd ` set rows. P f}"
    by auto
  ultimately show "int (length (filter P (remdups (map snd rows)))) = int (card {f \<in> snd ` set rows. P f})"
    by presburger
qed

section \<open>Properties\<close>

text \<open>The dashboard's arithmetic is consistent: over tables of inventories that agree, the sum of
  the item counts the Bridges declared is the number of item rows of the Swarm, the distinct and
  the duplicated files are counted exactly, each duplicated file costs at least one replica more,
  and nothing is duplicated exactly when there are as many replicas as files.\<close>

theorem swarm_totals_exact:
  assumes "inventory_ok db" and "SwarmTotals flt s db = Inr t"
  shows "tot_TotalReplicas t = int (length (swarm_items s db)) \<and>
    tot_DistinctFiles t = int (card (snd ` set (swarm_items s db))) \<and>
    tot_DuplicatedFiles t = int (card {f \<in> snd ` set (swarm_items s db). length (holders (swarm_items s db) f) > 1}) \<and>
    tot_DistinctFiles t + tot_DuplicatedFiles t \<le> tot_TotalReplicas t \<and>
    (tot_DuplicatedFiles t = 0 \<longleftrightarrow> tot_DistinctFiles t = tot_TotalReplicas t)"
proof -
  have "distinct (swarm_items s db)"
    using assms(1) by (simp add: inventory_ok_def swarm_items_distinct)
  note counted = counted_by_file [OF this]
  have t: "tot_TotalReplicas t = int (length (swarm_items s db))"
    "tot_DistinctFiles t = int (card (snd ` set (swarm_items s db)))"
    "tot_DuplicatedFiles t = int (card {f \<in> snd ` set (swarm_items s db). length (holders (swarm_items s db) f) > 1})"
    using assms(2) by (auto simp add: SwarmTotals_def Let_def res_bind_Inr_iff totals_of_files
        replicas_of_swarm [OF assms(1)])
  have "card {f \<in> snd ` set (swarm_items s db). length (holders (swarm_items s db) f) > 1} = 0 \<longleftrightarrow>
      {f \<in> snd ` set (swarm_items s db). length (holders (swarm_items s db) f) > 1} = {}"
    by (rule card_0_eq) simp
  then show ?thesis
    unfolding t of_nat_eq_0_iff of_nat_eq_iff using counted by blast
qed

text \<open>Two Bridges that hold the same file.\<close>

definition two_holders :: host_db where
  "two_holders =
     (let it = \<lparr>it_FileID = ''fil_1'', it_GameID = ''gam_1'', it_Platform = PlatformGB,
            it_Stored = \<lparr>d_Size = 3, d_CRC32 = '''', d_MD5 = '''', d_SHA1 = '''', d_SHA256 = ''''\<rparr>,
            it_Container = None,
            it_Canonical = \<lparr>d_Size = 3, d_CRC32 = '''', d_MD5 = '''', d_SHA1 = '''', d_SHA256 = ''''\<rparr>,
            it_Adapter = \<lparr>ar_ID = ''gb'', ar_Version = ''1''\<rparr>, it_Classification = ClassUnmatched,
            it_Reference = None, it_Notes = [], it_Availability = AvailAvailable,
            it_Destination = StateSourceActive, it_LastVerifiedAt = 0\<rparr>;
          m = \<lparr>mf_SchemaVersion = ManifestSchema, mf_Swarm = ''s'', mf_Alias = '''', mf_Revision = 1,
            mf_GeneratedAt = 0, mf_Items = [it], mf_Fingerprints = Map.empty\<rparr>
      in replaced ''b'' ''s'' m 2 (replaced ''a'' ''s'' m 1 (empty_host (\<lambda>t. t))))"

theorem swarm_totals_exact_witness:
  "tot_TotalReplicas \<lparr>tot_DistinctFiles = 1, tot_TotalReplicas = 2, tot_DuplicatedFiles = 1\<rparr> =
     int (length (swarm_items ''s'' two_holders))"
proof -
  have ok: "inventory_ok two_holders"
    unfolding two_holders_def Let_def by (intro inventory_ok_replaced inventory_ok_empty) simp_all
  have "SwarmTotals (\<lambda>_. False) ''s'' two_holders =
      Inr \<lparr>tot_DistinctFiles = 1, tot_TotalReplicas = 2, tot_DuplicatedFiles = 1\<rparr>"
    by code_simp
  from swarm_totals_exact [OF ok this] show ?thesis
    by (elim conjE)
qed

end
