(* ===== verification/Directory.thy ===== *)
theory Directory
  imports HostTables Passwords Publish
begin

text \<open>
  The Host's domain logic, \<open>src/host/directory/\<close>: accounts and sessions, Swarms, invitations, the
  enrolment of Bridges and their credentials, inventories and reference catalogues.  Every
  operation takes the database and returns the one it leaves with its result; \<open>flt\<close> says which of
  its statements the database refuses, and the clock readings, the minted identifiers, codes and
  tokens, and the random salts are arguments.  SHA-256, HMAC and Argon2id are the fields of the
  parameter \<open>host_crypto\<close>.  Recording an event cannot fail an operation: the code drops the error.
\<close>

section \<open>Parameters, errors, helpers\<close>

record host_crypto =
  hc_sha :: "bytes \<Rightarrow> bytes"
  hc_hmac :: mac
  hc_argon_version :: nat
  hc_argon :: id_key

datatype dir_error =
    ErrOwnerAlreadyExists
  | ErrInvalidCredentials
  | ErrSessionInvalid
  | ErrInvitationNotFound
  | ErrInvitationInvalid
  | ErrBridgeNotInSwarm
  | ErrSwarmNotFound
  | ErrBridgeNotEnrolledInSwarm
  | ErrInventoryAliasMismatch
  | ErrUnsupportedPlatform
  | DirStore store_error
  | DirHashPanic
  | DirAlias alias_error
  | DirAuth auth_error
  | DirManifest manifest_error
  | DirNotACatalogue import_error
  | DirSnapshotMissing

text \<open>Run a statement whose error ends the operation.\<close>

definition run :: "faults \<Rightarrow> stmt \<Rightarrow> (sql_error + 'a) \<Rightarrow> dir_error + 'a" where
  "run flt st r = map_sum DirStore id (sql_run flt st r)"

lemma run_Inr [simp]: "run flt st r = Inr x \<longleftrightarrow> \<not> flt st \<and> r = Inr x"
  unfolding run_def by (cases "sql_run flt st r") (auto simp flip: sql_run_Inr)

lemma run_fine [simp]: "\<not> flt st \<Longrightarrow> run flt st (Inr x) = Inr x"
  by simp

text \<open>The end of an operation: with an error the database is the one before, with a result the new one.\<close>

definition settle :: "host_db \<Rightarrow> (dir_error + host_db \<times> 'a) \<Rightarrow> host_db \<times> (dir_error + 'a)" where
  "settle db r = (case r of Inl e \<Rightarrow> (db, Inl e) | Inr (db', x) \<Rightarrow> (db', Inr x))"

definition record_event :: "faults \<Rightarrow> EventKind \<Rightarrow> instant \<Rightarrow> string \<Rightarrow> string \<Rightarrow> string \<Rightarrow> host_db \<Rightarrow> host_db" where
  "record_event flt k at swarm user bridge db =
     (case event_Record flt \<lparr>ev_Kind = k, ev_At = at, ev_SwarmID = swarm, ev_ActorUser = user,
         ev_ActorBridge = bridge\<rparr> db of
        Inl e \<Rightarrow> db
      | Inr db' \<Rightarrow> db')"

definition secret_hash :: "host_crypto \<Rightarrow> string \<Rightarrow> string" where
  "secret_hash C s = hex_encode (hc_sha C (bytes_of s))"

section \<open>Accounts and sessions\<close>

definition sessionLifetime :: int where "sessionLifetime = 24 * 60 * 60 * 1000000000"

definition OwnerExists :: "faults \<Rightarrow> host_db \<Rightarrow> dir_error + bool" where
  "OwnerExists flt db = run flt StOwnerExists (Inr (\<exists>(i, a) \<in> set (hd_accounts db). hac_is_owner a))"

definition insert_account :: "string \<Rightarrow> account_row \<Rightarrow> host_db \<Rightarrow> sql_error + host_db" where
  "insert_account i a db =
     (if \<exists>(j, b) \<in> set (hd_accounts db). hac_username b = hac_username a then Inl SqlUnique
      else res_bind (tab_insert i a (hd_accounts db)) (\<lambda>t. Inr (db\<lparr>hd_accounts := t\<rparr>)))"

text \<open>The statement after the check of \<open>OwnerExists\<close>.\<close>

definition insert_owner ::
  "host_crypto \<Rightarrow> faults \<Rightarrow> instant \<Rightarrow> string \<Rightarrow> bytes \<Rightarrow> string \<Rightarrow> string \<Rightarrow> string \<Rightarrow> string \<Rightarrow> host_db \<Rightarrow> host_db \<times> (dir_error + string)" where
  "insert_owner C flt now i salt username display email password db =
     (case host_hashPassword (hc_argon_version C) (hc_argon C) salt password of
        None \<Rightarrow> (db, Inl DirHashPanic)
      | Some hash \<Rightarrow>
        settle db (res_bind (run flt StInsertOwner (insert_account i
            \<lparr>hac_username = username, hac_display_name = display,
             hac_email = (if email = '''' then None else Some email), hac_password_hash = hash,
             hac_is_owner = True, hac_created_at = host_time db now, hac_disabled_at = None\<rparr> db))
          (\<lambda>db. Inr (record_event flt EventUserRegistered now '''' i '''' db, i))))"

definition BootstrapOwner ::
  "host_crypto \<Rightarrow> faults \<Rightarrow> instant \<Rightarrow> string \<Rightarrow> bytes \<Rightarrow> string \<Rightarrow> string \<Rightarrow> string \<Rightarrow> string \<Rightarrow> host_db \<Rightarrow> host_db \<times> (dir_error + string)" where
  "BootstrapOwner C flt now i salt username display email password db =
     (case OwnerExists flt db of
        Inl e \<Rightarrow> (db, Inl e)
      | Inr True \<Rightarrow> (db, Inl ErrOwnerAlreadyExists)
      | Inr False \<Rightarrow> insert_owner C flt now i salt username display email password db)"

definition account_named :: "host_db \<Rightarrow> string \<Rightarrow> (string \<times> account_row) option" where
  "account_named db u = List.find (\<lambda>(i, a). hac_username a = u) (hd_accounts db)"

definition insert_session :: "string \<Rightarrow> session_row \<Rightarrow> host_db \<Rightarrow> sql_error + host_db" where
  "insert_session h r db =
     (if \<not> has_account db (hse_account r) then Inl SqlForeignKey
      else res_bind (tab_insert h r (hd_sessions db)) (\<lambda>t. Inr (db\<lparr>hd_sessions := t\<rparr>)))"

text \<open>\<open>Authenticate\<close> of an account; the two readings of the clock are one, as nothing lies between.\<close>

definition LogIn ::
  "host_crypto \<Rightarrow> faults \<Rightarrow> instant \<Rightarrow> string \<Rightarrow> string \<Rightarrow> string \<Rightarrow> host_db \<Rightarrow> host_db \<times> (dir_error + string \<times> instant)" where
  "LogIn C flt now token username password db =
     (case run flt StLookupAccount (Inr (account_named db username)) of
        Inl e \<Rightarrow> (db, Inl e)
      | Inr None \<Rightarrow> (db, Inl ErrInvalidCredentials)
      | Inr (Some (i, a)) \<Rightarrow>
        if hac_disabled_at a \<noteq> None then (db, Inl ErrInvalidCredentials)
        else case host_verifyPassword (hc_argon_version C) (hc_argon C) password (hac_password_hash a) of
          None \<Rightarrow> (db, Inl DirHashPanic)
        | Some False \<Rightarrow> (db, Inl ErrInvalidCredentials)
        | Some True \<Rightarrow>
          settle db (res_bind (run flt StInsertSession (insert_session (secret_hash C token)
              \<lparr>hse_account = i, hse_created_at = host_time db now,
               hse_expires_at = host_time db (now + sessionLifetime)\<rparr> db))
            (\<lambda>db'. Inr (db', (token, now + sessionLifetime)))))"

definition ValidateSession :: "host_crypto \<Rightarrow> faults \<Rightarrow> instant \<Rightarrow> string \<Rightarrow> host_db \<Rightarrow> dir_error + string" where
  "ValidateSession C flt now token db =
     (case run flt StLookupSession (Inr (map_of (hd_sessions db) (secret_hash C token))) of
        Inl e \<Rightarrow> Inl e
      | Inr None \<Rightarrow> Inl ErrSessionInvalid
      | Inr (Some r) \<Rightarrow> if now > hse_expires_at r then Inl ErrSessionInvalid else Inr (hse_account r))"

definition Logout :: "host_crypto \<Rightarrow> faults \<Rightarrow> string \<Rightarrow> host_db \<Rightarrow> host_db \<times> (dir_error + unit)" where
  "Logout C flt token db =
     settle db (res_bind (run flt StDeleteSession
       (Inr (db\<lparr>hd_sessions := tab_delete (\<lambda>h. h = secret_hash C token) (hd_sessions db)\<rparr>)))
       (\<lambda>db'. Inr (db', ())))"

section \<open>Swarms\<close>

definition insert_swarm :: "string \<Rightarrow> swarm_row \<Rightarrow> host_db \<Rightarrow> sql_error + host_db" where
  "insert_swarm s r db =
     (if \<not> has_account db (hsw_created_by r) then Inl SqlForeignKey
      else res_bind (tab_insert s r (hd_swarms db)) (\<lambda>t. Inr (db\<lparr>hd_swarms := t\<rparr>)))"

definition insert_member :: "string \<Rightarrow> string \<Rightarrow> swarm_member_row \<Rightarrow> host_db \<Rightarrow> sql_error + host_db" where
  "insert_member s a r db =
     (if \<not> has_swarm db s \<or> \<not> has_account db a then Inl SqlForeignKey
      else res_bind (tab_insert (s, a) r (hd_members db)) (\<lambda>t. Inr (db\<lparr>hd_members := t\<rparr>)))"

definition CreateSwarm ::
  "faults \<Rightarrow> instant \<Rightarrow> string \<Rightarrow> bytes \<Rightarrow> string \<Rightarrow> string \<Rightarrow> host_db \<Rightarrow> host_db \<times> (dir_error + string)" where
  "CreateSwarm flt now s aliasKey owner name db =
     settle db (
     res_bind (run flt StCreateBegin (Inr db)) (\<lambda>db.
     res_bind (run flt StInsertSwarm (insert_swarm s \<lparr>hsw_name = name, hsw_alias_key = aliasKey,
         hsw_created_by = owner, hsw_created_at = host_time db now\<rparr> db)) (\<lambda>db.
     res_bind (run flt StInsertOwnerMember (insert_member s owner
         \<lparr>hsm_role = ''owner'', hsm_joined_at = host_time db now\<rparr> db)) (\<lambda>db.
     res_bind (run flt StCreateCommit (Inr db)) (\<lambda>db.
     Inr (record_event flt EventSwarmCreated now s owner '''' db, s))))))"

record Swarm =
  swm_ID :: string
  swm_Name :: string

definition swarm_of_member :: "host_db \<Rightarrow> string \<Rightarrow> string \<Rightarrow> Swarm option" where
  "swarm_of_member db account s =
     (case map_of (hd_swarms db) s of
        None \<Rightarrow> None
      | Some r \<Rightarrow> if map_of (hd_members db) (s, account) = None then None
                  else Some \<lparr>swm_ID = s, swm_Name = hsw_name r\<rparr>)"

definition GetSwarm :: "faults \<Rightarrow> string \<Rightarrow> string \<Rightarrow> host_db \<Rightarrow> dir_error + Swarm" where
  "GetSwarm flt account s db =
     (case run flt StLookupSwarm (Inr (swarm_of_member db account s)) of
        Inl e \<Rightarrow> Inl e
      | Inr None \<Rightarrow> Inl ErrSwarmNotFound
      | Inr (Some sw) \<Rightarrow> Inr sw)"

definition ListSwarms :: "(string \<times> swarm_row) sorter \<Rightarrow> faults \<Rightarrow> string \<Rightarrow> host_db \<Rightarrow> dir_error + Swarm list" where
  "ListSwarms ord flt account db =
     run flt StListSwarms (Inr (map (\<lambda>(s, r). \<lparr>swm_ID = s, swm_Name = hsw_name r\<rparr>)
       (ord (\<lambda>a b. hsw_created_at (snd a) < hsw_created_at (snd b))
         (filter (\<lambda>(s, r). map_of (hd_members db) (s, account) \<noteq> None) (hd_swarms db)))))"

text \<open>A row of \<open>swarms\<close> goes only when no row of another table names it.\<close>

definition swarm_referenced :: "host_db \<Rightarrow> string \<Rightarrow> bool" where
  "swarm_referenced db s =
     ((\<exists>((s', a), r) \<in> set (hd_members db). s' = s) \<or> (\<exists>(i, r) \<in> set (hd_invitations db). hin_swarm r = s) \<or>
      (\<exists>((b, s'), r) \<in> set (hd_enrolled db). s' = s) \<or> (\<exists>((b, s'), r) \<in> set (hd_snapshots db). s' = s) \<or>
      (\<exists>((b, s', f), r) \<in> set (hd_items db). s' = s) \<or> (\<exists>((s', p), r) \<in> set (hd_catalogues db). s' = s))"

definition delete_swarm_row :: "string \<Rightarrow> host_db \<Rightarrow> sql_error + host_db" where
  "delete_swarm_row s db =
     (if has_swarm db s \<and> swarm_referenced db s then Inl SqlForeignKey
      else Inr (db\<lparr>hd_swarms := tab_delete (\<lambda>k. k = s) (hd_swarms db)\<rparr>))"

text \<open>A row of \<open>invitations\<close> goes only when no membership names it.\<close>

definition delete_invitations :: "(string \<Rightarrow> invitation_row \<Rightarrow> bool) \<Rightarrow> host_db \<Rightarrow> sql_error + host_db" where
  "delete_invitations p db =
     (if \<exists>(i, r) \<in> set (hd_invitations db). p i r \<and> (\<exists>(k, m) \<in> set (hd_enrolled db). hbm_via m = Some i)
      then Inl SqlForeignKey
      else Inr (db\<lparr>hd_invitations := filter (\<lambda>(i, r). \<not> p i r) (hd_invitations db)\<rparr>))"

definition DeleteSwarm :: "faults \<Rightarrow> instant \<Rightarrow> string \<Rightarrow> string \<Rightarrow> host_db \<Rightarrow> host_db \<times> (dir_error + unit)" where
  "DeleteSwarm flt now account s db =
     settle db (
     res_bind (GetSwarm flt account s db) (\<lambda>_.
     res_bind (run flt StDeleteBegin (Inr db)) (\<lambda>db.
     res_bind (run flt StDeleteItems (Inr (db\<lparr>hd_items := tab_delete (\<lambda>(b, s', f). s' = s) (hd_items db)\<rparr>))) (\<lambda>db.
     res_bind (run flt StDeleteSnapshots (Inr (db\<lparr>hd_snapshots := tab_delete (\<lambda>(b, s'). s' = s) (hd_snapshots db)\<rparr>))) (\<lambda>db.
     res_bind (run flt StDeleteEnrolled (Inr (db\<lparr>hd_enrolled := tab_delete (\<lambda>(b, s'). s' = s) (hd_enrolled db)\<rparr>))) (\<lambda>db.
     res_bind (run flt StDeleteInvitations (delete_invitations (\<lambda>i r. hin_swarm r = s) db)) (\<lambda>db.
     res_bind (run flt StDeleteMembers (Inr (db\<lparr>hd_members := tab_delete (\<lambda>(s', a). s' = s) (hd_members db)\<rparr>))) (\<lambda>db.
     res_bind (run flt StDeleteSwarm (delete_swarm_row s db)) (\<lambda>db.
     res_bind (run flt StDeleteCommit (Inr db)) (\<lambda>db.
     Inr (record_event flt EventSwarmDeleted now s account '''' db, ())))))))))))"

section \<open>Invitations\<close>

definition defaultInvitationTTL :: int where "defaultInvitationTTL = 7 * 24 * 60 * 60 * 1000000000"

definition insert_invitation :: "string \<Rightarrow> invitation_row \<Rightarrow> host_db \<Rightarrow> sql_error + host_db" where
  "insert_invitation i r db =
     (if \<not> int4 (hin_max_uses r) then Inl SqlOutOfRange
      else if \<not> has_swarm db (hin_swarm r) \<or> \<not> has_account db (hin_issued_by r) then Inl SqlForeignKey
      else if \<exists>(j, q) \<in> set (hd_invitations db). hin_code_hash q = hin_code_hash r then Inl SqlUnique
      else res_bind (tab_insert i r (hd_invitations db)) (\<lambda>t. Inr (db\<lparr>hd_invitations := t\<rparr>)))"

definition IssueInvitation ::
  "host_crypto \<Rightarrow> faults \<Rightarrow> instant \<Rightarrow> string \<Rightarrow> string \<Rightarrow> string \<Rightarrow> string \<Rightarrow> int \<Rightarrow> int \<Rightarrow> host_db
    \<Rightarrow> host_db \<times> (dir_error + string \<times> string)" where
  "IssueInvitation C flt now i code s issuedBy maxUses ttl db =
     (let maxUses' = (if maxUses \<le> 0 then 1 else maxUses);
          ttl' = (if ttl \<le> 0 then defaultInvitationTTL else ttl) in
      settle db (res_bind (run flt StInsertInvitation (insert_invitation i
          \<lparr>hin_swarm = s, hin_code_hash = secret_hash C code, hin_issued_by = issuedBy,
           hin_max_uses = maxUses', hin_use_count = 0, hin_expires_at = host_time db (now + ttl'),
           hin_created_at = host_time db now, hin_revoked_at = None\<rparr> db))
        (\<lambda>db. Inr (record_event flt EventInvitationIssued now s issuedBy '''' db, (code, i)))))"

definition DeleteInvitation :: "faults \<Rightarrow> instant \<Rightarrow> string \<Rightarrow> string \<Rightarrow> host_db \<Rightarrow> host_db \<times> (dir_error + unit)" where
  "DeleteInvitation flt now s i db =
     settle db (
     res_bind (run flt StForgetBegin (Inr db)) (\<lambda>db.
     res_bind (run flt StClearVia (Inr (db\<lparr>hd_enrolled :=
         tab_update (\<lambda>k m. hbm_via m = Some i) (\<lambda>m. m\<lparr>hbm_via := None\<rparr>) (hd_enrolled db)\<rparr>))) (\<lambda>db.
     res_bind (run flt StForgetInvitation (delete_invitations (\<lambda>j r. j = i \<and> hin_swarm r = s) db)) (\<lambda>db'.
     if length (hd_invitations db') = length (hd_invitations db) then Inl ErrInvitationNotFound else
     res_bind (run flt StForgetCommit (Inr db')) (\<lambda>db'.
     Inr (record_event flt EventInvitationDeleted now s '''' '''' db', ()))))))"

record Invitation =
  inv_ID :: string
  inv_MaxUses :: int
  inv_UseCount :: int
  inv_ExpiresAt :: instant
  inv_CreatedAt :: instant
  inv_RevokedAt :: instant

definition ListInvitations ::
  "(string \<times> invitation_row) sorter \<Rightarrow> faults \<Rightarrow> string \<Rightarrow> host_db \<Rightarrow> dir_error + Invitation list" where
  "ListInvitations ord flt s db =
     run flt StListInvitations (Inr (map (\<lambda>(i, r). \<lparr>inv_ID = i, inv_MaxUses = hin_max_uses r,
         inv_UseCount = hin_use_count r, inv_ExpiresAt = hin_expires_at r, inv_CreatedAt = hin_created_at r,
         inv_RevokedAt = (case hin_revoked_at r of None \<Rightarrow> 0 | Some t \<Rightarrow> t)\<rparr>)
       (ord (\<lambda>a b. hin_created_at (snd a) > hin_created_at (snd b))
         (filter (\<lambda>(i, r). hin_swarm r = s) (hd_invitations db)))))"

section \<open>Bridges\<close>

text \<open>The verifier over the Host's tables; each of its two statements can be refused.\<close>

definition dir_verifier :: "host_crypto \<Rightarrow> faults \<Rightarrow> cred_db Verifier" where
  "dir_verifier C flt =
     \<lparr>v_Load = (\<lambda>db b. if flt StLoadFamily then None else bridge_cred_Load db b),
      v_Save = (\<lambda>db f. if flt StSaveFamily then Inl ''hoststore: saving credential family'' else bridge_cred_Save db f),
      v_Sha = (\<lambda>t. hc_sha C (bytes_of t)), v_Grace = 0\<rparr>"

lemma dir_verifier_sel [simp]:
  "v_Load (dir_verifier C flt) = (\<lambda>db b. if flt StLoadFamily then None else bridge_cred_Load db b)"
  "v_Save (dir_verifier C flt) = (\<lambda>db f. if flt StSaveFamily then Inl ''hoststore: saving credential family'' else bridge_cred_Save db f)"
  "v_Sha (dir_verifier C flt) = (\<lambda>t. hc_sha C (bytes_of t))" "v_Grace (dir_verifier C flt) = 0"
  by (simp_all add: dir_verifier_def)

lemma table_load_save:
  "bridge_cred_Save s f = Inr s' \<Longrightarrow> bridge_cred_Load s' b =
    (if b = fs_BridgeID f then Some (f\<lparr>fs_PreviousIssuedAt := table_kept s (fs_PreviousIssuedAt f)\<rparr>)
     else bridge_cred_Load s b)"
  "bridge_cred_Load s b = Some f \<Longrightarrow> fs_BridgeID f = b"
  using tab.load_save [OF TrueI, where sha = "\<lambda>_. []" and g = 0, of s f s' b] tab.load_key [OF TrueI, where sha = "\<lambda>_. []" and g = 0, of s b f]
  by (simp_all add: table_verifier_def)

text \<open>While the families can be read, it keeps the contract of a store.\<close>

interpretation dirv: credential_store "dir_verifier C (flt(StLoadFamily := False))" "\<lambda>_. True" table_kept for C flt
  by unfold_locales
    (auto simp add: table_load_save split: if_splits)

text \<open>The \<open>UPDATE\<close> of \<open>RedeemInvitation\<close>, one atomic statement: it takes a use of the invitation.\<close>

definition redeemable :: "host_db \<Rightarrow> string \<Rightarrow> instant \<Rightarrow> invitation_row \<Rightarrow> bool" where
  "redeemable db h at r =
     (hin_code_hash r = h \<and> hin_revoked_at r = None \<and> hin_expires_at r > at \<and>
      hin_use_count r < hin_max_uses r \<and> has_swarm db (hin_swarm r))"

definition redeem_claim ::
  "host_crypto \<Rightarrow> faults \<Rightarrow> instant \<Rightarrow> string \<Rightarrow> host_db \<Rightarrow> host_db \<times> (dir_error + string \<times> string \<times> bytes)" where
  "redeem_claim C flt now code db =
     (let p = redeemable db (secret_hash C code) (host_time db now) in
      case run flt StRedeem (Inr (List.find (\<lambda>(i, r). p r) (hd_invitations db))) of
        Inl e \<Rightarrow> (db, Inl e)
      | Inr None \<Rightarrow> (db, Inl ErrInvitationInvalid)
      | Inr (Some (i, r)) \<Rightarrow>
        (db\<lparr>hd_invitations := tab_update (\<lambda>_. p) (\<lambda>q. q\<lparr>hin_use_count := hin_use_count q + 1\<rparr>) (hd_invitations db)\<rparr>,
         Inr (i, hin_swarm r, hsw_alias_key (the (map_of (hd_swarms db) (hin_swarm r))))))"

definition insert_enrolled :: "string \<Rightarrow> string \<Rightarrow> string \<Rightarrow> instant \<Rightarrow> host_db \<Rightarrow> sql_error + host_db" where
  "insert_enrolled b s i at db =
     (if map_of (hd_enrolled db) (b, s) \<noteq> None then Inr db
      else if \<not> has_bridge db b \<or> \<not> has_swarm db s \<or> \<not> has_invitation db i then Inl SqlForeignKey
      else Inr (db\<lparr>hd_enrolled := hd_enrolled db @ [((b, s),
        \<lparr>hbm_via = Some i, hbm_state = ''enrolled'', hbm_joined_at = host_time db at, hbm_disabled_at = None,
         hbm_revoked_at = None, hbm_revoked_reason = None, hbm_display_name = '''', hbm_set_by_host = False\<rparr>)]\<rparr>))"

text \<open>The rest of \<open>RedeemInvitation\<close>, under the Bridge's lock; its statements are not one transaction.\<close>

definition redeem_enrol ::
  "host_crypto \<Rightarrow> faults \<Rightarrow> instant \<Rightarrow> string \<Rightarrow> bytes \<Rightarrow> string \<times> string \<times> bytes \<Rightarrow> host_db
    \<Rightarrow> host_db \<times> (dir_error + string \<times> string \<times> string \<times> Token)" where
  "redeem_enrol C flt now token publicKey claim db =
     (case claim of (i, s, aliasKey) \<Rightarrow>
      let b = BridgeIDFromPublicKey (hc_sha C) publicKey in
      case AliasFor (hc_hmac C) aliasKey s b of
        Inl e \<Rightarrow> (db, Inl (DirAlias e))
      | Inr alias \<Rightarrow>
        (case (if flt StEnsureBridge then Inl ''hoststore: ensuring bridge''
               else EnsureBridge (hd_creds db) b publicKey) of
           Inl e \<Rightarrow> (db, Inl (DirStore (StoreBridge e)))
         | Inr creds \<Rightarrow>
           (case run flt StInsertEnrolled (insert_enrolled b s i now (db\<lparr>hd_creds := creds\<rparr>)) of
              Inl e \<Rightarrow> (db\<lparr>hd_creds := creds\<rparr>, Inl e)
            | Inr db2 \<Rightarrow>
              (case Enroll (dir_verifier C flt) token (hd_creds db2) b of
                 (creds', Inl e) \<Rightarrow> (db2\<lparr>hd_creds := creds'\<rparr>, Inl (DirAuth e))
               | (creds', Inr tok) \<Rightarrow>
                 (record_event flt EventBridgeEnrolled now s '''' b (db2\<lparr>hd_creds := creds'\<rparr>),
                  Inr (b, s, alias, tok))))))"

definition RedeemInvitation ::
  "host_crypto \<Rightarrow> faults \<Rightarrow> instant \<Rightarrow> string \<Rightarrow> string \<Rightarrow> bytes \<Rightarrow> host_db
    \<Rightarrow> host_db \<times> (dir_error + string \<times> string \<times> string \<times> Token)" where
  "RedeemInvitation C flt now token code publicKey db =
     (case redeem_claim C flt now code db of
        (db', Inl e) \<Rightarrow> (db', Inl e)
      | (db', Inr claim) \<Rightarrow> redeem_enrol C flt now token publicKey claim db')"

definition RotateBridgeCredential ::
  "host_crypto \<Rightarrow> faults \<Rightarrow> instant \<Rightarrow> Token \<Rightarrow> string \<Rightarrow> Token \<Rightarrow> host_db \<Rightarrow> host_db \<times> (auth_error + Result)" where
  "RotateBridgeCredential C flt now nxt b presented db =
     (case Rotate (dir_verifier C flt) now nxt (hd_creds db) b presented of (creds, res) \<Rightarrow>
      let db = db\<lparr>hd_creds := creds\<rparr> in
      case res of
        Inr r \<Rightarrow> (record_event flt (r_Event r) now '''' '''' b db, Inr r)
      | Inl ErrReuseDetected \<Rightarrow>
        (record_event flt EventTokenFamilyRevkd now '''' '''' b
           (record_event flt EventTokenReuseDetect now '''' '''' b db), Inl ErrReuseDetected)
      | Inl e \<Rightarrow> (record_event flt EventAuthFailure now '''' '''' b db, Inl e))"

definition RevokeBridge ::
  "host_crypto \<Rightarrow> faults \<Rightarrow> instant \<Rightarrow> string \<Rightarrow> string \<Rightarrow> host_db \<Rightarrow> host_db \<times> auth_error option" where
  "RevokeBridge C flt now b reason db =
     (case Revoke (dir_verifier C flt) (hd_creds db) b reason of (creds, err) \<Rightarrow>
      let db = db\<lparr>hd_creds := creds\<rparr> in
      case err of
        Some e \<Rightarrow> (record_event flt EventAuthFailure now '''' '''' b db, Some e)
      | None \<Rightarrow> (record_event flt EventBridgeRevoked now '''' '''' b db, None))"

definition ReenrollBridge ::
  "host_crypto \<Rightarrow> faults \<Rightarrow> instant \<Rightarrow> Token \<Rightarrow> string \<Rightarrow> host_db \<Rightarrow> host_db \<times> (auth_error + Token)" where
  "ReenrollBridge C flt now token b db =
     (case ReEnroll (dir_verifier C flt) token (hd_creds db) b of (creds, res) \<Rightarrow>
      let db = db\<lparr>hd_creds := creds\<rparr> in
      case res of
        Inl e \<Rightarrow> (record_event flt EventAuthFailure now '''' '''' b db, Inl e)
      | Inr tok \<Rightarrow> (record_event flt EventBridgeReenrolled now '''' '''' b db, Inr tok))"

record BridgeMembership =
  bms_BridgeID :: string
  bms_DisplayName :: string
  bms_JoinedAt :: instant
  bms_State :: string
  bms_DisabledAt :: instant
  bms_RevokedAt :: instant
  bms_RevokedReason :: string
  bms_CredentialRevoked :: bool
  bms_DisplayNameSetByHost :: bool

definition ListBridgesForSwarm ::
  "((string \<times> string) \<times> bridge_member_row) sorter \<Rightarrow> faults \<Rightarrow> string \<Rightarrow> host_db \<Rightarrow> dir_error + BridgeMembership list" where
  "ListBridgesForSwarm ord flt s db =
     run flt StListBridges (Inr (map (\<lambda>((b, s'), m). \<lparr>bms_BridgeID = b, bms_DisplayName = hbm_display_name m,
         bms_JoinedAt = hbm_joined_at m, bms_State = hbm_state m,
         bms_DisabledAt = (case hbm_disabled_at m of None \<Rightarrow> 0 | Some t \<Rightarrow> t),
         bms_RevokedAt = (case hbm_revoked_at m of None \<Rightarrow> 0 | Some t \<Rightarrow> t),
         bms_RevokedReason = (case hbm_revoked_reason m of None \<Rightarrow> '''' | Some t \<Rightarrow> t),
         bms_CredentialRevoked = (case db_families (hd_creds db) b of None \<Rightarrow> False | Some f \<Rightarrow> row_revoked f),
         bms_DisplayNameSetByHost = hbm_set_by_host m\<rparr>)
       (ord (\<lambda>a b. hbm_joined_at (snd a) > hbm_joined_at (snd b))
         (filter (\<lambda>((b, s'), m). s' = s) (hd_enrolled db)))))"

definition RemoveBridgeFromSwarm ::
  "faults \<Rightarrow> instant \<Rightarrow> string \<Rightarrow> string \<Rightarrow> host_db \<Rightarrow> host_db \<times> (dir_error + unit)" where
  "RemoveBridgeFromSwarm flt now s b db =
     settle db (
     res_bind (run flt StRemoveBegin (Inr db)) (\<lambda>db.
     res_bind (run flt StRemoveItems (Inr (clear_items b s db))) (\<lambda>db.
     res_bind (run flt StRemoveSnapshot (Inr (db\<lparr>hd_snapshots := tab_delete (\<lambda>k. k = (b, s)) (hd_snapshots db)\<rparr>))) (\<lambda>db.
     res_bind (run flt StRemoveEnrolled (Inr (db\<lparr>hd_enrolled := tab_delete (\<lambda>k. k = (b, s)) (hd_enrolled db)\<rparr>))) (\<lambda>db'.
     if length (hd_enrolled db') = length (hd_enrolled db) then Inl ErrBridgeNotInSwarm else
     res_bind (run flt StRemoveCommit (Inr db')) (\<lambda>db'.
     Inr (record_event flt EventBridgeRemoved now s '''' b db', ())))))))"

definition SetBridgeDisplayName :: "faults \<Rightarrow> string \<Rightarrow> string \<Rightarrow> string \<Rightarrow> host_db \<Rightarrow> host_db \<times> (dir_error + unit)" where
  "SetBridgeDisplayName flt s b name db =
     settle db (
     res_bind (run flt StSetDisplayName (Inr (db\<lparr>hd_enrolled := tab_update (\<lambda>k m. k = (b, s))
       (\<lambda>m. m\<lparr>hbm_display_name := name, hbm_set_by_host := name \<noteq> ''''\<rparr>) (hd_enrolled db)\<rparr>))) (\<lambda>db'.
     if map_of (hd_enrolled db) (b, s) = None then Inl ErrBridgeNotInSwarm else Inr (db', ())))"

section \<open>Inventories\<close>

definition applyBridgePublishedDisplayName ::
  "faults \<Rightarrow> string \<Rightarrow> string \<Rightarrow> string \<Rightarrow> host_db \<Rightarrow> host_db \<times> (dir_error + unit)" where
  "applyBridgePublishedDisplayName flt s b name db =
     (if name = '''' then (db, Inr ())
      else settle db (res_bind (run flt StPublishName (Inr (db\<lparr>hd_enrolled :=
          tab_update (\<lambda>k m. k = (b, s) \<and> \<not> hbm_set_by_host m) (\<lambda>m. m\<lparr>hbm_display_name := name\<rparr>) (hd_enrolled db)\<rparr>)))
        (\<lambda>db'. Inr (db', ()))))"

definition active_member :: "bridge_member_row \<Rightarrow> bool" where
  "active_member m = (hbm_disabled_at m = None \<and> hbm_revoked_at m = None)"

definition requireActiveMembership :: "faults \<Rightarrow> string \<Rightarrow> string \<Rightarrow> host_db \<Rightarrow> dir_error + unit" where
  "requireActiveMembership flt b s db =
     (case run flt StLookupEnrolled (Inr (map_of (hd_enrolled db) (b, s))) of
        Inl e \<Rightarrow> Inl e
      | Inr None \<Rightarrow> Inl ErrBridgeNotEnrolledInSwarm
      | Inr (Some m) \<Rightarrow> if \<not> active_member m then Inl ErrBridgeNotEnrolledInSwarm else Inr ())"

text \<open>The query of \<open>PublishInventory\<close>: the membership joined with its Swarm's alias key.\<close>

definition member_with_key :: "host_db \<Rightarrow> string \<Rightarrow> string \<Rightarrow> (bridge_member_row \<times> bytes) option" where
  "member_with_key db b s =
     (case (map_of (hd_enrolled db) (b, s), map_of (hd_swarms db) s) of
        (Some m, Some w) \<Rightarrow> Some (m, hsw_alias_key w)
      | _ \<Rightarrow> None)"

text \<open>The checks between the authentication and the first write.\<close>

definition publish_checks :: "host_crypto \<Rightarrow> faults \<Rightarrow> string \<Rightarrow> Manifest \<Rightarrow> host_db \<Rightarrow> dir_error + unit" where
  "publish_checks C flt b m db =
     (case manifest_Validate (hc_sha C) m of
        Some e \<Rightarrow> Inl (DirManifest e)
      | None \<Rightarrow>
        (case run flt StLookupEnrolled (Inr (member_with_key db b (mf_Swarm m))) of
           Inl e \<Rightarrow> Inl e
         | Inr None \<Rightarrow> Inl ErrBridgeNotEnrolledInSwarm
         | Inr (Some (r, aliasKey)) \<Rightarrow>
           if \<not> active_member r then Inl ErrBridgeNotEnrolledInSwarm
           else case AliasFor (hc_hmac C) aliasKey (mf_Swarm m) b of
             Inl e \<Rightarrow> Inl (DirAlias e)
           | Inr want \<Rightarrow> if want \<noteq> mf_Alias m then Inl ErrInventoryAliasMismatch else Inr ()))"

definition PublishInventory ::
  "host_crypto \<Rightarrow> faults \<Rightarrow> instant \<Rightarrow> string \<Rightarrow> Token \<Rightarrow> Manifest \<Rightarrow> string \<Rightarrow> host_db
    \<Rightarrow> host_db \<times> (dir_error + InventorySnapshot)" where
  "PublishInventory C flt now b presented m bridgeName db =
     (case Authenticate (dir_verifier C flt) (hd_creds db) b presented of
        Some e \<Rightarrow> (record_event flt EventAuthFailure now '''' '''' b db, Inl (DirAuth e))
      | None \<Rightarrow>
        (case publish_checks C flt b m db of
           Inl e \<Rightarrow> (db, Inl e)
         | Inr _ \<Rightarrow>
           (case Replace flt b (mf_Swarm m) m now db of
              Inl e \<Rightarrow> (db, Inl (DirStore e))
            | Inr db1 \<Rightarrow>
              (case applyBridgePublishedDisplayName flt (mf_Swarm m) b bridgeName
                   (record_event flt EventInventorySnapshot now (mf_Swarm m) '''' b db1) of
                 (db2, Inl e) \<Rightarrow> (db2, Inl e)
               | (db2, Inr _) \<Rightarrow>
                 (case SnapshotFor flt b (mf_Swarm m) db2 of
                    Inl e \<Rightarrow> (db2, Inl (DirStore e))
                  | Inr None \<Rightarrow> (db2, Inl DirSnapshotMissing)
                  | Inr (Some snap) \<Rightarrow> (db2, Inr snap))))))"

definition SetBridgePublishedDisplayName ::
  "host_crypto \<Rightarrow> faults \<Rightarrow> instant \<Rightarrow> string \<Rightarrow> Token \<Rightarrow> string \<Rightarrow> string \<Rightarrow> host_db \<Rightarrow> host_db \<times> (dir_error + unit)" where
  "SetBridgePublishedDisplayName C flt now b presented s name db =
     (case Authenticate (dir_verifier C flt) (hd_creds db) b presented of
        Some e \<Rightarrow> (record_event flt EventAuthFailure now '''' '''' b db, Inl (DirAuth e))
      | None \<Rightarrow>
        (case requireActiveMembership flt b s db of
           Inl e \<Rightarrow> (db, Inl e)
         | Inr _ \<Rightarrow> applyBridgePublishedDisplayName flt s b name db))"

definition SwarmInventorySummary ::
  "((string \<times> string) \<times> snapshot_row) sorter \<Rightarrow> faults \<Rightarrow> string \<Rightarrow> host_db
    \<Rightarrow> store_error + SwarmInventoryTotals \<times> InventorySnapshot list" where
  "SwarmInventorySummary ord flt s db =
     res_bind (SwarmTotals flt s db) (\<lambda>totals.
     res_bind (PerBridgeSnapshots ord flt s db) (\<lambda>snaps. Inr (totals, snaps)))"

section \<open>Reference catalogues\<close>

record ReferenceCatalogue =
  rcat_Platform :: PlatformID
  rcat_Filename :: string
  rcat_ContentSHA256 :: string
  rcat_EntryCount :: int
  rcat_UploadedAt :: instant
  rcat_Content :: bytes

definition isSupportedPlatform :: "PlatformID \<Rightarrow> bool" where
  "isSupportedPlatform p = (p \<in> set InitialPlatforms)"

definition upsert_catalogue :: "string \<Rightarrow> PlatformID \<Rightarrow> catalogue_row \<Rightarrow> host_db \<Rightarrow> sql_error + host_db" where
  "upsert_catalogue s p r db =
     (if \<not> int4 (hrc_entry_count r) then Inl SqlOutOfRange
      else if \<not> has_swarm db s \<or> \<not> has_account db (hrc_uploaded_by r) then Inl SqlForeignKey
      else Inr (db\<lparr>hd_catalogues := al_put (s, p) r (hd_catalogues db)\<rparr>))"

definition UploadReferenceCatalogue ::
  "hashes \<Rightarrow> (bytes \<Rightarrow> datFile option) \<Rightarrow> faults \<Rightarrow> instant \<Rightarrow> string \<Rightarrow> string \<Rightarrow> PlatformID \<Rightarrow> string \<Rightarrow> bytes
    \<Rightarrow> host_db \<Rightarrow> host_db \<times> (dir_error + unit)" where
  "UploadReferenceCatalogue H decode flt now account s platform filename content db =
     settle db (
     res_bind (GetSwarm flt account s db) (\<lambda>_.
     if \<not> isSupportedPlatform platform then Inl ErrUnsupportedPlatform else
     res_bind (map_sum DirNotACatalogue id (ImportDAT H decode (content, None) \<lparr>io_Family = '''', io_Platform = platform\<rparr>)) (\<lambda>set.
     res_bind (run flt StUpsertCatalogue (upsert_catalogue s platform
         \<lparr>hrc_filename = filename, hrc_content = content, hrc_sha256 = d_SHA256 (cs_ImportDigest set),
          hrc_entry_count = int (length (cs_Entries set)), hrc_uploaded_by = account,
          hrc_uploaded_at = host_time db now\<rparr> db)) (\<lambda>db.
     Inr (record_event flt EventReferenceImported now s account '''' db, ())))))"

definition swarm_catalogues ::
  "((string \<times> PlatformID) \<times> catalogue_row) sorter \<Rightarrow> (PlatformID \<Rightarrow> PlatformID \<Rightarrow> bool) \<Rightarrow> string \<Rightarrow> host_db
    \<Rightarrow> ReferenceCatalogue list" where
  "swarm_catalogues ord before s db =
     map (\<lambda>((s', p), r). \<lparr>rcat_Platform = p, rcat_Filename = hrc_filename r, rcat_ContentSHA256 = hrc_sha256 r,
         rcat_EntryCount = hrc_entry_count r, rcat_UploadedAt = hrc_uploaded_at r, rcat_Content = hrc_content r\<rparr>)
       (ord (\<lambda>a b. before (snd (fst a)) (snd (fst b))) (filter (\<lambda>((s', p), r). s' = s) (hd_catalogues db)))"

definition ListReferenceCatalogues ::
  "((string \<times> PlatformID) \<times> catalogue_row) sorter \<Rightarrow> (PlatformID \<Rightarrow> PlatformID \<Rightarrow> bool) \<Rightarrow> faults \<Rightarrow> string \<Rightarrow> string
    \<Rightarrow> host_db \<Rightarrow> dir_error + ReferenceCatalogue list" where
  "ListReferenceCatalogues ord before flt account s db =
     res_bind (GetSwarm flt account s db) (\<lambda>_.
     run flt StListCatalogues (Inr (map (\<lambda>c. c\<lparr>rcat_Content := []\<rparr>) (swarm_catalogues ord before s db))))"

definition DeleteReferenceCatalogue :: "faults \<Rightarrow> string \<Rightarrow> string \<Rightarrow> PlatformID \<Rightarrow> host_db \<Rightarrow> host_db \<times> (dir_error + unit)" where
  "DeleteReferenceCatalogue flt account s p db =
     settle db (
     res_bind (GetSwarm flt account s db) (\<lambda>_.
     res_bind (run flt StDeleteCatalogue (Inr (db\<lparr>hd_catalogues := tab_delete (\<lambda>k. k = (s, p)) (hd_catalogues db)\<rparr>)))
       (\<lambda>db'. Inr (db', ()))))"

definition GetReferenceCatalogues ::
  "((string \<times> PlatformID) \<times> catalogue_row) sorter \<Rightarrow> (PlatformID \<Rightarrow> PlatformID \<Rightarrow> bool) \<Rightarrow> host_crypto \<Rightarrow> faults
    \<Rightarrow> instant \<Rightarrow> string \<Rightarrow> Token \<Rightarrow> string \<Rightarrow> host_db \<Rightarrow> host_db \<times> (dir_error + ReferenceCatalogue list)" where
  "GetReferenceCatalogues ord before C flt now b presented s db =
     (case Authenticate (dir_verifier C flt) (hd_creds db) b presented of
        Some e \<Rightarrow> (record_event flt EventAuthFailure now '''' '''' b db, Inl (DirAuth e))
      | None \<Rightarrow>
        (case requireActiveMembership flt b s db of
           Inl e \<Rightarrow> (db, Inl e)
         | Inr _ \<Rightarrow> (db, run flt StFetchCatalogues (Inr (swarm_catalogues ord before s db)))))"

end
