(* ===== verification/HostState.thy ===== *)
theory HostState
  imports Directory
begin

text \<open>
  What the Host's database satisfies after any sequence of calls of \<open>src/host/directory/\<close>: the
  operations as a datatype with their arguments, and the invariant \<open>schema_ok\<close>, which is what
  \<open>schema.sql\<close> declares: keys, unique columns and foreign keys.
\<close>

section \<open>Sequences of calls\<close>

datatype (plugins only: code size) host_op =
    OpBootstrapOwner instant string bytes string string string string
  | OpLogIn instant string string string
  | OpLogout string
  | OpCreateSwarm instant string bytes string string
  | OpDeleteSwarm instant string string
  | OpIssueInvitation instant string string string string int int
  | OpDeleteInvitation instant string string
  | OpRedeemInvitation instant string string bytes
  | OpRotateCredential instant Token string Token
  | OpRevokeBridge instant string string
  | OpReenrollBridge instant Token string
  | OpRemoveBridge instant string string
  | OpSetDisplayName string string string
  | OpPublishInventory instant string Token Manifest string
  | OpPublishName instant string Token string string
  | OpUploadCatalogue instant string string PlatformID string bytes
  | OpDeleteCatalogue string string PlatformID
  | OpGetCatalogues instant string Token string

record host_params =
  hp_crypto :: host_crypto
  hp_hashes :: hashes
  hp_xml :: "bytes \<Rightarrow> datFile option"

fun host_exec :: "host_params \<Rightarrow> host_db \<Rightarrow> faults \<times> host_op \<Rightarrow> host_db" where
  "host_exec P db (flt, OpBootstrapOwner now i salt u d e p) = fst (BootstrapOwner (hp_crypto P) flt now i salt u d e p db)"
| "host_exec P db (flt, OpLogIn now token u p) = fst (LogIn (hp_crypto P) flt now token u p db)"
| "host_exec P db (flt, OpLogout token) = fst (Logout (hp_crypto P) flt token db)"
| "host_exec P db (flt, OpCreateSwarm now s key owner name) = fst (CreateSwarm flt now s key owner name db)"
| "host_exec P db (flt, OpDeleteSwarm now a s) = fst (DeleteSwarm flt now a s db)"
| "host_exec P db (flt, OpIssueInvitation now i code s issuer uses ttl) = fst (IssueInvitation (hp_crypto P) flt now i code s issuer uses ttl db)"
| "host_exec P db (flt, OpDeleteInvitation now s i) = fst (DeleteInvitation flt now s i db)"
| "host_exec P db (flt, OpRedeemInvitation now token code pk) = fst (RedeemInvitation (hp_crypto P) flt now token code pk db)"
| "host_exec P db (flt, OpRotateCredential now nxt b t) = fst (RotateBridgeCredential (hp_crypto P) flt now nxt b t db)"
| "host_exec P db (flt, OpRevokeBridge now b why) = fst (RevokeBridge (hp_crypto P) flt now b why db)"
| "host_exec P db (flt, OpReenrollBridge now t b) = fst (ReenrollBridge (hp_crypto P) flt now t b db)"
| "host_exec P db (flt, OpRemoveBridge now s b) = fst (RemoveBridgeFromSwarm flt now s b db)"
| "host_exec P db (flt, OpSetDisplayName s b n) = fst (SetBridgeDisplayName flt s b n db)"
| "host_exec P db (flt, OpPublishInventory now b t m n) = fst (PublishInventory (hp_crypto P) flt now b t m n db)"
| "host_exec P db (flt, OpPublishName now b t s n) = fst (SetBridgePublishedDisplayName (hp_crypto P) flt now b t s n db)"
| "host_exec P db (flt, OpUploadCatalogue now a s p f c) = fst (UploadReferenceCatalogue (hp_hashes P) (hp_xml P) flt now a s p f c db)"
| "host_exec P db (flt, OpDeleteCatalogue a s p) = fst (DeleteReferenceCatalogue flt a s p db)"
| "host_exec P db (flt, OpGetCatalogues now b t s) = fst (GetReferenceCatalogues (\<lambda>_ x. x) (\<lambda>_ _. False) (hp_crypto P) flt now b t s db)"

section \<open>Effects\<close>

lemma record_event_sel [simp]:
  "hd_accounts (record_event flt k at s u b db) = hd_accounts db"
  "hd_sessions (record_event flt k at s u b db) = hd_sessions db"
  "hd_swarms (record_event flt k at s u b db) = hd_swarms db"
  "hd_members (record_event flt k at s u b db) = hd_members db"
  "hd_invitations (record_event flt k at s u b db) = hd_invitations db"
  "hd_enrolled (record_event flt k at s u b db) = hd_enrolled db"
  "hd_snapshots (record_event flt k at s u b db) = hd_snapshots db"
  "hd_items (record_event flt k at s u b db) = hd_items db"
  "hd_catalogues (record_event flt k at s u b db) = hd_catalogues db"
  "hd_creds (record_event flt k at s u b db) = hd_creds db"
  by (auto simp add: record_event_def event_Record_def split: option.split sum.split)

lemma settle_Inr: "settle db r = (db', Inr x) \<longleftrightarrow> r = Inr (db', x)"
  by (auto simp add: settle_def split: sum.split)

lemma settle_keeps: "P db \<Longrightarrow> (\<And>d x. r = Inr (d, x) \<Longrightarrow> P d) \<Longrightarrow> P (fst (settle db r))"
  by (auto simp add: settle_def split: sum.split)

text \<open>The operations of one transaction, on success; on an error the database is the one before.\<close>

lemmas op_effects = settle_Inr res_bind_Inr_iff run_Inr

definition no_faults :: faults where "no_faults = (\<lambda>_. False)"

lemma no_faults_simps [simp]: "\<not> no_faults st" "no_faults(StLoadFamily := False) = no_faults"
  by (simp_all add: no_faults_def fun_eq_iff)

text \<open>The calls of the verifier change the credential tables and the events.\<close>

lemma credentials_keep:
  assumes "\<And>f k at s u b d. P d \<Longrightarrow> P (record_event f k at s u b d)"
  shows "P (db\<lparr>hd_creds := fst (Rotate (dir_verifier C flt) now nxt (hd_creds db) b t)\<rparr>) \<Longrightarrow>
      P (fst (RotateBridgeCredential C flt now nxt b t db))"
    and "P (db\<lparr>hd_creds := fst (Revoke (dir_verifier C flt) (hd_creds db) b why)\<rparr>) \<Longrightarrow>
      P (fst (RevokeBridge C flt now b why db))"
    and "P (db\<lparr>hd_creds := fst (ReEnroll (dir_verifier C flt) tok (hd_creds db) b)\<rparr>) \<Longrightarrow>
      P (fst (ReenrollBridge C flt now tok b db))"
proof -
  show "P (db\<lparr>hd_creds := fst (Rotate (dir_verifier C flt) now nxt (hd_creds db) b t)\<rparr>) \<Longrightarrow>
      P (fst (RotateBridgeCredential C flt now nxt b t db))"
    by (cases "Rotate (dir_verifier C flt) now nxt (hd_creds db) b t")
      (simp add: RotateBridgeCredential_def Let_def assms split: sum.split auth_error.split)
  show "P (db\<lparr>hd_creds := fst (Revoke (dir_verifier C flt) (hd_creds db) b why)\<rparr>) \<Longrightarrow>
      P (fst (RevokeBridge C flt now b why db))"
    by (cases "Revoke (dir_verifier C flt) (hd_creds db) b why")
      (simp add: RevokeBridge_def Let_def assms split: option.split)
  show "P (db\<lparr>hd_creds := fst (ReEnroll (dir_verifier C flt) tok (hd_creds db) b)\<rparr>) \<Longrightarrow>
      P (fst (ReenrollBridge C flt now tok b db))"
    by (cases "ReEnroll (dir_verifier C flt) tok (hd_creds db) b")
      (simp add: ReenrollBridge_def Let_def assms split: sum.split)
qed

section \<open>The schema\<close>

definition keys_ok :: "host_db \<Rightarrow> bool" where
  "keys_ok db = (keys_distinct (hd_accounts db) \<and> keys_distinct (hd_sessions db) \<and> keys_distinct (hd_swarms db) \<and>
     keys_distinct (hd_members db) \<and> keys_distinct (hd_invitations db) \<and> keys_distinct (hd_enrolled db) \<and>
     keys_distinct (hd_snapshots db) \<and> keys_distinct (hd_items db) \<and> keys_distinct (hd_catalogues db) \<and>
     distinct (map (hac_username \<circ> snd) (hd_accounts db)) \<and>
     distinct (map (hin_code_hash \<circ> snd) (hd_invitations db)))"

text \<open>A column whose values must be keys of another table.\<close>

definition ids :: "('k, 'r) table \<Rightarrow> 'k set" where
  "ids t = fst ` set t"

definition refs_in :: "('x \<Rightarrow> 'a) \<Rightarrow> 'x list \<Rightarrow> 'a set \<Rightarrow> bool" where
  "refs_in f t A = (f ` set t \<subseteq> A)"

definition via_refs :: "((string \<times> string) \<times> bridge_member_row) list \<Rightarrow> string set \<Rightarrow> bool" where
  "via_refs t A = (\<forall>x \<in> set t. set_option (hbm_via (snd x)) \<subseteq> A)"

definition creds_ok :: "cred_db \<Rightarrow> bool" where
  "creds_ok c = (\<forall>b. db_bridges c b = None \<longrightarrow> db_families c b = None)"

definition refs_ok :: "host_db \<Rightarrow> bool" where
  "refs_ok db = (
     refs_in (hse_account \<circ> snd) (hd_sessions db) (ids (hd_accounts db)) \<and>
     refs_in (hsw_created_by \<circ> snd) (hd_swarms db) (ids (hd_accounts db)) \<and>
     refs_in (fst \<circ> fst) (hd_members db) (ids (hd_swarms db)) \<and>
     refs_in (snd \<circ> fst) (hd_members db) (ids (hd_accounts db)) \<and>
     refs_in (hin_swarm \<circ> snd) (hd_invitations db) (ids (hd_swarms db)) \<and>
     refs_in (hin_issued_by \<circ> snd) (hd_invitations db) (ids (hd_accounts db)) \<and>
     refs_in (fst \<circ> fst) (hd_enrolled db) (dom (db_bridges (hd_creds db))) \<and>
     refs_in (snd \<circ> fst) (hd_enrolled db) (ids (hd_swarms db)) \<and>
     via_refs (hd_enrolled db) (ids (hd_invitations db)) \<and>
     refs_in (fst \<circ> fst) (hd_snapshots db) (dom (db_bridges (hd_creds db))) \<and>
     refs_in (snd \<circ> fst) (hd_snapshots db) (ids (hd_swarms db)) \<and>
     refs_in (fst \<circ> fst) (hd_items db) (dom (db_bridges (hd_creds db))) \<and>
     refs_in (fst \<circ> snd \<circ> fst) (hd_items db) (ids (hd_swarms db)) \<and>
     refs_in (fst \<circ> fst) (hd_catalogues db) (ids (hd_swarms db)) \<and>
     refs_in (hrc_uploaded_by \<circ> snd) (hd_catalogues db) (ids (hd_accounts db)) \<and>
     creds_ok (hd_creds db))"

definition schema_ok :: "host_db \<Rightarrow> bool" where
  "schema_ok db = (keys_ok db \<and> refs_ok db)"

lemma ids_simps [simp]:
  "ids [] = {}" "ids (t @ [(k, r)]) = insert k (ids t)" "ids (tab_update p f t) = ids t"
  "ids (tab_delete q t) = {k \<in> ids t. \<not> q k}" "ids (al_put k r t) = insert k (ids t)"
proof -
  show "ids (tab_update p f t) = ids t"
    by (simp only: ids_def flip: set_map tab_update_keys [of p f t])
  show "ids (al_put k r t) = insert k (ids t)"
    by (simp add: ids_def al_put_keys)
qed (force simp add: ids_def tab_delete_def)+

lemma map_of_ids: "map_of t k = None \<longleftrightarrow> k \<notin> ids t"
  by (simp add: ids_def map_of_eq_None_iff)

lemma has_ids:
  "has_account db a \<longleftrightarrow> a \<in> ids (hd_accounts db)" "has_swarm db s \<longleftrightarrow> s \<in> ids (hd_swarms db)"
  "has_invitation db i \<longleftrightarrow> i \<in> ids (hd_invitations db)" "has_bridge db b \<longleftrightarrow> b \<in> dom (db_bridges (hd_creds db))"
  unfolding has_account_def has_swarm_def has_invitation_def has_bridge_def map_of_ids by auto

lemma refs_in_simps [simp]:
  "refs_in f [] A" "refs_in f (t @ u) A \<longleftrightarrow> refs_in f t A \<and> refs_in f u A"
  "refs_in f (x # t) A \<longleftrightarrow> f x \<in> A \<and> refs_in f t A"
  "refs_in f t A \<Longrightarrow> refs_in f t (insert a A)" "refs_in f t A \<Longrightarrow> refs_in f (filter p t) A"
  by (auto simp add: refs_in_def)

lemma refs_in_delete [simp]: "refs_in f t A \<Longrightarrow> refs_in f (tab_delete q t) A"
  by (simp add: tab_delete_def)

lemma refs_in_update [simp]:
  "(\<And>k r. g (k, f r) = g (k, r)) \<Longrightarrow> refs_in g (tab_update p f t) A = refs_in g t A"
  by (force simp add: refs_in_def tab_update_def image_iff split: if_splits)

lemma refs_in_put [simp]: "refs_in f t A \<Longrightarrow> f (k, r) \<in> A \<Longrightarrow> refs_in f (al_put k r t) A"
  by (induction k r t rule: al_put.induct) auto

lemma via_refs_simps [simp]:
  "via_refs [] A" "via_refs (t @ u) A \<longleftrightarrow> via_refs t A \<and> via_refs u A"
  "via_refs (x # t) A \<longleftrightarrow> set_option (hbm_via (snd x)) \<subseteq> A \<and> via_refs t A"
  "via_refs t A \<Longrightarrow> via_refs t (insert a A)" "via_refs t A \<Longrightarrow> via_refs (tab_delete q t) A"
  by (auto simp add: via_refs_def tab_delete_def)

lemma schema_record_event [simp]: "schema_ok (record_event flt k at s u b db) = schema_ok db"
  by (simp add: schema_ok_def keys_ok_def refs_ok_def)

lemmas schema_defs = schema_ok_def keys_ok_def refs_ok_def

lemma schema_insert_account: "schema_ok db \<Longrightarrow> insert_account i a db = Inr db' \<Longrightarrow> schema_ok db'"
  unfolding schema_defs insert_account_def
  by (clarsimp simp add: op_effects tab_insert_Inr keys_distinct_insert split: if_splits) auto

lemma schema_insert_session: "schema_ok db \<Longrightarrow> insert_session h r db = Inr db' \<Longrightarrow> schema_ok db'"
  unfolding schema_defs insert_session_def
  by (clarsimp simp add: op_effects tab_insert_Inr keys_distinct_insert has_ids split: if_splits)

lemma schema_insert_swarm: "schema_ok db \<Longrightarrow> insert_swarm s r db = Inr db' \<Longrightarrow> schema_ok db'"
  unfolding schema_defs insert_swarm_def
  by (clarsimp simp add: op_effects tab_insert_Inr keys_distinct_insert has_ids split: if_splits)

lemma schema_insert_member: "schema_ok db \<Longrightarrow> insert_member s a r db = Inr db' \<Longrightarrow> schema_ok db'"
  unfolding schema_defs insert_member_def
  by (clarsimp simp add: op_effects tab_insert_Inr keys_distinct_insert has_ids split: if_splits)

lemma schema_insert_invitation: "schema_ok db \<Longrightarrow> insert_invitation i r db = Inr db' \<Longrightarrow> schema_ok db'"
  unfolding schema_defs insert_invitation_def
  by (clarsimp simp add: op_effects tab_insert_Inr keys_distinct_insert has_ids split: if_splits) auto

lemma refs_in_mono: "refs_in f t A \<Longrightarrow> A \<subseteq> B \<Longrightarrow> refs_in f t B"
  by (auto simp add: refs_in_def)


text \<open>What a call of the verifier does to its two tables.\<close>

definition creds_step :: "cred_db \<Rightarrow> cred_db \<Rightarrow> bool" where
  "creds_step c c' = (db_bridges c' = db_bridges c \<and> db_time c' = db_time c \<and> (creds_ok c \<longrightarrow> creds_ok c'))"

lemma creds_step_refl [simp]: "creds_step c c"
  by (simp add: creds_step_def)

lemma creds_step_save: "bridge_cred_Save c f = Inr c' \<Longrightarrow> creds_step c c'"
  by (auto simp add: bridge_cred_Save_def creds_step_def creds_ok_def split: if_splits)

lemma creds_step_verifier:
  "creds_step c (fst (Rotate (dir_verifier C flt) now nxt c b t))"
  "creds_step c (fst (Revoke (dir_verifier C flt) c b why))"
  "creds_step c (fst (ReEnroll (dir_verifier C flt) tok c b))"
  "creds_step c (fst (Enroll (dir_verifier C flt) tok c b))"
  by (auto simp add: Rotate_def revoke_family_def Revoke_def ReEnroll_def Enroll_def Let_def
      intro: creds_step_save split: option.splits sum.splits if_splits prod.splits)

lemma schema_creds:
  assumes "schema_ok db" and "dom (db_bridges (hd_creds db)) \<subseteq> dom (db_bridges c)"
    and "creds_ok (hd_creds db) \<Longrightarrow> creds_ok c"
  shows "schema_ok (db\<lparr>hd_creds := c\<rparr>)"
  using assms(1,3) unfolding schema_defs by (simp add: refs_in_mono [OF _ assms(2)])

lemma schema_creds_step: "schema_ok db \<Longrightarrow> creds_step (hd_creds db) c \<Longrightarrow> schema_ok (db\<lparr>hd_creds := c\<rparr>)"
  by (rule schema_creds) (auto simp add: creds_step_def)

lemma EnsureBridge_creds:
  "EnsureBridge c b pk = Inr c' \<Longrightarrow> dom (db_bridges c) \<subseteq> dom (db_bridges c') \<and> b \<in> dom (db_bridges c') \<and>
    (creds_ok c \<longrightarrow> creds_ok c')"
  by (auto simp add: EnsureBridge_def creds_ok_def split: if_splits option.splits)

lemma schema_insert_enrolled: "schema_ok db \<Longrightarrow> insert_enrolled b s i at db = Inr db' \<Longrightarrow> schema_ok db'"
  unfolding schema_defs insert_enrolled_def
  by (clarsimp simp add: keys_distinct_insert has_ids split: if_splits)

lemma schema_delete_invitations:
  assumes "schema_ok db" and "delete_invitations p db = Inr db'"
  shows "schema_ok db'"
proof -
  have db': "db' = db\<lparr>hd_invitations := filter (\<lambda>(i, r). \<not> p i r) (hd_invitations db)\<rparr>"
    and free: "\<not> (\<exists>(i, r) \<in> set (hd_invitations db). p i r \<and> (\<exists>(k, m) \<in> set (hd_enrolled db). hbm_via m = Some i))"
    using assms(2) by (auto simp only: delete_invitations_def split: if_splits)
  have "via_refs (hd_enrolled db) (ids (hd_invitations db))"
    using assms(1) by (simp add: schema_defs)
  then have "via_refs (hd_enrolled db) (ids (filter (\<lambda>(i, r). \<not> p i r) (hd_invitations db)))"
    using free by (fastforce simp add: via_refs_def ids_def)
  moreover have "keys_distinct (filter (\<lambda>(i, r). \<not> p i r) (hd_invitations db))"
    "distinct (map (hin_code_hash \<circ> snd) (filter (\<lambda>(i, r). \<not> p i r) (hd_invitations db)))"
    using assms(1) by (auto simp add: schema_defs keys_distinct_def intro: distinct_map_filter)
  ultimately show ?thesis
    using assms(1) unfolding schema_defs db' by simp
qed

lemma schema_delete_swarm_row:
  assumes "schema_ok db" and "delete_swarm_row s db = Inr db'"
  shows "schema_ok db'"
proof (cases "s \<in> ids (hd_swarms db)")
  case True
  then have db': "db' = db\<lparr>hd_swarms := tab_delete (\<lambda>k. k = s) (hd_swarms db)\<rparr>"
    and free: "\<not> swarm_referenced db s"
    using assms(2) by (auto simp add: delete_swarm_row_def has_ids split: if_splits)
  have "refs_in (fst \<circ> fst) (hd_members db) {k \<in> ids (hd_swarms db). k \<noteq> s}"
    "refs_in (hin_swarm \<circ> snd) (hd_invitations db) {k \<in> ids (hd_swarms db). k \<noteq> s}"
    "refs_in (snd \<circ> fst) (hd_enrolled db) {k \<in> ids (hd_swarms db). k \<noteq> s}"
    "refs_in (snd \<circ> fst) (hd_snapshots db) {k \<in> ids (hd_swarms db). k \<noteq> s}"
    "refs_in (fst \<circ> snd \<circ> fst) (hd_items db) {k \<in> ids (hd_swarms db). k \<noteq> s}"
    "refs_in (fst \<circ> fst) (hd_catalogues db) {k \<in> ids (hd_swarms db). k \<noteq> s}"
    using assms(1) free by (auto simp add: schema_defs refs_in_def swarm_referenced_def)
  then show ?thesis
    using assms(1) unfolding schema_defs db' by (simp add: keys_distinct_delete)
next
  case False
  then have "tab_delete (\<lambda>k. k = s) (hd_swarms db) = hd_swarms db"
    by (force simp add: tab_delete_def ids_def filter_id_conv)
  then show ?thesis
    using assms False by (simp add: delete_swarm_row_def has_ids)
qed

lemma schema_upsert_catalogue: "schema_ok db \<Longrightarrow> upsert_catalogue s p r db = Inr db' \<Longrightarrow> schema_ok db'"
  unfolding schema_defs upsert_catalogue_def
  by (clarsimp simp add: keys_distinct_put has_ids split: if_splits)

lemma schema_Replace: "schema_ok db \<Longrightarrow> Replace flt b s m at db = Inr db' \<Longrightarrow> schema_ok db'"
proof -
  assume db: "schema_ok db" and rep: "Replace flt b s m at db = Inr db'"
  then have ok: "b \<in> dom (db_bridges (hd_creds db))" "s \<in> ids (hd_swarms db)" "distinct (map it_FileID (mf_Items m))"
    "db' = replaced b s m at db"
    by (auto simp add: Replace_Inr has_ids)
  have "keys_distinct (hd_items db)"
    using db by (simp add: schema_defs)
  note keys = replaced_keys [OF this ok(3), of b s at]
  have "refs_in (fst \<circ> fst) (map (item_entry b s) its) (dom (db_bridges (hd_creds db)))"
    "refs_in (fst \<circ> snd \<circ> fst) (map (item_entry b s) its) (ids (hd_swarms db))" for its
    using ok by (auto simp add: refs_in_def item_entry_def)
  then show ?thesis
    using db ok keys unfolding schema_defs by (simp add: replaced_def keys_distinct_put)
qed

lemma schema_deletes:
  assumes "schema_ok db"
  shows "schema_ok (db\<lparr>hd_sessions := tab_delete p (hd_sessions db)\<rparr>)"
    and "schema_ok (db\<lparr>hd_items := tab_delete q (hd_items db)\<rparr>)"
    and "schema_ok (db\<lparr>hd_snapshots := tab_delete r (hd_snapshots db)\<rparr>)"
    and "schema_ok (db\<lparr>hd_enrolled := tab_delete u (hd_enrolled db)\<rparr>)"
    and "schema_ok (db\<lparr>hd_members := tab_delete v (hd_members db)\<rparr>)"
    and "schema_ok (db\<lparr>hd_catalogues := tab_delete w (hd_catalogues db)\<rparr>)"
    and "schema_ok (db\<lparr>hd_items := tab_delete q (hd_items db), hd_snapshots := tab_delete r (hd_snapshots db),
      hd_enrolled := tab_delete u (hd_enrolled db)\<rparr>)"
  using assms unfolding schema_defs by (simp_all add: keys_distinct_delete)

lemma via_refs_update:
  "via_refs t A \<Longrightarrow> (\<And>m. set_option (hbm_via (f m)) \<subseteq> set_option (hbm_via m)) \<Longrightarrow> via_refs (tab_update p f t) A"
  by (fastforce simp add: via_refs_def tab_update_def split: if_splits)

lemma schema_update_enrolled:
  assumes "schema_ok db" and "\<And>m. set_option (hbm_via (f m)) \<subseteq> set_option (hbm_via m)"
  shows "schema_ok (db\<lparr>hd_enrolled := tab_update p f (hd_enrolled db)\<rparr>)"
  using assms(1) unfolding schema_defs by (simp add: via_refs_update assms(2))

lemma schema_update_uses:
  assumes "schema_ok db"
  shows "schema_ok (db\<lparr>hd_invitations := tab_update p (\<lambda>q. q\<lparr>hin_use_count := hin_use_count q + 1\<rparr>) (hd_invitations db)\<rparr>)"
proof -
  have "map (hin_code_hash \<circ> snd) (tab_update p (\<lambda>q. q\<lparr>hin_use_count := hin_use_count q + 1\<rparr>) t) =
      map (hin_code_hash \<circ> snd) t" for t
    by (induction t) (auto simp add: tab_update_def)
  then show ?thesis
    using assms unfolding schema_defs by simp
qed

lemmas schema_statements = schema_insert_account [rotated] schema_insert_session [rotated]
  schema_insert_swarm [rotated] schema_insert_member [rotated] schema_insert_invitation [rotated]
  schema_delete_invitations [rotated] schema_delete_swarm_row [rotated] schema_insert_enrolled [rotated]
  schema_upsert_catalogue [rotated] schema_Replace [rotated]

lemma schema_insert_owner: "schema_ok db \<Longrightarrow> schema_ok (fst (insert_owner C flt now i salt u d e p db))"
  unfolding insert_owner_def
  by (cases "host_hashPassword (hc_argon_version C) (hc_argon C) salt p", simp, simp only: option.case,
      rule settle_keeps [where P = schema_ok], assumption) (auto simp add: op_effects dest: schema_statements split: option.split)

lemma schema_BootstrapOwner: "schema_ok db \<Longrightarrow> schema_ok (fst (BootstrapOwner C flt now i salt u d e p db))"
  unfolding BootstrapOwner_def by (auto simp add: schema_insert_owner split: sum.split bool.split)

lemma schema_LogIn: "schema_ok db \<Longrightarrow> schema_ok (fst (LogIn C flt now token u p db))"
  unfolding LogIn_def
  by (auto split: option.split sum.split bool.split)
    (rule settle_keeps [where P = schema_ok], assumption, auto simp add: op_effects dest: schema_statements)

lemma schema_Logout: "schema_ok db \<Longrightarrow> schema_ok (fst (Logout C flt token db))"
  unfolding Logout_def
  by (rule settle_keeps [where P = schema_ok], assumption) (auto simp add: op_effects schema_deletes)

lemma schema_CreateSwarm: "schema_ok db \<Longrightarrow> schema_ok (fst (CreateSwarm flt now s key owner name db))"
  unfolding CreateSwarm_def
  by (rule settle_keeps [where P = schema_ok], assumption) (auto simp add: op_effects dest: schema_statements)

lemma schema_DeleteSwarm: "schema_ok db \<Longrightarrow> schema_ok (fst (DeleteSwarm flt now a s db))"
  unfolding DeleteSwarm_def
  by (rule settle_keeps [where P = schema_ok], assumption)
    (clarsimp simp add: op_effects, erule schema_delete_swarm_row [rotated], rule schema_deletes,
      erule schema_delete_invitations [rotated], simp only: schema_deletes)

lemma schema_IssueInvitation: "schema_ok db \<Longrightarrow> schema_ok (fst (IssueInvitation C flt now i code s by' n ttl db))"
  unfolding IssueInvitation_def Let_def
  by (rule settle_keeps [where P = schema_ok], assumption) (auto simp add: op_effects dest: schema_statements)

lemma schema_DeleteInvitation: "schema_ok db \<Longrightarrow> schema_ok (fst (DeleteInvitation flt now s i db))"
  unfolding DeleteInvitation_def
  by (rule settle_keeps [where P = schema_ok], assumption)
    (clarsimp simp add: op_effects split: if_splits, erule schema_delete_invitations [rotated],
      rule schema_update_enrolled, assumption, simp)

lemma schema_redeem_claim: "schema_ok db \<Longrightarrow> schema_ok (fst (redeem_claim C flt now code db))"
  unfolding redeem_claim_def Let_def by (auto simp add: schema_update_uses split: sum.split option.split)

lemma schema_redeem_enrol:
  assumes "schema_ok db"
  shows "schema_ok (fst (redeem_enrol C flt now token pk claim db))"
proof -
  obtain i s key where claim: "claim = (i, s, key)"
    by (cases claim)
  let ?b = "BridgeIDFromPublicKey (hc_sha C) pk"
  have ensure: "schema_ok (db\<lparr>hd_creds := c\<rparr>)" if "EnsureBridge (hd_creds db) ?b pk = Inr c" for c
    using assms EnsureBridge_creds [OF that] by (auto intro: schema_creds)
  have enrol: "schema_ok (d\<lparr>hd_creds := c\<rparr>)"
    if "schema_ok d" "Enroll (dir_verifier C flt) token (hd_creds d) ?b = (c, r)" for d c r
    using schema_creds_step [OF that(1) creds_step_verifier(4)] that(2) by (metis fst_conv)
  show ?thesis
    unfolding redeem_enrol_def claim Let_def
    by (auto simp add: assms op_effects split: sum.split prod.split if_split
        intro: ensure enrol dest: schema_statements)
qed

lemma schema_RedeemInvitation: "schema_ok db \<Longrightarrow> schema_ok (fst (RedeemInvitation C flt now token code pk db))"
  using schema_redeem_claim [of db C flt now code]
  unfolding RedeemInvitation_def by (auto simp add: schema_redeem_enrol split: sum.split prod.split)

lemma schema_credentials:
  assumes "schema_ok db"
  shows "schema_ok (fst (RotateBridgeCredential C flt now nxt b t db))"
    and "schema_ok (fst (RevokeBridge C flt now b why db))"
    and "schema_ok (fst (ReenrollBridge C flt now tok b db))"
  by (rule credentials_keep [where P = schema_ok]; simp add: schema_creds_step [OF assms] creds_step_verifier)+

lemma schema_RemoveBridge: "schema_ok db \<Longrightarrow> schema_ok (fst (RemoveBridgeFromSwarm flt now s b db))"
  unfolding RemoveBridgeFromSwarm_def clear_items_def
  by (rule settle_keeps [where P = schema_ok], assumption)
    (clarsimp simp add: op_effects split: if_splits, simp only: schema_deletes)

lemma schema_SetBridgeDisplayName: "schema_ok db \<Longrightarrow> schema_ok (fst (SetBridgeDisplayName flt s b name db))"
  unfolding SetBridgeDisplayName_def
  by (rule settle_keeps [where P = schema_ok], assumption)
    (clarsimp simp add: op_effects split: if_splits, rule schema_update_enrolled, assumption, simp)

lemma schema_applyName: "schema_ok db \<Longrightarrow> schema_ok (fst (applyBridgePublishedDisplayName flt s b name db))"
  unfolding applyBridgePublishedDisplayName_def
  by (cases "name = ''''", simp, simp only: if_False, rule settle_keeps [where P = schema_ok], assumption)
    (clarsimp simp add: op_effects, rule schema_update_enrolled, assumption, simp)

lemma schema_PublishInventory: "schema_ok db \<Longrightarrow> schema_ok (fst (PublishInventory C flt now b t m name db))"
proof -
  assume db: "schema_ok db"
  have named: "schema_ok (fst (applyBridgePublishedDisplayName flt (mf_Swarm m) b name
      (record_event flt EventInventorySnapshot now (mf_Swarm m) '''' b d)))"
    if "Replace flt b (mf_Swarm m) m now db = Inr d" for d
    by (rule schema_applyName) (simp add: schema_Replace [OF db that])
  show ?thesis
    unfolding PublishInventory_def
    using db named by (auto split: option.split sum.split prod.split)
qed

lemma schema_SetBridgePublishedDisplayName:
  "schema_ok db \<Longrightarrow> schema_ok (fst (SetBridgePublishedDisplayName C flt now b t s name db))"
  unfolding SetBridgePublishedDisplayName_def by (auto simp add: schema_applyName split: option.split sum.split)

lemma schema_UploadReferenceCatalogue:
  "schema_ok db \<Longrightarrow> schema_ok (fst (UploadReferenceCatalogue H decode flt now a s p f c db))"
  unfolding UploadReferenceCatalogue_def
  by (rule settle_keeps [where P = schema_ok], assumption)
    (auto simp add: op_effects split: if_splits dest: schema_statements)

lemma schema_DeleteReferenceCatalogue: "schema_ok db \<Longrightarrow> schema_ok (fst (DeleteReferenceCatalogue flt a s p db))"
  unfolding DeleteReferenceCatalogue_def
  by (rule settle_keeps [where P = schema_ok], assumption) (auto simp add: op_effects schema_deletes)

lemma schema_GetReferenceCatalogues:
  "schema_ok db \<Longrightarrow> schema_ok (fst (GetReferenceCatalogues ord bf C flt now b t s db))"
  unfolding GetReferenceCatalogues_def by (auto split: option.split sum.split)

lemma schema_exec: "schema_ok db \<Longrightarrow> schema_ok (host_exec P db x)"
  by (cases "(P, db, x)" rule: host_exec.cases)
    (simp_all add: schema_BootstrapOwner schema_LogIn schema_Logout schema_CreateSwarm schema_DeleteSwarm
      schema_IssueInvitation schema_DeleteInvitation schema_RedeemInvitation schema_credentials
      schema_RemoveBridge schema_SetBridgeDisplayName schema_PublishInventory
      schema_SetBridgePublishedDisplayName schema_UploadReferenceCatalogue
      schema_DeleteReferenceCatalogue schema_GetReferenceCatalogues)

lemma schema_empty: "schema_ok (empty_host tm)"
  by (simp add: schema_defs empty_host_def creds_ok_def)

end
