(* ===== verification/HostSample.thy ===== *)
theory HostSample
  imports HostState
begin

text \<open>
  A small Host for the witnesses of the theories over \<open>HostState\<close>: concrete cryptography, a
  database in which an owner has created a Swarm and issued an invitation of one use, and the one
  after a Bridge has redeemed it.  Events are refused throughout, which no operation notices.
\<close>

definition sample_crypto :: host_crypto where
  "sample_crypto = \<lparr>hc_sha = (\<lambda>bs. take 32 (rev bs @ replicate 32 0)),
     hc_hmac = (\<lambda>k m. take 32 (rev m @ replicate 32 0)), hc_argon_version = 19,
     hc_argon = (\<lambda>w s t m h n. Some (replicate n (of_nat (length w))))\<rparr>"

definition sample_hashes :: hashes where
  "sample_hashes = \<lparr>hash_crc = (\<lambda>_. []), hash_md5 = (\<lambda>_. []), hash_sha1 = (\<lambda>_. []),
     hash_sha256 = (\<lambda>bs. take 32 (rev bs @ replicate 32 0))\<rparr>"

definition sample_host :: host_params where
  "sample_host = \<lparr>hp_crypto = sample_crypto, hp_hashes = sample_hashes, hp_xml = (\<lambda>_. None)\<rparr>"

definition quiet :: faults where "quiet = (\<lambda>st. st = StRecordEvent)"

lemma quiet_simps [simp]: "quiet st \<longleftrightarrow> st = StRecordEvent" "quiet(StLoadFamily := False) = quiet"
  by (auto simp add: quiet_def fun_eq_iff)

lemma record_event_quiet [simp]: "record_event quiet k at s u b db = db"
  by (simp add: record_event_def event_Record_def sql_run_def split: option.split)

definition owner_id :: string where "owner_id = ''usr_00000000000000000000000000''"
definition swarm_id :: string where "swarm_id = ''swm_00000000000000000000000000''"
definition invite_id :: string where "invite_id = ''inv_00000000000000000000000000''"
definition bridge_id :: string where "bridge_id = BridgeIDFromPublicKey (hc_sha sample_crypto) [1]"

definition owner_row :: account_row where
  "owner_row = \<lparr>hac_username = ''owner'', hac_display_name = ''Owner'', hac_email = None,
     hac_password_hash = the (host_hashPassword 19 (hc_argon sample_crypto) [] ''secret''), hac_is_owner = True,
     hac_created_at = 1, hac_disabled_at = None\<rparr>"

definition invite_row :: "int \<Rightarrow> invitation_row" where
  "invite_row used = \<lparr>hin_swarm = swarm_id, hin_code_hash = secret_hash sample_crypto ''code'', hin_issued_by = owner_id,
     hin_max_uses = 1, hin_use_count = used, hin_expires_at = 3 + defaultInvitationTTL, hin_created_at = 3,
     hin_revoked_at = None\<rparr>"

definition sample_db :: host_db where
  "sample_db = \<lparr>hd_accounts = [(owner_id, owner_row)], hd_sessions = [],
     hd_swarms = [(swarm_id, \<lparr>hsw_name = ''Swarm'', hsw_alias_key = replicate 32 7, hsw_created_by = owner_id, hsw_created_at = 2\<rparr>)],
     hd_members = [((swarm_id, owner_id), \<lparr>hsm_role = ''owner'', hsm_joined_at = 2\<rparr>)],
     hd_invitations = [(invite_id, invite_row 0)], hd_enrolled = [], hd_snapshots = [], hd_items = [],
     hd_catalogues = [], hd_events = [],
     hd_creds = \<lparr>db_bridges = Map.empty, db_families = Map.empty, db_time = (\<lambda>t. t), db_down = False\<rparr>\<rparr>"

definition sample_calls :: "(faults \<times> host_op) list" where
  "sample_calls = [
     (quiet, OpBootstrapOwner 1 owner_id [] ''owner'' ''Owner'' '''' ''secret''),
     (quiet, OpCreateSwarm 2 swarm_id (replicate 32 7) owner_id ''Swarm''),
     (quiet, OpIssueInvitation 3 invite_id ''code'' swarm_id owner_id 1 0)]"

lemma sample_calls_run: "foldl (host_exec sample_host) (empty_host (\<lambda>t. t)) sample_calls = sample_db"
proof -
  obtain h where hash: "host_hashPassword 19 (hc_argon sample_crypto) [] ''secret'' = Some h"
    by (simp add: host_hashPassword_def sample_crypto_def)
  have ver: "hc_argon_version sample_crypto = 19" "hp_crypto sample_host = sample_crypto"
    by (simp_all add: sample_crypto_def sample_host_def)
  let ?e = "empty_host (\<lambda>t. t)"
  let ?d1 = "?e\<lparr>hd_accounts := [(owner_id, owner_row)]\<rparr>"
  have "insert_account owner_id owner_row ?e = Inr ?d1"
    by (simp add: insert_account_def empty_host_def tab_insert_def)
  then have 1: "host_exec sample_host ?e (quiet, OpBootstrapOwner 1 owner_id [] ''owner'' ''Owner'' '''' ''secret'') = ?d1"
    by (simp add: hash ver BootstrapOwner_def OwnerExists_def insert_owner_def empty_host_def settle_def
        owner_row_def host_time_def run_def sql_run_def insert_account_def tab_insert_def)
  let ?sw = "\<lparr>hsw_name = ''Swarm'', hsw_alias_key = replicate 32 7, hsw_created_by = owner_id, hsw_created_at = 2\<rparr>"
  let ?d2 = "?d1\<lparr>hd_swarms := [(swarm_id, ?sw)], hd_members := [((swarm_id, owner_id), \<lparr>hsm_role = ''owner'', hsm_joined_at = 2\<rparr>)]\<rparr>"
  have 2: "host_exec sample_host ?d1 (quiet, OpCreateSwarm 2 swarm_id (replicate 32 7) owner_id ''Swarm'') = ?d2"
    by (simp add: CreateSwarm_def settle_def run_def sql_run_def insert_swarm_def insert_member_def has_account_def
        has_swarm_def tab_insert_def empty_host_def host_time_def)
  have 3: "host_exec sample_host ?d2 (quiet, OpIssueInvitation 3 invite_id ''code'' swarm_id owner_id 1 0) = sample_db"
    by (simp add: ver IssueInvitation_def settle_def run_def sql_run_def insert_invitation_def has_account_def
        has_swarm_def tab_insert_def empty_host_def host_time_def sample_db_def invite_row_def int4_def)
  show ?thesis
    by (simp only: sample_calls_def foldl_Cons foldl_Nil 1 2 3)
qed

text \<open>The invitation is taken, and the Bridge enrolled.\<close>

definition claimed_db :: host_db where
  "claimed_db = sample_db\<lparr>hd_invitations := [(invite_id, invite_row 1)]\<rparr>"

definition family_of :: "string \<Rightarrow> family_row" where
  "family_of token = \<lparr>row_current_hash = secret_hash sample_crypto token, row_previous_hash = '''',
     row_previous_issued_at = None, row_previous_consumed = False, row_generation = 1, row_revoked = False,
     row_revoked_reason = ''''\<rparr>"

definition enrolled_db :: host_db where
  "enrolled_db = claimed_db\<lparr>
     hd_enrolled := [((bridge_id, swarm_id), \<lparr>hbm_via = Some invite_id, hbm_state = ''enrolled'', hbm_joined_at = 4,
       hbm_disabled_at = None, hbm_revoked_at = None, hbm_revoked_reason = None, hbm_display_name = '''',
       hbm_set_by_host = False\<rparr>)],
     hd_creds := \<lparr>db_bridges = [bridge_id \<mapsto> [1]], db_families = [bridge_id \<mapsto> family_of ''token''],
       db_time = (\<lambda>t. t), db_down = False\<rparr>\<rparr>"

lemma claim_sample:
  "redeem_claim sample_crypto quiet 4 ''code'' sample_db = (claimed_db, Inr (invite_id, swarm_id, replicate 32 7))"
proof -
  have found: "redeemable sample_db (secret_hash sample_crypto ''code'') (host_time sample_db 4) (invite_row 0)"
    by (simp add: redeemable_def invite_row_def sample_db_def has_swarm_def host_time_def defaultInvitationTTL_def)
  have db: "hd_invitations sample_db = [(invite_id, invite_row 0)]"
    "map_of (hd_swarms sample_db) swarm_id = Some \<lparr>hsw_name = ''Swarm'', hsw_alias_key = replicate 32 7,
      hsw_created_by = owner_id, hsw_created_at = 2\<rparr>"
    by (simp_all add: sample_db_def)
  have used: "invite_row 0\<lparr>hin_use_count := hin_use_count (invite_row 0) + 1\<rparr> = invite_row 1"
    and sw: "hin_swarm (invite_row 0) = swarm_id"
    by (simp_all add: invite_row_def)
  show ?thesis
    unfolding redeem_claim_def Let_def db
    by (simp add: run_def sql_run_def found tab_update_def used sw db claimed_db_def)
qed

lemma bridge_id_valid: "validate prefixBridge bridge_id = None"
proof -
  have "length (derive (hc_sha sample_crypto) domainBridge [[1]]) = idBytes"
    by (simp add: derive_def sample_crypto_def idBytes_def)
  then show ?thesis
    by (simp add: bridge_id_def BridgeIDFromPublicKey_def validate_accepts)
qed

definition alias_of :: "string \<Rightarrow> string" where
  "alias_of b = id_encode prefixAlias (take idBytes (hc_hmac sample_crypto (replicate 32 7) (alias_message swarm_id b)))"

lemma alias_sample: "AliasFor (hc_hmac sample_crypto) (replicate 32 7) swarm_id b = Inr (alias_of b)"
  by (simp add: AliasFor_def AliasKeySize_def alias_of_def)

lemma enrol_sample:
  "redeem_enrol sample_crypto quiet 4 ''token'' [1] (invite_id, swarm_id, replicate 32 7) claimed_db =
    (enrolled_db, Inr (bridge_id, swarm_id, alias_of bridge_id, ''token''))"
proof -
  have b: "BridgeIDFromPublicKey (hc_sha sample_crypto) [1] = bridge_id"
    by (simp add: bridge_id_def)
  show ?thesis
    unfolding redeem_enrol_def prod.case Let_def b alias_sample
    by (simp add: EnsureBridge_def claimed_db_def sample_db_def run_def sql_run_def insert_enrolled_def has_bridge_def
        has_swarm_def has_invitation_def Enroll_def bridge_id_valid bridge_cred_Save_def enrolled_db_def family_of_def
        host_time_def token_Hash_def secret_hash_def)
qed

lemma redeem_sample:
  "RedeemInvitation sample_crypto quiet 4 ''token'' ''code'' [1] sample_db =
    (enrolled_db, Inr (bridge_id, swarm_id, alias_of bridge_id, ''token''))"
  by (simp add: RedeemInvitation_def claim_sample enrol_sample)

end
