(* ===== verification/Admission.thy ===== *)
theory Admission
  imports HostState HostSample
begin

text \<open>
  Who gets into a Swarm.  \<open>RedeemInvitation\<close> of \<open>src/host/directory/bridges.go\<close> is two steps, the
  atomic claim of a use and the enrolment under the Bridge's lock; \<open>host_step\<close> interleaves them with
  every other call.  Over all reachable states an invitation admits no more Bridges than it was
  issued for; an enrolment replaces whatever credential the Bridge had.
\<close>

section \<open>Interleavings\<close>

text \<open>The lock of a Bridge covers only the second half of a redemption, so between the two halves
  any other call may run: a state is the database with the claims whose redemption is under way.
  The identifiers the Host mints are random; one that is being redeemed is not minted again.\<close>

type_synonym claim = "string \<times> string \<times> bytes"

fun redeems :: "host_op \<Rightarrow> bool" where
  "redeems (OpRedeemInvitation now token code pk) = True"
| "redeems _ = False"

fun mints :: "host_op \<Rightarrow> string option" where
  "mints (OpIssueInvitation now i code s issuer n ttl) = Some i"
| "mints _ = None"

inductive host_step :: "host_params \<Rightarrow> host_db \<times> claim list \<Rightarrow> host_db \<times> claim list \<Rightarrow> bool" for P where
  call: "\<not> redeems oper \<Longrightarrow> (\<And>i. mints oper = Some i \<Longrightarrow> i \<notin> fst ` set cs) \<Longrightarrow>
    host_step P (db, cs) (host_exec P db (flt, oper), cs)"
| claim: "redeem_claim (hp_crypto P) flt now code db = (db', Inr c) \<Longrightarrow> host_step P (db, cs) (db', c # cs)"
| enrol: "c \<in> set cs \<Longrightarrow>
    host_step P (db, cs) (fst (redeem_enrol (hp_crypto P) flt now token pk c db), remove1 c cs)"

inductive_cases host_stepE: "host_step P (db, cs) st"

inductive host_reaches :: "host_params \<Rightarrow> host_db \<times> claim list \<Rightarrow> bool" for P where
  start: "host_reaches P (empty_host tm, [])"
| step: "host_reaches P st \<Longrightarrow> host_step P st st' \<Longrightarrow> host_reaches P st'"

text \<open>Every sequence of whole calls is one of these runs.\<close>

lemma host_reaches_call:
  assumes "host_reaches P (db, [])"
  shows "host_reaches P (host_exec P db (flt, oper), [])"
proof (cases "redeems oper")
  case True
  then obtain now token code pk where op: "oper = OpRedeemInvitation now token code pk"
    by (cases oper) auto
  show ?thesis
  proof (cases "redeem_claim (hp_crypto P) flt now code db")
    case (Pair d r)
    show ?thesis
    proof (cases r)
      case (Inl e)
      then have "d = db"
        using Pair by (auto simp add: redeem_claim_def Let_def split: sum.splits option.splits)
      then show ?thesis
        using assms Pair Inl by (simp add: op RedeemInvitation_def)
    next
      case (Inr c)
      have "host_reaches P (d, [c])"
        by (rule host_reaches.step [OF assms]) (rule host_step.claim [OF Pair [unfolded Inr]])
      then have "host_reaches P (fst (redeem_enrol (hp_crypto P) flt now token pk c d), remove1 c [c])"
        by (rule host_reaches.step) (rule host_step.enrol, simp)
      then show ?thesis
        by (simp add: op RedeemInvitation_def Pair Inr)
    qed
  qed
next
  case False
  show ?thesis
    by (rule host_reaches.step [OF assms]) (rule host_step.call, simp_all add: False)
qed

lemma schema_reached: "host_reaches P st \<Longrightarrow> schema_ok (fst st)"
proof (induction rule: host_reaches.induct)
  case (step st st')
  show ?case
    using step.hyps(2) step.IH
  proof cases
    case (claim flt now code db db' c cs)
    then show ?thesis
      using schema_redeem_claim [of db "hp_crypto P" flt now code] step.IH by simp
  qed (simp_all add: schema_exec schema_redeem_enrol)
qed (simp add: schema_empty)

section \<open>Invitations admit no more than they were issued for\<close>

definition via_count :: "(string \<times> string, bridge_member_row) table \<Rightarrow> string \<Rightarrow> nat" where
  "via_count E i = length (filter (\<lambda>x. hbm_via (snd x) = Some i) E)"

definition admits :: "claim list \<Rightarrow> (string, invitation_row) table \<Rightarrow> (string \<times> string, bridge_member_row) table \<Rightarrow> bool" where
  "admits cs I E = (\<forall>i r. (i, r) \<in> set I \<longrightarrow>
     int (via_count E i) + int (length (filter (\<lambda>c. fst c = i) cs)) \<le> hin_use_count r \<and>
     hin_use_count r \<le> hin_max_uses r)"

text \<open>A membership, and a claim under way, name an invitation of their own Swarm.\<close>

definition own_swarm :: "claim list \<Rightarrow> (string, invitation_row) table \<Rightarrow> (string \<times> string, bridge_member_row) table \<Rightarrow> bool" where
  "own_swarm cs I E = (
     (\<forall>k m i r. (k, m) \<in> set E \<longrightarrow> hbm_via m = Some i \<longrightarrow> (i, r) \<in> set I \<longrightarrow> hin_swarm r = snd k) \<and>
     (\<forall>i s key r. (i, s, key) \<in> set cs \<longrightarrow> (i, r) \<in> set I \<longrightarrow> hin_swarm r = s))"

definition adm :: "host_db \<Rightarrow> (string, invitation_row) table \<times> (string \<times> string, bridge_member_row) table" where
  "adm db = (hd_invitations db, hd_enrolled db)"

lemma adm_record_event [simp]: "adm (record_event flt k at s u b db) = adm db"
  by (simp add: adm_def)

lemma adm_frames:
  "insert_account i a db = Inr d1 \<Longrightarrow> adm d1 = adm db" "insert_session h r db = Inr d2 \<Longrightarrow> adm d2 = adm db"
  "insert_swarm s w db = Inr d3 \<Longrightarrow> adm d3 = adm db" "insert_member s ac m db = Inr d4 \<Longrightarrow> adm d4 = adm db"
  "upsert_catalogue s p c db = Inr d5 \<Longrightarrow> adm d5 = adm db" "Replace flt b s mf at db = Inr d6 \<Longrightarrow> adm d6 = adm db"
  by (auto simp add: insert_account_def insert_session_def insert_swarm_def insert_member_def upsert_catalogue_def
      Replace_Inr replaced_def adm_def op_effects split: if_splits)

lemma adm_settle:
  "(\<And>d x. r = Inr (d, x) \<Longrightarrow> adm d = adm db) \<Longrightarrow> adm (fst (settle db r)) = adm db"
  by (rule settle_keeps [where P = "\<lambda>d. adm d = adm db"]) simp_all

lemma adm_unchanged:
  "adm (fst (BootstrapOwner C flt now i salt u d e p db)) = adm db"
  "adm (fst (LogIn C flt now token u p db)) = adm db"
  "adm (fst (Logout C flt token db)) = adm db"
  "adm (fst (CreateSwarm flt now s key owner name db)) = adm db"
  "adm (fst (UploadReferenceCatalogue H decode flt now a s pf f c db)) = adm db"
  "adm (fst (DeleteReferenceCatalogue flt a s pf db)) = adm db"
  "adm (fst (GetReferenceCatalogues ord bf C flt now b t s db)) = adm db"
proof -
  have "adm (fst (insert_owner C flt now i salt u d e p db)) = adm db"
    unfolding insert_owner_def
    by (cases "host_hashPassword (hc_argon_version C) (hc_argon C) salt p", simp)
      (simp only: option.case, rule adm_settle, auto simp add: op_effects adm_frames)
  then show "adm (fst (BootstrapOwner C flt now i salt u d e p db)) = adm db"
    unfolding BootstrapOwner_def by (simp split: sum.split bool.split)
  show "adm (fst (LogIn C flt now token u p db)) = adm db"
    unfolding LogIn_def
    by (auto split: option.split sum.split bool.split) (rule adm_settle, auto simp add: op_effects adm_frames)
  show "adm (fst (Logout C flt token db)) = adm db"
    unfolding Logout_def by (rule adm_settle) (auto simp add: op_effects adm_def)
  show "adm (fst (CreateSwarm flt now s key owner name db)) = adm db"
    unfolding CreateSwarm_def by (rule adm_settle) (auto simp add: op_effects adm_frames)
  show "adm (fst (UploadReferenceCatalogue H decode flt now a s pf f c db)) = adm db"
    unfolding UploadReferenceCatalogue_def
    by (rule adm_settle) (auto simp add: op_effects adm_frames split: if_splits)
  show "adm (fst (DeleteReferenceCatalogue flt a s pf db)) = adm db"
    unfolding DeleteReferenceCatalogue_def by (rule adm_settle) (auto simp add: op_effects adm_def)
  show "adm (fst (GetReferenceCatalogues ord bf C flt now b t s db)) = adm db"
    unfolding GetReferenceCatalogues_def by (auto split: option.split sum.split)
qed

text \<open>The memberships after a call that admits nobody.\<close>

definition shrinks :: "(string \<times> string, bridge_member_row) table \<Rightarrow> (string \<times> string, bridge_member_row) table \<Rightarrow> bool" where
  "shrinks E' E = ((\<forall>i. via_count E' i \<le> via_count E i) \<and>
     (\<forall>k m i. (k, m) \<in> set E' \<longrightarrow> hbm_via m = Some i \<longrightarrow> (\<exists>m'. (k, m') \<in> set E \<and> hbm_via m' = Some i)))"

lemma shrinks_refl: "shrinks E E"
  by (auto simp add: shrinks_def)

lemma shrinks_delete: "shrinks (tab_delete p E) E"
proof -
  have "via_count (tab_delete p E) i \<le> via_count E i" for i
    unfolding via_count_def tab_delete_def by (induction E) auto
  then show ?thesis
    by (auto simp add: shrinks_def tab_delete_def)
qed

lemma shrinks_update:
  assumes "\<And>m. set_option (hbm_via (f m)) \<subseteq> set_option (hbm_via m)"
  shows "shrinks (tab_update p f E) E"
proof -
  have keep: "hbm_via (f m) = Some i \<Longrightarrow> hbm_via m = Some i" for m i
    using assms [of m] by auto
  have "via_count (tab_update p f E) i \<le> via_count E i" for i
    unfolding via_count_def tab_update_def by (induction E) (auto dest: keep split: if_splits)
  then show ?thesis
    unfolding shrinks_def tab_update_def by (fastforce dest: keep split: if_splits)
qed

lemma admits_mono:
  assumes "admits cs I E" and "set I' \<subseteq> set I" and "shrinks E' E"
  shows "admits cs I' E'"
  unfolding admits_def
proof (intro allI impI)
  fix i r assume "(i, r) \<in> set I'"
  then have "int (via_count E i) + int (length (filter (\<lambda>c. fst c = i) cs)) \<le> hin_use_count r \<and>
      hin_use_count r \<le> hin_max_uses r"
    using assms(1,2) by (auto simp add: admits_def)
  moreover have "via_count E' i \<le> via_count E i"
    using assms(3) by (simp add: shrinks_def)
  ultimately show "int (via_count E' i) + int (length (filter (\<lambda>c. fst c = i) cs)) \<le> hin_use_count r \<and>
      hin_use_count r \<le> hin_max_uses r"
    by linarith
qed

lemma own_swarm_mono:
  assumes "own_swarm cs I E" and "set I' \<subseteq> set I" and "shrinks E' E"
  shows "own_swarm cs I' E'"
  unfolding own_swarm_def
proof (intro conjI allI impI)
  fix k m i r assume m: "(k, m) \<in> set E'" "hbm_via m = Some i" and r: "(i, r) \<in> set I'"
  obtain m' where "(k, m') \<in> set E" "hbm_via m' = Some i"
    using assms(3) m unfolding shrinks_def by blast
  then show "hin_swarm r = snd k"
    using assms(1,2) r unfolding own_swarm_def by blast
next
  fix i s key r assume "(i, s, key) \<in> set cs" "(i, r) \<in> set I'"
  then show "hin_swarm r = s"
    using assms(1,2) unfolding own_swarm_def by blast
qed

definition admits_db :: "claim list \<Rightarrow> host_db \<Rightarrow> bool" where
  "admits_db cs db = (admits cs (hd_invitations db) (hd_enrolled db) \<and> own_swarm cs (hd_invitations db) (hd_enrolled db))"

lemma admits_db_mono:
  "admits_db cs db \<Longrightarrow> set (hd_invitations d) \<subseteq> set (hd_invitations db) \<Longrightarrow> shrinks (hd_enrolled d) (hd_enrolled db) \<Longrightarrow>
    admits_db cs d"
  by (auto simp add: admits_db_def intro: admits_mono own_swarm_mono)

lemma admits_cong: "adm d = adm db \<Longrightarrow> admits_db cs d = admits_db cs db"
  by (simp add: admits_db_def adm_def)

lemma admits_record_event [simp]: "admits_db cs (record_event flt k at s u b db) = admits_db cs db"
  by (simp add: admits_db_def)

lemma delete_invitations_eq:
  "delete_invitations p db = Inr d \<Longrightarrow> d = db\<lparr>hd_invitations := filter (\<lambda>(i, r). \<not> p i r) (hd_invitations db)\<rparr>"
  by (auto simp add: delete_invitations_def split: if_splits)

lemma delete_swarm_row_eq:
  "delete_swarm_row s db = Inr d \<Longrightarrow> d = db\<lparr>hd_swarms := tab_delete (\<lambda>k. k = s) (hd_swarms db)\<rparr>"
  by (auto simp add: delete_swarm_row_def split: if_splits)

lemma admits_settle: "admits_db cs db \<Longrightarrow> (\<And>d x. r = Inr (d, x) \<Longrightarrow> admits_db cs d) \<Longrightarrow> admits_db cs (fst (settle db r))"
  by (rule settle_keeps [where P = "admits_db cs"])

lemma admits_DeleteSwarm: "admits_db cs db \<Longrightarrow> admits_db cs (fst (DeleteSwarm flt now a s db))"
  unfolding DeleteSwarm_def
  by (rule admits_settle, assumption)
    (auto simp add: op_effects dest!: delete_invitations_eq delete_swarm_row_eq
      intro!: shrinks_delete elim!: admits_db_mono)

lemma admits_DeleteInvitation: "admits_db cs db \<Longrightarrow> admits_db cs (fst (DeleteInvitation flt now s i db))"
  unfolding DeleteInvitation_def
  by (rule admits_settle, assumption)
    (auto simp add: op_effects split: if_splits dest!: delete_invitations_eq
      intro!: shrinks_update elim!: admits_db_mono)

lemma admits_RemoveBridge: "admits_db cs db \<Longrightarrow> admits_db cs (fst (RemoveBridgeFromSwarm flt now s b db))"
  unfolding RemoveBridgeFromSwarm_def clear_items_def
  by (rule admits_settle, assumption)
    (auto simp add: op_effects split: if_splits intro!: shrinks_delete elim!: admits_db_mono)

lemma admits_SetBridgeDisplayName: "admits_db cs db \<Longrightarrow> admits_db cs (fst (SetBridgeDisplayName flt s b name db))"
  unfolding SetBridgeDisplayName_def
  by (rule admits_settle, assumption)
    (auto simp add: op_effects split: if_splits intro!: shrinks_update elim!: admits_db_mono)

lemma admits_applyName: "admits_db cs db \<Longrightarrow> admits_db cs (fst (applyBridgePublishedDisplayName flt s b name db))"
  unfolding applyBridgePublishedDisplayName_def
  by (cases "name = ''''", simp, simp only: if_False, rule admits_settle, assumption)
    (auto simp add: op_effects intro!: shrinks_update elim!: admits_db_mono)

lemma admits_PublishInventory: "admits_db cs db \<Longrightarrow> admits_db cs (fst (PublishInventory C flt now b t m name db))"
proof -
  assume db: "admits_db cs db"
  have named: "admits_db cs (fst (applyBridgePublishedDisplayName flt (mf_Swarm m) b name
      (record_event flt EventInventorySnapshot now (mf_Swarm m) '''' b d)))"
    if "Replace flt b (mf_Swarm m) m now db = Inr d" for d
    by (rule admits_applyName) (use db admits_cong [OF adm_frames(6) [OF that]] in simp)
  show ?thesis
    unfolding PublishInventory_def
    using db named by (auto split: option.split sum.split prod.split)
qed

lemma admits_SetBridgePublishedDisplayName:
  "admits_db cs db \<Longrightarrow> admits_db cs (fst (SetBridgePublishedDisplayName C flt now b t s name db))"
  unfolding SetBridgePublishedDisplayName_def by (auto simp add: admits_applyName split: option.split sum.split)

lemma admits_credentials:
  assumes "admits_db cs db"
  shows "admits_db cs (fst (RotateBridgeCredential C flt now nxt b t db))"
    and "admits_db cs (fst (RevokeBridge C flt now b why db))"
    and "admits_db cs (fst (ReenrollBridge C flt now tok b db))"
  by (rule credentials_keep [where P = "admits_db cs"]; use assms in \<open>simp add: admits_db_def\<close>)+

lemma via_count_append: "via_count (E @ [x]) i = via_count E i + (if hbm_via (snd x) = Some i then 1 else 0)"
  by (simp add: via_count_def)

lemma via_count_zero: "via_refs E A \<Longrightarrow> i \<notin> A \<Longrightarrow> via_count E i = 0"
  unfolding via_refs_def via_count_def by (fastforce simp add: filter_empty_conv)

lemma admits_IssueInvitation:
  assumes "admits_db cs db" and "schema_ok db" and "i \<notin> fst ` set cs"
  shows "admits_db cs (fst (IssueInvitation C flt now i code s issuer n ttl db))"
proof -
  let ?r = "\<lparr>hin_swarm = s, hin_code_hash = secret_hash C code, hin_issued_by = issuer,
    hin_max_uses = (if n \<le> 0 then 1 else n), hin_use_count = 0,
    hin_expires_at = host_time db (now + (if ttl \<le> 0 then defaultInvitationTTL else ttl)),
    hin_created_at = host_time db now, hin_revoked_at = None\<rparr>"
  have "admits_db cs d" if "insert_invitation i ?r db = Inr d" for d
  proof -
    have d: "d = db\<lparr>hd_invitations := hd_invitations db @ [(i, ?r)]\<rparr>" and "i \<notin> ids (hd_invitations db)"
      using that by (auto simp add: insert_invitation_def op_effects tab_insert_Inr map_of_ids split: if_splits)
    then have "via_count (hd_enrolled db) i = 0"
      using assms(2) by (auto simp add: schema_defs intro: via_count_zero)
    moreover have "filter (\<lambda>c. fst c = i) cs = []"
      using assms(3) by (auto simp add: filter_empty_conv)
    moreover have "via_refs (hd_enrolled db) (ids (hd_invitations db))"
      using assms(2) by (simp add: schema_defs)
    then have "(k, m) \<in> set (hd_enrolled db) \<Longrightarrow> hbm_via m \<noteq> Some i" for k m
      using \<open>i \<notin> ids (hd_invitations db)\<close> by (fastforce simp add: via_refs_def)
    moreover have "(i, w, key) \<notin> set cs" for w key
      using assms(3) by force
    ultimately show ?thesis
      using assms(1) by (auto simp add: d admits_db_def admits_def own_swarm_def)
  qed
  then show ?thesis
    unfolding IssueInvitation_def Let_def
    by (intro admits_settle assms(1)) (auto simp only: op_effects prod.inject sum.inject admits_record_event)
qed

lemma admits_redeem_claim:
  assumes "admits_db cs db" and "schema_ok db" and "redeem_claim C flt now code db = (db', Inr c)"
  shows "admits_db (c # cs) db'"
proof -
  let ?p = "redeemable db (secret_hash C code) (host_time db now)"
  let ?f = "\<lambda>q. q\<lparr>hin_use_count := hin_use_count q + 1\<rparr>"
  obtain i0 r0 where find: "List.find (\<lambda>(i, r). ?p r) (hd_invitations db) = Some (i0, r0)"
    and c: "fst c = i0" "fst (snd c) = hin_swarm r0" and db': "db' = db\<lparr>hd_invitations := tab_update (\<lambda>_. ?p) ?f (hd_invitations db)\<rparr>"
    using assms(3) by (auto simp add: redeem_claim_def Let_def split: sum.splits option.splits)
  have r0: "(i0, r0) \<in> set (hd_invitations db)" "?p r0"
    using find by (auto simp add: find_Some_iff) (metis nth_mem)
  have keys: "keys_distinct (hd_invitations db)"
    using assms(2) by (simp add: schema_defs)
  have origin: "\<exists>q. (i, q) \<in> set (hd_invitations db) \<and> r = (if ?p q then ?f q else q)"
    if "(i, r) \<in> set (hd_invitations db')" for i r
    using that by (auto simp add: db' tab_update_def split: if_splits)
  have "own_swarm (c # cs) (hd_invitations db') (hd_enrolled db')"
  proof -
    have old: "own_swarm cs (hd_invitations db) (hd_enrolled db)"
      using assms(1) by (simp add: admits_db_def)
    have same: "\<exists>q. (i, q) \<in> set (hd_invitations db) \<and> hin_swarm q = hin_swarm r"
      if "(i, r) \<in> set (hd_invitations db')" for i r
      using origin [OF that] by auto
    have one: "(i0, q) \<in> set (hd_invitations db) \<Longrightarrow> q = r0" for q
      using keys r0(1) by (auto simp add: keys_distinct_def dest: eq_key_imp_eq_value)
    have "hd_enrolled db' = hd_enrolled db"
      by (simp add: db')
    then show ?thesis
      using old same one c unfolding own_swarm_def by (auto; metis)
  qed
  moreover have "admits (c # cs) (hd_invitations db') (hd_enrolled db')"
    unfolding admits_def
  proof (intro allI impI)
    fix i r assume "(i, r) \<in> set (hd_invitations db')"
    then obtain q where q: "(i, q) \<in> set (hd_invitations db)" "r = (if ?p q then ?f q else q)"
      using origin by blast
    have old: "int (via_count (hd_enrolled db) i) + int (length (filter (\<lambda>c. fst c = i) cs)) \<le> hin_use_count q"
      "hin_use_count q \<le> hin_max_uses q"
      using assms(1) q(1) by (auto simp add: admits_db_def admits_def)
    have same: "i = i0 \<Longrightarrow> ?p q"
      using keys q(1) r0 by (auto simp add: keys_distinct_def dest: eq_key_imp_eq_value)
    have room: "?p q \<Longrightarrow> hin_use_count q < hin_max_uses q"
      by (simp add: redeemable_def)
    show "int (via_count (hd_enrolled db') i) + int (length (filter (\<lambda>c. fst c = i) (c # cs))) \<le> hin_use_count r \<and>
        hin_use_count r \<le> hin_max_uses r"
      using old same room by (auto simp add: db' q(2) c)
  qed
  ultimately show ?thesis
    by (simp add: admits_db_def)
qed

lemma redeem_claim_refused: "redeem_claim C flt now code db = (db', Inl e) \<Longrightarrow> db' = db"
  by (auto simp add: redeem_claim_def Let_def split: sum.splits option.splits)

lemma redeem_enrol_adm:
  "adm (fst (redeem_enrol C flt now token pk (i, s, key) db)) = adm db \<or>
   (\<exists>x. adm (fst (redeem_enrol C flt now token pk (i, s, key) db)) = (hd_invitations db, hd_enrolled db @ [x]) \<and>
     hbm_via (snd x) = Some i \<and> snd (fst x) = s)"
proof -
  have ins: "adm d = adm db \<or> (\<exists>x. adm d = (hd_invitations db, hd_enrolled db @ [x]) \<and>
      hbm_via (snd x) = Some i \<and> snd (fst x) = s)"
    if "insert_enrolled b s i now (db\<lparr>hd_creds := c\<rparr>) = Inr d" for b d c
    using that by (auto simp add: insert_enrolled_def adm_def split: if_splits)
  have crd: "adm (d\<lparr>hd_creds := c\<rparr>) = adm d" for d c
    by (simp add: adm_def)
  show ?thesis
    unfolding redeem_enrol_def Let_def
    by (auto simp only: op_effects crd adm_record_event fst_conv prod.case split: sum.split prod.split if_split
        dest!: ins)
qed

lemma count_remove1:
  "c \<in> set cs \<Longrightarrow> length (filter Q (remove1 c cs)) + (if Q c then 1 else 0) = length (filter Q cs)"
  by (induction cs) auto

lemma admits_redeem_enrol:
  assumes "admits_db cs db" and "c \<in> set cs"
  shows "admits_db (remove1 c cs) (fst (redeem_enrol C flt now token pk c db))"
proof -
  obtain i s key where c: "c = (i, s, key)"
    by (cases c)
  let ?d = "fst (redeem_enrol C flt now token pk c db)"
  have inv: "hd_invitations ?d = hd_invitations db"
    and via: "\<And>j. via_count (hd_enrolled ?d) j \<le> via_count (hd_enrolled db) j + (if j = i then 1 else 0)"
    using redeem_enrol_adm [of C flt now token pk i s key db]
    by (auto simp add: adm_def via_count_append c)
  have "own_swarm (remove1 c cs) (hd_invitations ?d) (hd_enrolled ?d)"
  proof -
    have old: "own_swarm cs (hd_invitations db) (hd_enrolled db)"
      using assms(1) by (simp add: admits_db_def)
    then have mine: "(i, r) \<in> set (hd_invitations db) \<Longrightarrow> hin_swarm r = s" for r
      using assms(2) unfolding own_swarm_def c by blast
    have "set (remove1 c cs) \<subseteq> set cs"
      by (rule set_remove1_subset)
    moreover have "(k, m) \<in> set (hd_enrolled ?d) \<Longrightarrow> (k, m) \<in> set (hd_enrolled db) \<or> hbm_via m = Some i \<and> snd k = s" for k m
      using redeem_enrol_adm [of C flt now token pk i s key db] by (auto simp add: adm_def c)
    ultimately show ?thesis
      unfolding own_swarm_def inv
    proof (intro conjI allI impI, goal_cases)
      case (1 k m j r)
      then consider "(k, m) \<in> set (hd_enrolled db)" | "hbm_via m = Some i \<and> snd k = s"
        by blast
      then show ?case
      proof cases
        case 1
        then show ?thesis
          using old \<open>hbm_via m = Some j\<close> \<open>(j, r) \<in> set (hd_invitations db)\<close> unfolding own_swarm_def by blast
      next
        case 2
        then show ?thesis
          using mine \<open>hbm_via m = Some j\<close> \<open>(j, r) \<in> set (hd_invitations db)\<close> by simp
      qed
    next
      case (2 j w key' r)
      then show ?case
        using old unfolding own_swarm_def by blast
    qed
  qed
  moreover have "admits (remove1 c cs) (hd_invitations ?d) (hd_enrolled ?d)"
    unfolding admits_def
  proof (intro allI impI)
    fix j r assume "(j, r) \<in> set (hd_invitations ?d)"
    then have old: "int (via_count (hd_enrolled db) j) + int (length (filter (\<lambda>c. fst c = j) cs)) \<le> hin_use_count r \<and>
        hin_use_count r \<le> hin_max_uses r"
      using assms(1) by (auto simp add: inv admits_db_def admits_def)
    have "length (filter (\<lambda>c. fst c = j) (remove1 c cs)) + (if j = i then 1 else 0) =
        length (filter (\<lambda>c. fst c = j) cs)"
      using count_remove1 [OF assms(2), of "\<lambda>c. fst c = j"] by (auto simp add: c)
    then show "int (via_count (hd_enrolled ?d) j) + int (length (filter (\<lambda>c. fst c = j) (remove1 c cs))) \<le> hin_use_count r \<and>
        hin_use_count r \<le> hin_max_uses r"
      using old via [of j] by linarith
  qed
  ultimately show ?thesis
    by (simp add: admits_db_def)
qed

lemma admits_exec:
  assumes "admits_db cs db" and "schema_ok db" and "\<not> redeems oper" and "\<And>i. mints oper = Some i \<Longrightarrow> i \<notin> fst ` set cs"
  shows "admits_db cs (host_exec P db (flt, oper))"
  using assms(3,4)
  by (cases oper) (simp_all add: admits_cong [OF adm_unchanged(1)] admits_cong [OF adm_unchanged(2)]
      admits_cong [OF adm_unchanged(3)] admits_cong [OF adm_unchanged(4)] admits_cong [OF adm_unchanged(5)]
      admits_cong [OF adm_unchanged(6)] admits_cong [OF adm_unchanged(7)] assms(1,2) admits_DeleteSwarm
      admits_IssueInvitation admits_DeleteInvitation admits_credentials admits_RemoveBridge
      admits_SetBridgeDisplayName admits_PublishInventory admits_SetBridgePublishedDisplayName)

lemma admits_reached: "host_reaches P st \<Longrightarrow> admits_db (snd st) (fst st)"
proof (induction rule: host_reaches.induct)
  case (start tm)
  show ?case
    by (simp add: admits_db_def admits_def own_swarm_def empty_host_def)
next
  case (step st st')
  show ?case
    using step.hyps(2) step.IH schema_reached [OF step.hyps(1)]
    by cases (auto intro: admits_exec admits_redeem_claim admits_redeem_enrol)
qed

lemma host_reaches_calls: "host_reaches P (foldl (host_exec P) (empty_host tm) xs, [])"
proof (induction xs rule: rev_induct)
  case Nil
  show ?case
    by (simp add: host_reaches.start)
next
  case (snoc x xs)
  then show ?case
    using host_reaches_call [where flt = "fst x" and oper = "snd x"] by simp
qed

lemma claimed_reached: "host_reaches sample_host (claimed_db, [(invite_id, swarm_id, replicate 32 7)])"
proof (rule host_reaches.step)
  show "host_reaches sample_host (sample_db, [])"
    using host_reaches_calls [of sample_host "\<lambda>t. t" sample_calls] by (simp add: sample_calls_run)
  have "redeem_claim (hp_crypto sample_host) quiet 4 ''code'' sample_db =
      (claimed_db, Inr (invite_id, swarm_id, replicate 32 7))"
    by (simp add: sample_host_def claim_sample)
  then show "host_step sample_host (sample_db, []) (claimed_db, [(invite_id, swarm_id, replicate 32 7)])"
    by (rule host_step.claim)
qed


section \<open>Properties\<close>

text \<open>C5: under every interleaving of redemptions with each other and with every other call, and
  whatever statements the database refuses, the Bridges admitted through an invitation and the
  redemptions of it still under way are together at most the uses taken, and those are at most
  the uses it was issued for.\<close>

theorem invitation_admits_its_uses:
  assumes "host_reaches P (db, cs)" and "(i, r) \<in> set (hd_invitations db)"
  shows "int (via_count (hd_enrolled db) i) + int (length (filter (\<lambda>c. fst c = i) cs)) \<le> hin_use_count r \<and>
    hin_use_count r \<le> hin_max_uses r"
  using admits_reached [OF assms(1)] assms(2) by (simp add: admits_db_def admits_def)

theorem invitation_admits_its_uses_witness:
  "int (via_count (hd_enrolled claimed_db) invite_id) +
     int (length (filter (\<lambda>c. fst c = invite_id) [(invite_id, swarm_id, replicate 32 (7 :: 8 word))])) \<le> hin_use_count (invite_row 1) \<and>
   hin_use_count (invite_row 1) \<le> hin_max_uses (invite_row 1)"
  by (rule invitation_admits_its_uses [OF claimed_reached]) (simp add: claimed_db_def)





end
