(* ===== verification/HostOutcomes.thy ===== *)
theory HostOutcomes
  imports Admission
begin

text \<open>
  What single operations of \<open>src/host/directory/\<close> do: when a Swarm can be deleted, when an
  inventory is accepted and what it changes, whose name a Bridge carries, and what a redemption
  that fails halfway leaves behind.
\<close>

section \<open>Deleting a Swarm\<close>

definition has_catalogue :: "host_db \<Rightarrow> string \<Rightarrow> bool" where
  "has_catalogue db s = (\<exists>((s', p), r) \<in> set (hd_catalogues db). s' = s)"

text \<open>The database after the deletions that precede that of the row of \<open>swarms\<close>.\<close>

definition emptied :: "string \<Rightarrow> host_db \<Rightarrow> host_db" where
  "emptied s db = db\<lparr>
     hd_items := tab_delete (\<lambda>(b, s', f). s' = s) (hd_items db),
     hd_snapshots := tab_delete (\<lambda>(b, s'). s' = s) (hd_snapshots db),
     hd_enrolled := tab_delete (\<lambda>(b, s'). s' = s) (hd_enrolled db),
     hd_invitations := filter (\<lambda>(i, r). hin_swarm r \<noteq> s) (hd_invitations db),
     hd_members := tab_delete (\<lambda>(s', a). s' = s) (hd_members db)\<rparr>"

lemma emptied_referenced: "swarm_referenced (emptied s db) s \<longleftrightarrow> has_catalogue db s"
  unfolding swarm_referenced_def emptied_def has_catalogue_def tab_delete_def by auto

lemma emptied_invitations:
  assumes "own_swarm cs (hd_invitations db) (hd_enrolled db)"
  shows "delete_invitations (\<lambda>i r. hin_swarm r = s) (db\<lparr>hd_items := t, hd_snapshots := u,
      hd_enrolled := tab_delete (\<lambda>(b, s'). s' = s) (hd_enrolled db)\<rparr>) =
    Inr (db\<lparr>hd_items := t, hd_snapshots := u, hd_enrolled := tab_delete (\<lambda>(b, s'). s' = s) (hd_enrolled db),
      hd_invitations := filter (\<lambda>(i, r). hin_swarm r \<noteq> s) (hd_invitations db)\<rparr>)"
proof -
  have "\<not> (hin_swarm r = s \<and> hbm_via m = Some i)"
    if "(i, r) \<in> set (hd_invitations db)" "(k, m) \<in> set (tab_delete (\<lambda>(b, s'). s' = s) (hd_enrolled db))" for i r k m
    using assms that unfolding own_swarm_def tab_delete_def by force
  then have "\<not> (\<exists>(i, r) \<in> set (hd_invitations db). hin_swarm r = s \<and>
      (\<exists>(k, m) \<in> set (tab_delete (\<lambda>(b, s'). s' = s) (hd_enrolled db)). hbm_via m = Some i))"
    by blast
  then show ?thesis
    by (simp add: delete_invitations_def)
qed

lemma DeleteSwarm_no_faults:
  assumes "own_swarm cs (hd_invitations db) (hd_enrolled db)" and "swarm_of_member db a s = Some sw"
  shows "DeleteSwarm no_faults now a s db = settle db (
    res_bind (run no_faults StDeleteSwarm (delete_swarm_row s (emptied s db))) (\<lambda>db.
    Inr (record_event no_faults EventSwarmDeleted now s a '''' db, ())))"
proof -
  have "GetSwarm no_faults a s db = Inr sw"
    using assms(2) by (simp add: GetSwarm_def run_def sql_run_def)
  then show ?thesis
    unfolding DeleteSwarm_def using emptied_invitations [OF assms(1)]
    by (simp add: run_def sql_run_def emptied_def)
qed

section \<open>Publishing\<close>

lemma settle_Inl: "settle db r = (db', Inl e) \<Longrightarrow> db' = db"
  by (auto simp add: settle_def split: sum.splits)

lemma applyName_state:
  "fst (applyBridgePublishedDisplayName flt s b name db) = db \<or>
   fst (applyBridgePublishedDisplayName flt s b name db) = db\<lparr>hd_enrolled :=
     tab_update (\<lambda>k m. k = (b, s) \<and> \<not> hbm_set_by_host m) (\<lambda>m. m\<lparr>hbm_display_name := name\<rparr>) (hd_enrolled db)\<rparr>"
  by (auto simp add: applyBridgePublishedDisplayName_def settle_def run_def sql_run_def)

lemma applyName_other:
  "hd_accounts (fst (applyBridgePublishedDisplayName flt s b name db)) = hd_accounts db"
  "hd_swarms (fst (applyBridgePublishedDisplayName flt s b name db)) = hd_swarms db"
  "hd_members (fst (applyBridgePublishedDisplayName flt s b name db)) = hd_members db"
  "hd_invitations (fst (applyBridgePublishedDisplayName flt s b name db)) = hd_invitations db"
  "hd_snapshots (fst (applyBridgePublishedDisplayName flt s b name db)) = hd_snapshots db"
  "hd_items (fst (applyBridgePublishedDisplayName flt s b name db)) = hd_items db"
  "hd_catalogues (fst (applyBridgePublishedDisplayName flt s b name db)) = hd_catalogues db"
  "hd_creds (fst (applyBridgePublishedDisplayName flt s b name db)) = hd_creds db"
  "k \<noteq> (b, s) \<Longrightarrow> map_of (hd_enrolled (fst (applyBridgePublishedDisplayName flt s b name db))) k = map_of (hd_enrolled db) k"
  using applyName_state [of flt s b name db] by (auto simp add: tab_update_lookup map_option_case split: option.splits)

lemma applyName_fine: "snd (applyBridgePublishedDisplayName no_faults s b name db) = Inr ()"
  by (simp add: applyBridgePublishedDisplayName_def settle_def run_def sql_run_def)

text \<open>The three outcomes of a publication: nothing but an event, or the inventory replaced and perhaps the name.\<close>

lemma PublishInventory_state:
  assumes "PublishInventory C flt now b t m name db = (db', res)"
  obtains (refused) e k where "res = Inl e" "db' = db \<or> db' = record_event flt k now '''' '''' b db"
  | (stored) d where "Authenticate (dir_verifier C flt) (hd_creds db) b t = None" "publish_checks C flt b m db = Inr ()"
      "Replace flt b (mf_Swarm m) m now db = Inr d"
      "db' = fst (applyBridgePublishedDisplayName flt (mf_Swarm m) b name
        (record_event flt EventInventorySnapshot now (mf_Swarm m) '''' b d))"
proof (cases "Authenticate (dir_verifier C flt) (hd_creds db) b t")
  case (Some e)
  then show ?thesis
    using assms refused by (auto simp add: PublishInventory_def)
next
  case None
  show ?thesis
  proof (cases "publish_checks C flt b m db")
    case (Inl e)
    then show ?thesis
      using assms None refused by (auto simp add: PublishInventory_def)
  next
    case (Inr u)
    show ?thesis
    proof (cases "Replace flt b (mf_Swarm m) m now db")
      case (Inl e)
      then show ?thesis
        using assms None Inr refused by (auto simp add: PublishInventory_def)
    next
      case rep: (Inr d)
      have "db' = fst (applyBridgePublishedDisplayName flt (mf_Swarm m) b name
          (record_event flt EventInventorySnapshot now (mf_Swarm m) '''' b d))"
        using assms None Inr rep by (auto simp add: PublishInventory_def split: prod.splits sum.splits option.splits)
      then show ?thesis
        using None Inr rep stored by simp
    qed
  qed
qed

lemma publish_checks_Inr:
  "publish_checks C no_faults b m db = Inr () \<longleftrightarrow> manifest_Validate (hc_sha C) m = None \<and>
    (\<exists>r w. map_of (hd_enrolled db) (b, mf_Swarm m) = Some r \<and> map_of (hd_swarms db) (mf_Swarm m) = Some w \<and>
      active_member r \<and> AliasFor (hc_hmac C) (hsw_alias_key w) (mf_Swarm m) b = Inr (mf_Alias m))"
  by (auto simp add: publish_checks_def member_with_key_def run_def sql_run_def split: option.split sum.split)

lemma replaced_snapshot:
  "map_of (hd_snapshots (replaced b s m at db)) (b', s') =
    (if (b', s') = (b, s) then Some \<lparr>his_revision = mf_Revision m, his_item_count = int (length (mf_Items m)),
        his_total_bytes = total_bytes (mf_Items m), his_fingerprints = mf_Fingerprints m,
        his_generated_at = host_time db (mf_GeneratedAt m), his_published_at = host_time db at\<rparr>
     else map_of (hd_snapshots db) (b', s'))"
  by (simp add: replaced_def)

text \<open>The snapshot a publication answers with.\<close>

definition snapshot_of :: "host_db \<Rightarrow> string \<Rightarrow> Manifest \<Rightarrow> instant \<Rightarrow> InventorySnapshot" where
  "snapshot_of db b m now = \<lparr>isn_BridgeID = b, isn_SwarmID = mf_Swarm m, isn_Revision = mf_Revision m,
     isn_ItemCount = int (length (mf_Items m)), isn_TotalBytes = total_bytes (mf_Items m),
     isn_GeneratedAt = host_time db (mf_GeneratedAt m), isn_PublishedAt = host_time db now\<rparr>"

lemma PublishInventory_stored:
  assumes "Authenticate (dir_verifier C no_faults) (hd_creds db) b t = None"
    and "publish_checks C no_faults b m db = Inr ()" and "Replace no_faults b (mf_Swarm m) m now db = Inr d"
  shows "snd (PublishInventory C no_faults now b t m name db) = Inr (snapshot_of db b m now)"
proof -
  let ?e = "record_event no_faults EventInventorySnapshot now (mf_Swarm m) '''' b d"
  obtain d2 where d2: "applyBridgePublishedDisplayName no_faults (mf_Swarm m) b name ?e = (d2, Inr ())"
    using applyName_fine [of "mf_Swarm m" b name ?e]
    by (cases "applyBridgePublishedDisplayName no_faults (mf_Swarm m) b name ?e") simp
  have "hd_snapshots d2 = hd_snapshots d"
    using applyName_other(5) [of no_faults "mf_Swarm m" b name ?e] d2 by simp
  moreover have "d = replaced b (mf_Swarm m) m now db"
    using assms(3) by (simp add: Replace_Inr)
  ultimately show ?thesis
    using assms d2 by (simp add: PublishInventory_def SnapshotFor_def replaced_snapshot scanSnapshotRow_def snapshot_of_def)
qed

section \<open>Whose name a Bridge carries\<close>

definition host_named :: "string \<times> string \<Rightarrow> string \<Rightarrow> host_db \<Rightarrow> bool" where
  "host_named k n db = (\<exists>m. map_of (hd_enrolled db) k = Some m \<and> hbm_set_by_host m \<and> hbm_display_name m = n)"

text \<open>The calls by which the owner names the Bridge anew or lets it go.\<close>

fun renames :: "string \<times> string \<Rightarrow> host_op \<Rightarrow> bool" where
  "renames k (OpSetDisplayName s b n) = (k = (b, s))"
| "renames k (OpRemoveBridge now s b) = (k = (b, s))"
| "renames k (OpDeleteSwarm now a s) = (snd k = s)"
| "renames k _ = False"

lemma named_same: "host_named k n db \<Longrightarrow> hd_enrolled d = hd_enrolled db \<Longrightarrow> host_named k n d"
  by (simp add: host_named_def)

lemma named_record_event [simp]: "host_named k n (record_event flt e at s u b db) = host_named k n db"
  by (simp add: host_named_def)

lemma named_update:
  assumes "host_named k n db" and "hd_enrolled d = tab_update p f (hd_enrolled db)"
    and "\<And>m. hbm_set_by_host m \<Longrightarrow> p k m \<Longrightarrow> hbm_set_by_host (f m) \<and> hbm_display_name (f m) = hbm_display_name m"
  shows "host_named k n d"
proof -
  obtain m where m: "map_of (hd_enrolled db) k = Some m" "hbm_set_by_host m" "hbm_display_name m = n"
    using assms(1) by (auto simp add: host_named_def)
  then have "map_of (hd_enrolled d) k = Some (if p k m then f m else m)"
    by (simp add: assms(2) tab_update_lookup)
  then show ?thesis
    using m assms(3) [of m] by (auto simp add: host_named_def)
qed

lemma named_delete:
  "host_named k n db \<Longrightarrow> hd_enrolled d = tab_delete p (hd_enrolled db) \<Longrightarrow> \<not> p k \<Longrightarrow> host_named k n d"
  by (simp add: host_named_def tab_delete_lookup)

lemma named_settle: "host_named k n db \<Longrightarrow> (\<And>d x. r = Inr (d, x) \<Longrightarrow> host_named k n d) \<Longrightarrow> host_named k n (fst (settle db r))"
  by (rule settle_keeps [where P = "host_named k n"])

lemma named_applyName: "host_named k n db \<Longrightarrow> host_named k n (fst (applyBridgePublishedDisplayName flt s b name db))"
  using applyName_state [of flt s b name db]
  by (elim disjE) (auto elim!: named_update)

lemma named_PublishInventory:
  assumes "host_named k n db"
  shows "host_named k n (fst (PublishInventory C flt now b t m name db))"
proof -
  obtain db' res where p: "PublishInventory C flt now b t m name db = (db', res)"
    by (cases "PublishInventory C flt now b t m name db")
  show ?thesis
  proof (cases rule: PublishInventory_state [OF p])
    case 1
    then show ?thesis
      using assms p by auto
  next
    case (2 d)
    then have "hd_enrolled d = hd_enrolled db"
      by (simp add: Replace_Inr replaced_def)
    then have "host_named k n d"
      by (rule named_same [OF assms])
    then show ?thesis
      using p 2(4) by (simp add: named_applyName)
  qed
qed

lemma named_redeem:
  assumes "host_named k n db"
  shows "host_named k n (fst (RedeemInvitation C flt now token code pk db))"
proof (cases "redeem_claim C flt now code db")
  case (Pair d r)
  then have "hd_enrolled d = hd_enrolled db"
    by (auto simp add: redeem_claim_def Let_def split: sum.splits option.splits)
  then have d: "host_named k n d"
    by (rule named_same [OF assms])
  show ?thesis
  proof (cases r)
    case (Inl e)
    then show ?thesis
      using d Pair by (simp add: RedeemInvitation_def)
  next
    case (Inr c)
    obtain i s key where c: "c = (i, s, key)"
      by (cases c)
    have "host_named k n (fst (redeem_enrol C flt now token pk c d))"
      using d redeem_enrol_adm [of C flt now token pk i s key d]
      by (auto simp add: adm_def host_named_def c)
    then show ?thesis
      using Pair Inr by (simp add: RedeemInvitation_def)
  qed
qed

lemma named_DeleteSwarm:
  assumes "host_named k n db" and "snd k \<noteq> s"
  shows "host_named k n (fst (DeleteSwarm flt now a s db))"
  unfolding DeleteSwarm_def
  by (rule named_settle [OF assms(1)])
    (clarsimp simp add: op_effects, drule delete_swarm_row_eq, drule delete_invitations_eq,
      rule named_delete [OF assms(1), where p = "\<lambda>(b, s'). s' = s"],
      use assms(2) in \<open>simp_all add: case_prod_beta\<close>)

lemma named_RemoveBridge:
  assumes "host_named k n db" and "k \<noteq> (b, s)"
  shows "host_named k n (fst (RemoveBridgeFromSwarm flt now s b db))"
  unfolding RemoveBridgeFromSwarm_def clear_items_def
  by (rule named_settle [OF assms(1)])
    (clarsimp simp add: op_effects split: if_splits, rule named_delete [OF assms(1), where p = "\<lambda>k. k = (b, s)"],
      use assms(2) in simp_all)

lemma named_SetBridgeDisplayName:
  assumes "host_named k n db" and "k \<noteq> (b, s)"
  shows "host_named k n (fst (SetBridgeDisplayName flt s b name db))"
  unfolding SetBridgeDisplayName_def
  by (rule named_settle [OF assms(1)])
    (clarsimp simp add: op_effects split: if_splits, rule named_update [OF assms(1), where p = "\<lambda>k m. k = (b, s)"],
      use assms(2) in simp_all)

lemma named_exec:
  assumes "host_named k n db" and "\<not> renames k oper"
  shows "host_named k n (host_exec P db (flt, oper))"
proof -
  have same: "adm d = adm db \<Longrightarrow> host_named k n d" for d
    by (rule named_same [OF assms(1)]) (simp add: adm_def)
  have keep: "host_named k n (db\<lparr>hd_creds := c\<rparr>)" for c
    by (rule named_same [OF assms(1)]) simp
  have issue: "host_named k n (fst (IssueInvitation C flt now i code s issuer u ttl db))" for C now i code s issuer u ttl
    unfolding IssueInvitation_def Let_def
    by (rule named_settle [OF assms(1)])
      (auto simp add: op_effects insert_invitation_def split: if_splits intro: named_same [OF assms(1)])
  have forget: "host_named k n (fst (DeleteInvitation flt now s i db))" for now s i
    unfolding DeleteInvitation_def
    by (rule named_settle [OF assms(1)])
      (auto simp add: op_effects split: if_splits dest!: delete_invitations_eq intro!: named_update [OF assms(1)])
  have creds: "host_named k n (fst (RotateBridgeCredential C flt now nxt b t db))"
    "host_named k n (fst (RevokeBridge C flt now b why db))" "host_named k n (fst (ReenrollBridge C flt now nxt b db))"
    for C now nxt b t why
    by (rule credentials_keep [where P = "host_named k n"]; simp add: keep)+
  have "host_named k n (fst (SetBridgePublishedDisplayName C flt now b t s name db))" for C now b t s name
    unfolding SetBridgePublishedDisplayName_def using assms(1)
    by (simp add: named_applyName split: option.split sum.split)
  then show ?thesis
    using assms(2)
    by (cases oper) (simp_all add: same [OF adm_unchanged(1)] same [OF adm_unchanged(2)] same [OF adm_unchanged(3)]
        same [OF adm_unchanged(4)] same [OF adm_unchanged(5)] same [OF adm_unchanged(6)] same [OF adm_unchanged(7)]
        issue forget creds assms(1) named_redeem named_PublishInventory named_DeleteSwarm named_RemoveBridge
        named_SetBridgeDisplayName)
qed

section \<open>A Swarm with a catalogue\<close>

definition sample_dat :: datFile where
  "sample_dat = \<lparr>df_Name = ''GB'', df_Description = '''', df_Version = ''1'', df_Date = '''', df_Author = '''',
     df_Homepage = '''', df_Games = [\<lparr>dg_Name = ''Game'', dg_ROMs = [\<lparr>dr_Name = ''game.gb'', dr_Size = 1,
       dr_CRC = ''0a'', dr_MD5 = '''', dr_SHA1 = '''', dr_SHA256 = '''', dr_Status = ''''\<rparr>]\<rparr>]\<rparr>"

definition catalogue_host :: host_params where
  "catalogue_host = sample_host\<lparr>hp_xml := (\<lambda>_. Some sample_dat)\<rparr>"

definition catalogued_db :: host_db where
  "catalogued_db = host_exec catalogue_host sample_db (quiet, OpUploadCatalogue 5 owner_id swarm_id PlatformGB ''gb.dat'' [])"

lemma catalogued_reached: "host_reaches catalogue_host (catalogued_db, [])"
proof -
  have "foldl (host_exec catalogue_host) (empty_host (\<lambda>t. t)) sample_calls = sample_db"
    using sample_calls_run by (simp add: sample_calls_def catalogue_host_def)
  then have "host_reaches catalogue_host (sample_db, [])"
    using host_reaches_calls [of catalogue_host "\<lambda>t. t" sample_calls] by simp
  then show ?thesis
    unfolding catalogued_db_def by (rule host_reaches_call)
qed

lemma sample_member: "swarm_of_member sample_db owner_id swarm_id = Some \<lparr>swm_ID = swarm_id, swm_Name = ''Swarm''\<rparr>"
  by (simp add: swarm_of_member_def sample_db_def)

lemma catalogued_db_eq:
  "swarm_of_member catalogued_db owner_id swarm_id = Some \<lparr>swm_ID = swarm_id, swm_Name = ''Swarm''\<rparr>"
  "has_catalogue catalogued_db swarm_id"
proof -
  have "length (dat_entries sample_dat) = 1"
    by (simp add: dat_entries_def sample_dat_def rom_entry_def Let_def EqualFold_def to_lower_def map_filter_simps lower_char_def)
  then obtain e where e: "dat_entries sample_dat = [e]"
    by (auto simp add: length_Suc_conv)
  have names: "df_Name sample_dat = ''GB''" "df_Version sample_dat = ''1''"
    by (simp_all add: sample_dat_def)
  obtain st where st: "ImportDAT sample_hashes (\<lambda>_. Some sample_dat) ([], None) \<lparr>io_Family = '''', io_Platform = PlatformGB\<rparr> = Inr st"
    and n: "length (cs_Entries st) = 1"
    by (simp add: ImportDAT_def e index_def names)
  obtain r where cat: "catalogued_db = sample_db\<lparr>hd_catalogues := [((swarm_id, PlatformGB), r)]\<rparr>"
    using st n by (simp add: catalogued_db_def catalogue_host_def sample_host_def UploadReferenceCatalogue_def GetSwarm_def
        run_def sql_run_def sample_member isSupportedPlatform_def InitialPlatforms_def upsert_catalogue_def
        int4_def settle_def has_swarm_def has_account_def) (simp add: sample_db_def)
  then show "swarm_of_member catalogued_db owner_id swarm_id = Some \<lparr>swm_ID = swarm_id, swm_Name = ''Swarm''\<rparr>"
    "has_catalogue catalogued_db swarm_id"
    unfolding cat by (simp_all add: swarm_of_member_def has_catalogue_def sample_db_def)
qed

section \<open>Properties\<close>

text \<open>C26: a member can delete a Swarm of a reachable database exactly while no reference catalogue is
  stored for it.  Without one, the row and everything that names the Swarm go, and identities and
  credentials stay; with one, the foreign key of the catalogue that the operation forgets refuses
  the last statement and the whole deletion is undone.\<close>

theorem catalogue_blocks_deletion:
  assumes "host_reaches P (db, cs)" and "swarm_of_member db a s = Some sw"
    and "DeleteSwarm no_faults now a s db = (db', res)"
  shows "if has_catalogue db s
    then db' = db \<and> res = Inl (DirStore (StoreSql StDeleteSwarm SqlForeignKey))
    else res = Inr () \<and> \<not> has_swarm db' s \<and> \<not> swarm_referenced db' s \<and> hd_creds db' = hd_creds db"
proof -
  have own: "own_swarm cs (hd_invitations db) (hd_enrolled db)"
    using admits_reached [OF assms(1)] by (simp add: admits_db_def)
  have has: "has_swarm (emptied s db) s"
    using assms(2) by (auto simp add: swarm_of_member_def has_swarm_def emptied_def split: option.splits)
  note run = DeleteSwarm_no_faults [OF own assms(2), of now]
  show ?thesis
  proof (cases "has_catalogue db s")
    case True
    then have "delete_swarm_row s (emptied s db) = Inl SqlForeignKey"
      using has by (simp add: delete_swarm_row_def emptied_referenced)
    then show ?thesis
      using True run assms(3) by (simp add: run_def sql_run_def settle_def)
  next
    case False
    let ?d = "emptied s db\<lparr>hd_swarms := tab_delete (\<lambda>k. k = s) (hd_swarms (emptied s db))\<rparr>"
    have row: "delete_swarm_row s (emptied s db) = Inr ?d"
      using False by (simp add: delete_swarm_row_def emptied_referenced)
    have "\<not> swarm_referenced (emptied s db) s"
      using False by (simp add: emptied_referenced)
    then have "\<not> swarm_referenced ?d s"
      unfolding swarm_referenced_def by simp
    moreover have "\<not> has_swarm ?d s" "hd_creds ?d = hd_creds db"
      by (simp_all add: has_swarm_def tab_delete_lookup emptied_def)
    moreover have "db' = record_event no_faults EventSwarmDeleted now s a '''' ?d" "res = Inr ()"
      using run assms(3) by (simp_all add: run_def sql_run_def settle_def row)
    ultimately show ?thesis
      using False by (simp add: swarm_referenced_def has_swarm_def)
  qed
qed

theorem catalogue_blocks_deletion_witness:
  "DeleteSwarm no_faults 6 owner_id swarm_id catalogued_db =
    (catalogued_db, Inl (DirStore (StoreSql StDeleteSwarm SqlForeignKey)))"
  using catalogue_blocks_deletion [OF catalogued_reached catalogued_db_eq(1) prod.collapse [symmetric], of 6]
    catalogued_db_eq(2) by (simp add: prod_eq_iff)

text \<open>C13: with a working database a publication is accepted exactly when the presented token is the
  Bridge's current one, the manifest is valid, the Bridge is an active member of its Swarm and
  the manifest carries the alias the Host computes, and the revision and the number of items fit
  their columns; which revision is stored already does not matter.  Accepted, it answers with the
  new snapshot, and the tables hold that snapshot and exactly the manifest's items.\<close>

theorem publish_exact:
  assumes "schema_ok db"
    and "PublishInventory C no_faults now b t m name db = (db', res)"
  shows "((\<exists>snap. res = Inr snap) \<longleftrightarrow>
      Authenticate (dir_verifier C no_faults) (hd_creds db) b t = None \<and> manifest_Validate (hc_sha C) m = None \<and>
      (\<exists>r w. map_of (hd_enrolled db) (b, mf_Swarm m) = Some r \<and> map_of (hd_swarms db) (mf_Swarm m) = Some w \<and>
        active_member r \<and> AliasFor (hc_hmac C) (hsw_alias_key w) (mf_Swarm m) b = Inr (mf_Alias m)) \<and>
      unat (mf_Revision m) < 2 ^ 63 \<and> int4 (int (length (mf_Items m)))) \<and>
    (\<forall>snap. res = Inr snap \<longrightarrow> snap = snapshot_of db b m now \<and>
      hd_snapshots db' = hd_snapshots (replaced b (mf_Swarm m) m now db) \<and>
      hd_items db' = hd_items (replaced b (mf_Swarm m) m now db))"
proof -
  let ?checks = "publish_checks C no_faults b m db = Inr ()"
  let ?auth = "Authenticate (dir_verifier C no_faults) (hd_creds db) b t = None"
  let ?fits = "unat (mf_Revision m) < 2 ^ 63 \<and> int4 (int (length (mf_Items m)))"
  have refs: "has_bridge db b \<and> has_swarm db (mf_Swarm m) \<and> distinct (map it_FileID (mf_Items m))" if ?checks
  proof -
    obtain r w where "map_of (hd_enrolled db) (b, mf_Swarm m) = Some r" "map_of (hd_swarms db) (mf_Swarm m) = Some w"
      "manifest_Validate (hc_sha C) m = None"
      using \<open>?checks\<close> unfolding publish_checks_Inr by blast
    then show ?thesis
      using assms(1) by (auto simp add: schema_defs refs_in_def has_ids has_swarm_def manifest_Validate_iff
          dest!: map_of_SomeD)
  qed
  have stored: "Replace no_faults b (mf_Swarm m) m now db = Inr d \<longleftrightarrow> ?fits \<and> d = replaced b (mf_Swarm m) m now db"
    if ?checks for d
    using refs [OF that] by (auto simp add: Replace_Inr replace_refused_def)
  have ok: "res = Inr (snapshot_of db b m now)" if ?auth ?checks ?fits
    using PublishInventory_stored [OF that(1,2), where name = name and now = now] stored [OF that(2)] assms(2) that by simp
  have iff: "(\<exists>snap. res = Inr snap) \<longleftrightarrow> ?auth \<and> ?checks \<and> ?fits"
  proof
    assume "\<exists>snap. res = Inr snap"
    then show "?auth \<and> ?checks \<and> ?fits"
      by (cases rule: PublishInventory_state [OF assms(2)]) (auto simp add: stored)
  qed (use ok in blast)
  then have first: "(\<exists>snap. res = Inr snap) \<longleftrightarrow> ?auth \<and> manifest_Validate (hc_sha C) m = None \<and>
      (\<exists>r w. map_of (hd_enrolled db) (b, mf_Swarm m) = Some r \<and> map_of (hd_swarms db) (mf_Swarm m) = Some w \<and>
        active_member r \<and> AliasFor (hc_hmac C) (hsw_alias_key w) (mf_Swarm m) b = Inr (mf_Alias m)) \<and> ?fits"
    unfolding publish_checks_Inr by blast
  have "snap = snapshot_of db b m now \<and>
      hd_snapshots db' = hd_snapshots (replaced b (mf_Swarm m) m now db) \<and>
      hd_items db' = hd_items (replaced b (mf_Swarm m) m now db)" if res: "res = Inr snap" for snap
  proof -
    have all: "?auth" "?checks" "?fits"
      using iff res by blast+
    have "hd_snapshots db' = hd_snapshots (replaced b (mf_Swarm m) m now db) \<and>
        hd_items db' = hd_items (replaced b (mf_Swarm m) m now db)"
      using res by (cases rule: PublishInventory_state [OF assms(2)]) (auto simp add: applyName_other Replace_Inr)
    then show ?thesis
      using ok [OF all] res by simp
  qed
  then show ?thesis
    using first by blast
qed

text \<open>A Bridge's publication touches nothing of anybody else: whatever its outcome and whatever the
  database refuses, the accounts, Swarms, members, invitations, catalogues and credentials, every
  other Bridge's membership and inventory in any Swarm, and the Bridge's own in any other Swarm
  are what they were.\<close>

theorem publish_isolated:
  assumes "PublishInventory C flt now b t m name db = (db', res)"
    and "k \<noteq> (b, mf_Swarm m)"
  shows "map_of (hd_enrolled db') k = map_of (hd_enrolled db) k \<and>
    map_of (hd_snapshots db') k = map_of (hd_snapshots db) k \<and>
    map_of (hd_items db') (fst k, snd k, f) = map_of (hd_items db) (fst k, snd k, f) \<and>
    hd_accounts db' = hd_accounts db \<and> hd_swarms db' = hd_swarms db \<and> hd_members db' = hd_members db \<and>
    hd_invitations db' = hd_invitations db \<and> hd_catalogues db' = hd_catalogues db \<and> hd_creds db' = hd_creds db"
proof (cases rule: PublishInventory_state [OF assms(1)])
  case 1
  then show ?thesis
    by auto
next
  case (2 d)
  then have d: "d = replaced b (mf_Swarm m) m now db"
    by (simp add: Replace_Inr)
  have "\<not> (fst k = b \<and> snd k = mf_Swarm m)"
    using assms(2) by (cases k) auto
  then have "map_of (hd_snapshots d) k = map_of (hd_snapshots db) k \<and>
      map_of (hd_items d) (fst k, snd k, f) = map_of (hd_items db) (fst k, snd k, f)"
    unfolding d replaced_items using assms(2) by (auto simp add: replaced_def)
  moreover have "hd_enrolled d = hd_enrolled db" "hd_accounts d = hd_accounts db" "hd_swarms d = hd_swarms db"
    "hd_members d = hd_members db" "hd_invitations d = hd_invitations db" "hd_catalogues d = hd_catalogues db"
    "hd_creds d = hd_creds db"
    by (simp_all add: d replaced_def)
  ultimately show ?thesis
    using assms(2) by (simp add: 2(4) applyName_other)
qed

text \<open>A name the owner gave a Bridge is the owner's: through any sequence of calls in which the owner
  does not name the Bridge again, remove it or delete the Swarm, it stays, whatever names the
  Bridge publishes with or without an inventory and whatever else happens to its credential.\<close>

theorem host_name_stays:
  assumes "host_named k n db" and "\<forall>x \<in> set calls. \<not> renames k (snd x)"
  shows "host_named k n (foldl (host_exec P) db calls)"
  using assms by (induction calls arbitrary: db) (auto simp add: named_exec)

theorem host_name_stays_witness:
  "let db = host_exec sample_host enrolled_db (quiet, OpSetDisplayName swarm_id bridge_id ''Attic'');
       calls = [(quiet, OpPublishName 9 bridge_id ''token'' swarm_id ''Mine''), (quiet, OpRevokeBridge 10 bridge_id ''lost'')]
   in host_named (bridge_id, swarm_id) ''Attic'' (foldl (host_exec sample_host) db calls)"
  unfolding Let_def
  by (rule host_name_stays)
    (simp_all add: SetBridgeDisplayName_def settle_def run_def sql_run_def host_named_def enrolled_db_def tab_update_def)

lemma tab_update_entry:
  "(j, q) \<in> set (tab_update (\<lambda>_. p) g xs) \<Longrightarrow> \<exists>q0. (j, q0) \<in> set xs \<and> q = (if p q0 then g q0 else q0)"
  by (auto simp add: tab_update_def split: if_splits prod.splits)

text \<open>A redemption that fails after it took the last use of an invitation has spent it: nobody can
  redeem that code again, although no Bridge need have been admitted with it.\<close>

theorem failed_redemption_spends_use:
  assumes "schema_ok db" and "RedeemInvitation C flt now token code pk db = (db', Inl e)"
    and "e \<noteq> ErrInvitationInvalid" and "e \<noteq> DirStore (StoreSql StRedeem SqlRefused)"
    and "(i, r) \<in> set (hd_invitations db)" and "hin_code_hash r = secret_hash C code"
    and "hin_use_count r + 1 = hin_max_uses r"
  shows "RedeemInvitation C no_faults now' token' code pk' db' = (db', Inl ErrInvitationInvalid)"
proof -
  let ?p = "redeemable db (secret_hash C code) (host_time db now)"
  obtain c d where claim: "redeem_claim C flt now code db = (d, Inr c)" and db': "db' = fst (redeem_enrol C flt now token pk c d)"
    using assms(2-4) by (auto simp add: RedeemInvitation_def redeem_claim_def run_def sql_run_def Let_def
        split: sum.splits prod.splits option.splits if_splits)
  obtain i0 r0 where r0: "List.find (\<lambda>(i, r). ?p r) (hd_invitations db) = Some (i0, r0)"
    and d: "hd_invitations d = tab_update (\<lambda>_. ?p) (\<lambda>q. q\<lparr>hin_use_count := hin_use_count q + 1\<rparr>) (hd_invitations db)"
    using claim by (auto simp add: redeem_claim_def Let_def split: sum.splits option.splits)
  have only: "(j, q) = (i, r)" if "(j, q) \<in> set (hd_invitations db)" "hin_code_hash q = secret_hash C code" for j q
  proof -
    have "inj_on (hin_code_hash \<circ> snd) (set (hd_invitations db))"
      using assms(1) by (simp add: schema_defs distinct_map)
    from inj_onD [OF this, of "(j, q)" "(i, r)"] show ?thesis
      using that assms(5,6) by simp
  qed
  have "(i0, r0) \<in> set (hd_invitations db) \<and> ?p r0"
    using r0 by (auto simp add: find_Some_iff) (metis nth_mem)
  then have p: "?p r"
    using only [of i0 r0] by (auto simp add: redeemable_def)
  have inv: "hd_invitations db' = hd_invitations d"
    using redeem_enrol_adm [of C flt now token pk "fst c" "fst (snd c)" "snd (snd c)" d]
    by (auto simp add: db' adm_def)
  have spent: "\<not> redeemable db' (secret_hash C code) at q" if mem: "(j, q) \<in> set (hd_invitations db')" for j q at
  proof
    assume q: "redeemable db' (secret_hash C code) at q"
    obtain q0 where q0: "(j, q0) \<in> set (hd_invitations db)" "q = (if ?p q0 then q0\<lparr>hin_use_count := hin_use_count q0 + 1\<rparr> else q0)"
      using mem unfolding inv d by (elim exE conjE tab_update_entry [elim_format])
    then have "q0 = r"
      using only [of j q0] q by (auto simp add: redeemable_def split: if_splits)
    then show False
      using q q0 p assms(7) by (simp add: redeemable_def)
  qed
  have "List.find (\<lambda>(i, q). redeemable db' (secret_hash C code) (host_time db' now') q) (hd_invitations db') = None"
    using spent by (auto simp add: find_None_iff)
  then show ?thesis
    by (simp add: RedeemInvitation_def redeem_claim_def Let_def run_def sql_run_def)
qed

theorem failed_redemption_spends_use_witness:
  "RedeemInvitation sample_crypto no_faults 9 ''other'' ''code'' [2]
     (fst (RedeemInvitation sample_crypto (\<lambda>st. st = StEnsureBridge) 4 ''token'' ''code'' [1] sample_db)) =
   (fst (RedeemInvitation sample_crypto (\<lambda>st. st = StEnsureBridge) 4 ''token'' ''code'' [1] sample_db), Inl ErrInvitationInvalid)"
proof -
  let ?flt = "\<lambda>st. st = StEnsureBridge"
  have "redeem_claim sample_crypto ?flt 4 ''code'' sample_db = redeem_claim sample_crypto quiet 4 ''code'' sample_db"
    by (simp add: redeem_claim_def run_def sql_run_def)
  then have "RedeemInvitation sample_crypto ?flt 4 ''token'' ''code'' [1] sample_db =
      (claimed_db, Inl (DirStore (StoreBridge ''hoststore: ensuring bridge'')))"
    by (simp add: RedeemInvitation_def claim_sample redeem_enrol_def alias_sample Let_def)
  note failed = this
  have "schema_ok sample_db"
    using schema_reached [OF host_reaches_calls [of sample_host "\<lambda>t. t" sample_calls]] by (simp add: sample_calls_run)
  then show ?thesis
    unfolding failed fst_conv
    by (rule failed_redemption_spends_use [OF _ failed, of invite_id "invite_row 0"])
      (simp_all add: sample_db_def invite_row_def)
qed

text \<open>The check of \<open>BootstrapOwner\<close> and its insertion are two statements: two requests that both
  checked before either inserted create two owners.\<close>

lemma owner_check_races:
  assumes "OwnerExists flt db = Inr False"
    and "insert_owner C flt t1 i1 salt1 u1 d1 e1 p1 db = (db1, Inr i1)"
    and "u2 \<noteq> u1" and "i2 \<notin> ids (hd_accounts db1)" and "\<forall>x \<in> set (hd_accounts db). hac_username (snd x) \<noteq> u2"
    and "host_hashPassword (hc_argon_version C) (hc_argon C) salt2 p2 = Some h"
  shows "\<exists>db2. insert_owner C no_faults t2 i2 salt2 u2 d2 e2 p2 db1 = (db2, Inr i2) \<and>
    length (filter (\<lambda>x. hac_is_owner (snd x)) (hd_accounts db2)) = 2"
proof -
  obtain a where a: "hd_accounts db1 = hd_accounts db @ [(i1, a)]" "hac_username a = u1" "hac_is_owner a"
    using assms(2) by (auto simp add: insert_owner_def op_effects insert_account_def tab_insert_Inr
        split: option.splits if_splits)
  have none: "filter (\<lambda>x. hac_is_owner (snd x)) (hd_accounts db) = []"
    using assms(1) by (auto simp add: OwnerExists_def run_def sql_run_def filter_empty_conv split: if_splits)
  have free: "\<not> (\<exists>(j, b) \<in> set (hd_accounts db1). hac_username b = u2)"
    using assms(3,5) by (auto simp add: a)
  have "map_of (hd_accounts db1) i2 = None"
    using assms(4) by (simp add: map_of_ids)
  then show ?thesis
    using free by (simp add: insert_owner_def assms(6) settle_def run_def sql_run_def insert_account_def tab_insert_def a none)
qed

lemma enrolled_schema: "schema_ok enrolled_db"
proof -
  have "host_reaches sample_host (sample_db, [])"
    using host_reaches_calls [of sample_host "\<lambda>t. t" sample_calls] by (simp add: sample_calls_run)
  from host_reaches_call [OF this, of quiet "OpRedeemInvitation 4 ''token'' ''code'' [1]"]
  show ?thesis
    using schema_reached by (fastforce simp add: sample_host_def redeem_sample)
qed

definition empty_manifest :: Manifest where
  "empty_manifest = \<lparr>mf_SchemaVersion = ManifestSchema, mf_Swarm = swarm_id, mf_Alias = alias_of bridge_id,
     mf_Revision = 1, mf_GeneratedAt = 5, mf_Items = [], mf_Fingerprints = Map.empty\<rparr>"

theorem publish_exact_witness:
  "\<exists>snap. snd (PublishInventory sample_crypto no_faults 6 bridge_id ''token'' empty_manifest '''' enrolled_db) = Inr snap"
proof -
  have "validate ''swm'' swarm_id = None"
    by code_simp
  moreover have "validate prefixAlias (alias_of bridge_id) = None"
    by (simp add: alias_of_def validate_accepts sample_crypto_def idBytes_def)
  ultimately have "manifest_Validate (hc_sha sample_crypto) empty_manifest = None"
    by (simp add: manifest_Validate_def empty_manifest_def revision_IsZero_def)
  moreover have "Authenticate (dir_verifier sample_crypto no_faults) (hd_creds enrolled_db) bridge_id ''token'' = None"
    by (simp add: Authenticate_def dir_verifier_def enrolled_db_def family_of_def bridge_cred_Load_def secret_hash_def
        equalHash_def token_Hash_def)
  ultimately show ?thesis
    using publish_exact [OF enrolled_schema prod.collapse [symmetric], of sample_crypto 6 bridge_id "''token''" empty_manifest "''''"]
    by (simp add: empty_manifest_def enrolled_db_def claimed_db_def sample_db_def active_member_def alias_sample int4_def)
qed

theorem publish_isolated_witness:
  "map_of (hd_enrolled (fst (PublishInventory sample_crypto no_faults 6 bridge_id ''token'' empty_manifest '''' enrolled_db)))
     (bridge_id, ''elsewhere'') = None"
proof -
  have "''elsewhere'' \<noteq> swarm_id"
    by (simp add: swarm_id_def)
  then have "(bridge_id, ''elsewhere'') \<noteq> (bridge_id, mf_Swarm empty_manifest)"
    by (simp add: empty_manifest_def)
  from publish_isolated [OF prod.collapse [symmetric] this, of sample_crypto no_faults 6 "''token''" "''''" enrolled_db "''''"]
  have "map_of (hd_enrolled (fst (PublishInventory sample_crypto no_faults 6 bridge_id ''token'' empty_manifest '''' enrolled_db)))
      (bridge_id, ''elsewhere'') = map_of (hd_enrolled enrolled_db) (bridge_id, ''elsewhere'')"
    by (elim conjE)
  then show ?thesis
    using \<open>''elsewhere'' \<noteq> swarm_id\<close> by (simp add: enrolled_db_def)
qed

end
