(* ===== verification/RommSpec.thy ===== *)
theory RommSpec
  imports Ids Catalogue
begin

text \<open>
  The capabilities of a RomM server as it documents them, \<open>src/bridge/romm/\<close> \<open>openapi.go\<close> and
  \<open>capability.go\<close>, over JSON values.  What \<open>encoding/json\<close> reads in a text is a parameter; how it
  fills the program's types from the value it read is written out here.  A number is what the code
  reads of a \<open>float64\<close>: its decimal text and its conversion to an integer.  The members of an object
  are in the order of the text, and of two with the same name the last one counts.
\<close>

section \<open>JSON values\<close>

record json_number =
  jn_text :: string
  jn_int :: int

datatype json =
    JNull
  | JBool bool
  | JNum json_number
  | JStr string
  | JArr "json list"
  | JObj "(string \<times> json) list"

definition json_member :: "(string \<times> json) list \<Rightarrow> string \<Rightarrow> json option" where
  "json_member ms k = map_of (rev ms) k"

text \<open>\<open>json.Unmarshal\<close> into \<open>map[string]any\<close> and into \<open>[]map[string]any\<close>, where \<open>None\<close> in the list
  is a nil map.\<close>

fun as_object :: "json \<Rightarrow> (string \<times> json) list option" where
  "as_object (JObj ms) = Some ms"
| "as_object JNull = Some []"
| "as_object _ = None"

fun element_object :: "json \<Rightarrow> (string \<times> json) list option option" where
  "element_object (JObj ms) = Some (Some ms)"
| "element_object JNull = Some None"
| "element_object _ = None"

fun as_objects :: "json \<Rightarrow> (string \<times> json) list option list option" where
  "as_objects (JArr vs) = those (map element_object vs)"
| "as_objects JNull = Some []"
| "as_objects _ = None"

text \<open>The type assertion \<open>v.(map[string]any)\<close>.\<close>

fun object_of :: "json \<Rightarrow> (string \<times> json) list option" where
  "object_of (JObj ms) = Some ms"
| "object_of _ = None"

text \<open>\<open>json.Unmarshal\<close> into the structs of \<open>openapi.go\<close>: a member belongs to the field of its name,
  in any case; \<open>null\<close> leaves a string or a struct as it is and empties a slice or a map; a value
  of another type is an error, which ends in \<open>None\<close>.\<close>

definition dec_string :: "string \<Rightarrow> json \<Rightarrow> string option" where
  "dec_string old v = (case v of JStr s \<Rightarrow> Some s | JNull \<Rightarrow> Some old | _ \<Rightarrow> None)"

definition dec_slice :: "('r \<Rightarrow> json \<Rightarrow> 'r option) \<Rightarrow> 'r \<Rightarrow> json \<Rightarrow> 'r list option" where
  "dec_slice dec zero v = (case v of JArr vs \<Rightarrow> those (map (dec zero) vs) | JNull \<Rightarrow> Some [] | _ \<Rightarrow> None)"

definition dec_members :: "('r \<Rightarrow> string \<Rightarrow> json \<Rightarrow> 'r option) \<Rightarrow> 'r \<Rightarrow> (string \<times> json) list \<Rightarrow> 'r option" where
  "dec_members f r ms = foldl (\<lambda>a (k, v). Option.bind a (\<lambda>r. f r k v)) (Some r) ms"

definition dec_struct :: "('r \<Rightarrow> string \<Rightarrow> json \<Rightarrow> 'r option) \<Rightarrow> 'r \<Rightarrow> json \<Rightarrow> 'r option" where
  "dec_struct f old v = (case v of JObj ms \<Rightarrow> dec_members f old ms | JNull \<Rightarrow> Some old | _ \<Rightarrow> None)"

definition dec_map :: "('r \<Rightarrow> json \<Rightarrow> 'r option) \<Rightarrow> 'r \<Rightarrow> (string \<times> 'r) list \<Rightarrow> json \<Rightarrow> (string \<times> 'r) list option" where
  "dec_map dec zero old v =
     (case v of
        JObj ms \<Rightarrow> dec_members (\<lambda>m k v. map_option (\<lambda>x. al_put k x m) (dec zero v)) old ms
      | JNull \<Rightarrow> Some []
      | _ \<Rightarrow> None)"

section \<open>The OpenAPI document\<close>

record Parameter =
  pm_Name :: string
  pm_In :: string

record Operation =
  op_OperationID :: string
  op_Summary :: string
  op_Tags :: "string list"
  op_Parameters :: "Parameter list"
  op_Security :: "(string \<times> string list) list list"

type_synonym PathItem = "(string \<times> Operation) list"

record SpecInfo =
  si_Title :: string
  si_Version :: string

record Spec =
  sp_OpenAPI :: string
  sp_Info :: SpecInfo
  sp_Paths :: "(string \<times> PathItem) list"

definition dec_parameter :: "Parameter \<Rightarrow> json \<Rightarrow> Parameter option" where
  "dec_parameter = dec_struct (\<lambda>p k v.
     if EqualFold k ''name'' then map_option (\<lambda>s. p\<lparr>pm_Name := s\<rparr>) (dec_string (pm_Name p) v)
     else if EqualFold k ''in'' then map_option (\<lambda>s. p\<lparr>pm_In := s\<rparr>) (dec_string (pm_In p) v)
     else Some p)"

definition dec_operation :: "Operation \<Rightarrow> json \<Rightarrow> Operation option" where
  "dec_operation = dec_struct (\<lambda>r k v.
     if EqualFold k ''operationId'' then map_option (\<lambda>s. r\<lparr>op_OperationID := s\<rparr>) (dec_string (op_OperationID r) v)
     else if EqualFold k ''summary'' then map_option (\<lambda>s. r\<lparr>op_Summary := s\<rparr>) (dec_string (op_Summary r) v)
     else if EqualFold k ''tags'' then map_option (\<lambda>s. r\<lparr>op_Tags := s\<rparr>) (dec_slice dec_string '''' v)
     else if EqualFold k ''parameters''
       then map_option (\<lambda>s. r\<lparr>op_Parameters := s\<rparr>) (dec_slice dec_parameter \<lparr>pm_Name = '''', pm_In = ''''\<rparr> v)
     else if EqualFold k ''security''
       then map_option (\<lambda>s. r\<lparr>op_Security := s\<rparr>)
         (dec_slice (dec_map (\<lambda>_. dec_slice dec_string '''') []) [] v)
     else Some r)"

definition zero_operation :: Operation where
  "zero_operation = \<lparr>op_OperationID = '''', op_Summary = '''', op_Tags = [], op_Parameters = [], op_Security = []\<rparr>"

definition dec_info :: "SpecInfo \<Rightarrow> json \<Rightarrow> SpecInfo option" where
  "dec_info = dec_struct (\<lambda>r k v.
     if EqualFold k ''title'' then map_option (\<lambda>s. r\<lparr>si_Title := s\<rparr>) (dec_string (si_Title r) v)
     else if EqualFold k ''version'' then map_option (\<lambda>s. r\<lparr>si_Version := s\<rparr>) (dec_string (si_Version r) v)
     else Some r)"

definition dec_spec :: "Spec \<Rightarrow> json \<Rightarrow> Spec option" where
  "dec_spec = dec_struct (\<lambda>r k v.
     if EqualFold k ''openapi'' then map_option (\<lambda>s. r\<lparr>sp_OpenAPI := s\<rparr>) (dec_string (sp_OpenAPI r) v)
     else if EqualFold k ''info'' then map_option (\<lambda>s. r\<lparr>sp_Info := s\<rparr>) (dec_info (sp_Info r) v)
     else if EqualFold k ''paths''
       then map_option (\<lambda>s. r\<lparr>sp_Paths := s\<rparr>) (dec_map (dec_map dec_operation zero_operation) [] (sp_Paths r) v)
     else Some r)"

definition zero_spec :: Spec where
  "zero_spec = \<lparr>sp_OpenAPI = '''', sp_Info = \<lparr>si_Title = '''', si_Version = ''''\<rparr>, sp_Paths = []\<rparr>"

datatype spec_error = SpecUnreadable | SpecNoPaths

definition ParseSpec :: "json option \<Rightarrow> spec_error + Spec" where
  "ParseSpec raw =
     (case Option.bind raw (dec_spec zero_spec) of
        None \<Rightarrow> Inl SpecUnreadable
      | Some s \<Rightarrow> if sp_Paths s = [] then Inl SpecNoPaths else Inr s)"

text \<open>\<open>strings.Join\<close>.\<close>

fun join_strings :: "string \<Rightarrow> string list \<Rightarrow> string" where
  "join_strings sep [] = ''''"
| "join_strings sep [s] = s"
| "join_strings sep (s # t # ss) = s @ sep @ join_strings sep (t # ss)"

definition templated :: "string \<Rightarrow> bool" where
  "templated seg = (has_prefix seg ''{'' \<and> has_suffix seg ''}'')"

definition NormalizePath :: "string \<Rightarrow> string" where
  "NormalizePath p =
     join_strings ''/'' (map (\<lambda>seg. if templated seg then ''*'' else seg) (split_char CHR ''/'' p))"

record OperationRef =
  or_Method :: string
  or_Path :: string
  or_Normalized :: string
  or_Operation :: Operation

definition methods :: "string list" where
  "methods = [''GET'', ''POST'', ''PUT'', ''PATCH'', ''DELETE'', ''HEAD'', ''OPTIONS'']"

definition op_less :: "OperationRef \<Rightarrow> OperationRef \<Rightarrow> bool" where
  "op_less a b = (if or_Path a \<noteq> or_Path b then or_Path a < or_Path b else or_Method a < or_Method b)"

definition path_operations :: "string \<Rightarrow> PathItem \<Rightarrow> OperationRef list" where
  "path_operations path item = List.map_filter (\<lambda>(method, oper).
     if to_upper method \<in> set methods
     then Some \<lparr>or_Method = to_upper method, or_Path = path, or_Normalized = NormalizePath path, or_Operation = oper\<rparr>
     else None) item"

definition Operations :: "OperationRef sorter \<Rightarrow> Spec \<Rightarrow> OperationRef list" where
  "Operations srt s = srt op_less (concat (map (\<lambda>(path, item). path_operations path item) (sp_Paths s)))"

definition HasQueryParam :: "Operation \<Rightarrow> string \<Rightarrow> bool" where
  "HasQueryParam o' name = list_ex (\<lambda>p. pm_In p = ''query'' \<and> EqualFold (pm_Name p) name) (op_Parameters o')"

section \<open>The capability table\<close>

type_synonym Candidate = "string \<times> string"

record Requirement =
  rq_ID :: string
  rq_Summary :: string
  rq_Needs :: string
  rq_Required :: bool
  rq_Candidates :: "Candidate list"
  rq_WantsQueryParams :: "string list"

definition Requirements :: "Requirement list" where
  "Requirements = [
     \<lparr>rq_ID = ''server.version'',
       rq_Summary = ''report the server's version and health'',
       rq_Needs = ''Confirm supported RomM versions and relevant API endpoints'',
       rq_Required = True,
       rq_Candidates = [(''GET'', ''/api/heartbeat''), (''GET'', ''/api/system/heartbeat''), (''GET'', ''/api/stats''),
         (''GET'', ''/heartbeat'')],
       rq_WantsQueryParams = []\<rparr>,
     \<lparr>rq_ID = ''platforms.list'',
       rq_Summary = ''enumerate the platforms in the library'',
       rq_Needs = ''Confirm available hashes, metadata identifiers, file sizes, and platform identifiers'',
       rq_Required = True,
       rq_Candidates = [(''GET'', ''/api/platforms'')],
       rq_WantsQueryParams = []\<rparr>,
     \<lparr>rq_ID = ''roms.list'',
       rq_Summary = ''enumerate ROMs with pagination'',
       rq_Needs = ''Complete inventory fetch with pagination; prototype a normalized local inventory manifest'',
       rq_Required = True,
       rq_Candidates = [(''GET'', ''/api/roms'')],
       rq_WantsQueryParams = [''limit'', ''offset'', ''platform_id'']\<rparr>,
     \<lparr>rq_ID = ''roms.detail'',
       rq_Summary = ''read one ROM's metadata, hashes, and file size'',
       rq_Needs = ''Confirm available hashes, metadata identifiers, file sizes, and platform identifiers'',
       rq_Required = True,
       rq_Candidates = [(''GET'', ''/api/roms/*'')],
       rq_WantsQueryParams = []\<rparr>,
     \<lparr>rq_ID = ''roms.download'',
       rq_Summary = ''download a ROM's content'',
       rq_Needs = ''Prove API-only mode: download, local staging and verification'',
       rq_Required = True,
       rq_Candidates = [(''GET'', ''/api/roms/*/content/*''), (''GET'', ''/api/roms/*/content''),
         (''GET'', ''/api/roms/*/download'')],
       rq_WantsQueryParams = []\<rparr>,
     \<lparr>rq_ID = ''roms.upload'',
       rq_Summary = ''start a chunked ROM upload session using a scoped standard-user token'',
       rq_Needs = ''Verify standard-user Client API Token behavior for roms.write upload without administrator access; '' @
         ''prove API-only mode chunked upload to RomM'',
       rq_Required = True,
       rq_Candidates = [(''POST'', ''/api/roms/upload/start''), (''POST'', ''/api/roms''), (''PUT'', ''/api/roms'')],
       rq_WantsQueryParams = []\<rparr>,
     \<lparr>rq_ID = ''identity.self'',
       rq_Summary = ''report the authenticated user and the scopes the token carries'',
       rq_Needs = ''Verify standard-user Client API Token behavior without administrator access'',
       rq_Required = True,
       rq_Candidates = [(''GET'', ''/api/users/me''), (''GET'', ''/api/me''), (''GET'', ''/api/users/current'')],
       rq_WantsQueryParams = []\<rparr>,
     \<lparr>rq_ID = ''roms.scan'',
       rq_Summary = ''ask the server to rescan the library'',
       rq_Needs = ''Define the RomM ingestion state machine and timeout behavior'',
       rq_Required = False,
       rq_Candidates = [(''POST'', ''/api/scan''), (''POST'', ''/api/platforms/*/scan''), (''GET'', ''/api/scan'')],
       rq_WantsQueryParams = []\<rparr>,
     \<lparr>rq_ID = ''roms.search'',
       rq_Summary = ''search the library, so ingestion can be confirmed without a full rescan'',
       rq_Needs = ''RomM ingestion and expected-identity reconciliation'',
       rq_Required = False,
       rq_Candidates = [(''GET'', ''/api/roms'')],
       rq_WantsQueryParams = [''search_term'']\<rparr>]"

record CapabilityResult =
  cr_ID :: string
  cr_Summary :: string
  cr_Needs :: string
  cr_Required :: bool
  cr_Found :: bool
  cr_Method :: string
  cr_Path :: string
  cr_OperationID :: string
  cr_MissingQueryParams :: "string list"
  cr_Tried :: "string list"

definition operation_index :: "OperationRef list \<Rightarrow> string \<rightharpoonup> OperationRef" where
  "operation_index ops = foldl (\<lambda>m r. m(or_Method r @ '' '' @ or_Normalized r \<mapsto> r)) Map.empty ops"

definition unmatched :: "Requirement \<Rightarrow> CapabilityResult" where
  "unmatched req = \<lparr>cr_ID = rq_ID req, cr_Summary = rq_Summary req, cr_Needs = rq_Needs req,
     cr_Required = rq_Required req, cr_Found = False, cr_Method = '''', cr_Path = '''', cr_OperationID = '''',
     cr_MissingQueryParams = [], cr_Tried = map (\<lambda>(m, p). m @ '' '' @ p) (rq_Candidates req)\<rparr>"

fun match_candidates :: "(string \<rightharpoonup> OperationRef) \<Rightarrow> Requirement \<Rightarrow> Candidate list \<Rightarrow> CapabilityResult" where
  "match_candidates idx req [] = unmatched req"
| "match_candidates idx req ((m, p) # cs) =
     (case idx (to_upper m @ '' '' @ p) of
        None \<Rightarrow> match_candidates idx req cs
      | Some r \<Rightarrow> (unmatched req)\<lparr>cr_Found := True, cr_Method := or_Method r, cr_Path := or_Path r,
          cr_OperationID := op_OperationID (or_Operation r),
          cr_MissingQueryParams := filter (\<lambda>w. \<not> HasQueryParam (or_Operation r) w) (rq_WantsQueryParams req)\<rparr>)"

definition EvaluateCapabilities :: "OperationRef sorter \<Rightarrow> Spec \<Rightarrow> CapabilityResult list" where
  "EvaluateCapabilities srt spec =
     (let idx = operation_index (Operations srt spec) in
      sort_key cr_ID (map (\<lambda>req. match_candidates idx req (rq_Candidates req)) Requirements))"

definition MissingRequired :: "CapabilityResult list \<Rightarrow> CapabilityResult list" where
  "MissingRequired results = filter (\<lambda>r. cr_Required r \<and> \<not> cr_Found r) results"

section \<open>Paths\<close>

lemma join_split [simp]: "join_strings [c] (split_char c s) = s"
proof (induction s)
  case (Cons x s)
  obtain y ys where "split_char c s = y # ys"
    using split_char_nonempty by (cases "split_char c s") auto
  then show ?case
    using Cons.IH by (cases ys) auto
qed simp

lemma set_join: "seg \<in> set segs \<Longrightarrow> set seg \<subseteq> set (join_strings sep segs)"
  by (induction sep segs rule: join_strings.induct) auto

text \<open>A normal form without a wildcard is the path itself.\<close>

lemma NormalizePath_plain:
  assumes "CHR ''*'' \<notin> set (NormalizePath p)"
  shows "NormalizePath p = p"
proof -
  let ?f = "\<lambda>seg. if templated seg then ''*'' else seg"
  have "\<not> templated seg" if "seg \<in> set (split_char CHR ''/'' p)" for seg
  proof
    assume "templated seg"
    then have "''*'' \<in> set (map ?f (split_char CHR ''/'' p))"
      using that by force
    then show False
      using assms set_join unfolding NormalizePath_def by fastforce
  qed
  then have "map ?f (split_char CHR ''/'' p) = split_char CHR ''/'' p"
    by (intro map_idI) simp
  then show ?thesis
    by (simp add: NormalizePath_def)
qed

section \<open>What is resolved\<close>

lemma op_less_weak: "strict_weak op_less"
  unfolding op_less_def by (intro strict_weak_lex strict_weak_key)

lemma path_operations_set:
  "r \<in> set (path_operations p item) \<longleftrightarrow> (\<exists>k oper. (k, oper) \<in> set item \<and> to_upper k \<in> set methods \<and>
    r = \<lparr>or_Method = to_upper k, or_Path = p, or_Normalized = NormalizePath p, or_Operation = oper\<rparr>)"
proof
  assume "r \<in> set (path_operations p item)"
  then show "\<exists>k oper. (k, oper) \<in> set item \<and> to_upper k \<in> set methods \<and>
      r = \<lparr>or_Method = to_upper k, or_Path = p, or_Normalized = NormalizePath p, or_Operation = oper\<rparr>"
    unfolding path_operations_def set_map_filter by (clarsimp split: if_splits) metis
next
  assume "\<exists>k oper. (k, oper) \<in> set item \<and> to_upper k \<in> set methods \<and>
      r = \<lparr>or_Method = to_upper k, or_Path = p, or_Normalized = NormalizePath p, or_Operation = oper\<rparr>"
  then show "r \<in> set (path_operations p item)"
    unfolding path_operations_def set_map_filter by (elim exE conjE) (auto intro!: bexI [rotated])
qed

lemma Operations_set:
  assumes "sorts srt"
  shows "r \<in> set (Operations srt s) \<longleftrightarrow> (\<exists>p item k oper. (p, item) \<in> set (sp_Paths s) \<and> (k, oper) \<in> set item \<and>
    to_upper k \<in> set methods \<and>
    r = \<lparr>or_Method = to_upper k, or_Path = p, or_Normalized = NormalizePath p, or_Operation = oper\<rparr>)"
proof -
  have "set (Operations srt s) = set (concat (map (\<lambda>(p, item). path_operations p item) (sp_Paths s)))"
    unfolding Operations_def using assms op_less_weak unfolding sorts_def by (metis set_mset_mset)
  then show ?thesis
    by (force simp add: path_operations_set)
qed

lemma operation_index_Some:
  "operation_index ops key = Some r \<Longrightarrow> r \<in> set ops \<and> or_Method r @ '' '' @ or_Normalized r = key"
  by (induction ops rule: rev_induct) (auto simp add: operation_index_def split: if_splits)

lemma operation_index_None:
  "operation_index ops key = None \<longleftrightarrow> (\<forall>r\<in>set ops. or_Method r @ '' '' @ or_Normalized r \<noteq> key)"
  by (induction ops rule: rev_induct) (auto simp add: operation_index_def)

lemma method_key:
  assumes "m \<in> set methods" and "m' \<in> set methods" and "m @ '' '' @ p = m' @ '' '' @ p'"
  shows "m = m' \<and> p = p'"
  using assms by (auto simp add: methods_def)

text \<open>What a document says of a candidate.\<close>

definition documents :: "Spec \<Rightarrow> string \<Rightarrow> Candidate \<Rightarrow> bool" where
  "documents s path c = (NormalizePath path = snd c \<and>
     (\<exists>item. (path, item) \<in> set (sp_Paths s) \<and> (\<exists>(k, oper) \<in> set item. to_upper k = to_upper (fst c))))"

lemma indexed_documents:
  assumes "sorts srt" and "to_upper (fst c) \<in> set methods"
  shows "operation_index (Operations srt s) (to_upper (fst c) @ '' '' @ snd c) = Some r \<Longrightarrow>
      documents s (or_Path r) c \<and> or_Method r = to_upper (fst c)"
    and "operation_index (Operations srt s) (to_upper (fst c) @ '' '' @ snd c) = None \<Longrightarrow> \<not> documents s path c"
proof -
  assume "operation_index (Operations srt s) (to_upper (fst c) @ '' '' @ snd c) = Some r"
  then have r: "r \<in> set (Operations srt s)" "or_Method r @ '' '' @ or_Normalized r = to_upper (fst c) @ '' '' @ snd c"
    by (auto dest: operation_index_Some)
  then obtain p item k oper where p: "(p, item) \<in> set (sp_Paths s)" "(k, oper) \<in> set item" "to_upper k \<in> set methods"
    "r = \<lparr>or_Method = to_upper k, or_Path = p, or_Normalized = NormalizePath p, or_Operation = oper\<rparr>"
    unfolding Operations_set [OF assms(1)] by blast
  then have "to_upper k = to_upper (fst c) \<and> NormalizePath p = snd c"
    using r(2) method_key [OF p(3) assms(2)] by simp
  then show "documents s (or_Path r) c \<and> or_Method r = to_upper (fst c)"
    using p by (auto simp add: documents_def)
next
  assume none: "operation_index (Operations srt s) (to_upper (fst c) @ '' '' @ snd c) = None"
  show "\<not> documents s path c"
  proof
    assume "documents s path c"
    then obtain item k oper where d: "NormalizePath path = snd c" "(path, item) \<in> set (sp_Paths s)" "(k, oper) \<in> set item"
      "to_upper k = to_upper (fst c)"
      by (auto simp add: documents_def)
    then have "\<lparr>or_Method = to_upper k, or_Path = path, or_Normalized = NormalizePath path, or_Operation = oper\<rparr> \<in>
        set (Operations srt s)"
      unfolding Operations_set [OF assms(1)] using assms(2) by metis
    then show False
      using none d unfolding operation_index_None by force
  qed
qed

lemma match_candidates_spec:
  assumes "sorts srt" and "\<forall>c\<in>set cs. to_upper (fst c) \<in> set methods"
    and "r = match_candidates (operation_index (Operations srt s)) req cs"
  shows "cr_ID r = rq_ID req \<and> cr_Required r = rq_Required req \<and>
    (case List.find (\<lambda>c. \<exists>path. documents s path c) cs of
       None \<Rightarrow> \<not> cr_Found r \<and> cr_Path r = ''''
     | Some c \<Rightarrow> cr_Found r \<and> documents s (cr_Path r) c \<and> cr_Method r = to_upper (fst c))"
  using assms(2) unfolding assms(3)
proof (induction cs)
  case (Cons c cs)
  obtain m p where c: "c = (m, p)"
    by (cases c)
  show ?case
  proof (cases "operation_index (Operations srt s) (to_upper m @ '' '' @ p)")
    case None
    then have "\<not> (\<exists>path. documents s path c)"
      using indexed_documents(2) [OF assms(1), of c] Cons.prems c by auto
    then have "List.find (\<lambda>c. \<exists>path. documents s path c) (c # cs) = List.find (\<lambda>c. \<exists>path. documents s path c) cs"
      by simp
    moreover have "match_candidates (operation_index (Operations srt s)) req (c # cs) =
        match_candidates (operation_index (Operations srt s)) req cs"
      using None c by simp
    ultimately show ?thesis
      using Cons by (simp only:) simp
  next
    case (Some op)
    then have "documents s (or_Path op) c \<and> or_Method op = to_upper (fst c)"
      using indexed_documents(1) [OF assms(1), of c] Cons.prems c by auto
    then show ?thesis
      using Some unfolding c by (auto simp add: unmatched_def)
  qed
qed (simp add: unmatched_def)

lemma table_methods: "req \<in> set Requirements \<Longrightarrow> c \<in> set (rq_Candidates req) \<Longrightarrow> to_upper (fst c) \<in> set methods"
  by (auto simp add: Requirements_def methods_def to_upper_def upper_char_def)

text \<open>C38: a capability is resolved exactly when the server documents an operation of one of its
  candidates, and then it is resolved to a path the server wrote, whose shape is the first
  candidate that is documented; so every request the Bridge builds from a resolved capability goes
  to an operation the server itself names.\<close>

theorem capabilities_are_documented:
  assumes "sorts srt" and "r \<in> set (EvaluateCapabilities srt s)"
  shows "\<exists>req\<in>set Requirements. cr_ID r = rq_ID req \<and> cr_Required r = rq_Required req \<and>
    (case find (\<lambda>c. \<exists>path. documents s path c) (rq_Candidates req) of
       None \<Rightarrow> \<not> cr_Found r \<and> cr_Path r = ''''
     | Some c \<Rightarrow> cr_Found r \<and> documents s (cr_Path r) c \<and> cr_Method r = to_upper (fst c))"
proof -
  obtain req where req: "req \<in> set Requirements"
    "r = match_candidates (operation_index (Operations srt s)) req (rq_Candidates req)"
    using assms(2) by (auto simp add: EvaluateCapabilities_def)
  then show ?thesis
    using match_candidates_spec [OF assms(1) _ req(2)] table_methods by blast
qed

lemma dec_members_None:
  assumes "(k, v) \<in> set ms" and "\<And>r. f r k v = None"
  shows "dec_members f r ms = None"
proof -
  have stuck: "foldl (\<lambda>a (k, v). Option.bind a (\<lambda>r. f r k v)) None xs = None" for xs
    by (induction xs) auto
  obtain xs ys where "ms = xs @ (k, v) # ys"
    using split_list [OF assms(1)] by blast
  then show ?thesis
    using assms(2) stuck by (auto simp add: dec_members_def Option.bind_eq_None_conv)
qed

text \<open>A document in which any path has a member that is neither an operation nor null cannot be
  read: the shared \<open>parameters\<close> of a path, which are an array, make the whole document unreadable
  although \<open>Operations\<close> is written to pass over them.\<close>

theorem shared_parameters_unreadable:
  assumes "(k, JObj paths) \<in> set ms" and "EqualFold k ''paths''" and "(p, JObj item) \<in> set paths"
    and "(name, v) \<in> set item" and "v \<noteq> JNull" and "object_of v = None"
  shows "ParseSpec (Some (JObj ms)) = Inl SpecUnreadable"
proof -
  have "dec_operation r v = None" for r
    using assms(5,6) by (cases v) (auto simp add: dec_operation_def dec_struct_def)
  then have "dec_map dec_operation zero_operation [] (JObj item) = None"
    using assms(4) by (auto simp add: dec_map_def intro: dec_members_None)
  then have "dec_map (dec_map dec_operation zero_operation) [] old (JObj paths) = None" for old
    using assms(3) by (auto simp add: dec_map_def [of "dec_map dec_operation zero_operation"] intro: dec_members_None)
  moreover have "\<not> EqualFold k ''openapi''" and "\<not> EqualFold k ''info''"
    using assms(2) by (auto simp add: EqualFold_def to_lower_def lower_char_def)
  ultimately have "dec_spec zero_spec (JObj ms) = None"
    using assms(1,2) by (auto simp add: dec_spec_def dec_struct_def intro: dec_members_None)
  then show ?thesis
    by (simp add: ParseSpec_def)
qed

text \<open>A document with one path, whose parameters are shared by its operations or left out.\<close>

definition small_document :: "(string \<times> json) list \<Rightarrow> json" where
  "small_document shared = JObj [(''openapi'', JStr ''3.1.0''),
     (''paths'', JObj [(''/api/roms/{id}'', JObj (shared @ [(''get'', JObj [(''operationId'', JStr ''get_rom'')])]))])]"

theorem shared_parameters_unreadable_witness:
  "ParseSpec (Some (small_document [(''parameters'', JArr [])])) = Inl SpecUnreadable"
proof -
  let ?item = "[(''parameters'', JArr []), (''get'', JObj [(''operationId'', JStr ''get_rom'')])]"
  show ?thesis
    unfolding small_document_def
    by (rule shared_parameters_unreadable [of "''paths''" "[(''/api/roms/{id}'', JObj ?item)]" _ "''/api/roms/{id}''" ?item
          "''parameters''" "JArr []"])
      (simp_all add: EqualFold_def)
qed

lemma small_document_read: "\<exists>s. ParseSpec (Some (small_document [])) = Inr s"
  by (simp add: small_document_def ParseSpec_def dec_spec_def dec_struct_def dec_members_def dec_map_def
      dec_operation_def dec_string_def EqualFold_def to_lower_def lower_char_def zero_spec_def)

theorem capabilities_are_documented_witness:
  "\<exists>s r. ParseSpec (Some (small_document [])) = Inr s \<and> r \<in> set (EvaluateCapabilities insertion_sort s) \<and>
    (\<exists>req\<in>set Requirements. cr_ID r = rq_ID req)"
proof -
  obtain s where s: "ParseSpec (Some (small_document [])) = Inr s"
    using small_document_read by blast
  have "EvaluateCapabilities insertion_sort s \<noteq> []"
    by (simp add: EvaluateCapabilities_def Requirements_def Let_def)
  then obtain r where r: "r \<in> set (EvaluateCapabilities insertion_sort s)"
    by (meson last_in_set)
  show ?thesis
    using s r capabilities_are_documented [OF insertion_sort_sorts r] by blast
qed

end
