(* ===== verification/Romm.thy ===== *)
theory Romm
  imports RommSpec Analyze "HOL-Library.State_Monad"
begin

text \<open>
  The Bridge's client of one RomM server, \<open>src/bridge/romm/\<close> \<open>client.go\<close>, \<open>probe.go\<close>, \<open>connect.go\<close>,
  \<open>connection.go\<close> and \<open>platforms.go\<close>.  The server is a function of the requests it has received and of the
  new one, so it may answer the same request differently each time; the operations run in the
  state monad over the list of requests made so far.  A body is a stream of bytes with what
  \<open>encoding/json\<close> reads in its first 8 MiB, if anything, the limit up to which \<open>Get\<close> reads it.
\<close>

section \<open>Requests and answers\<close>

record request =
  rqt_Base :: string
  rqt_Path :: string
  rqt_Query :: "(string \<times> string) list"
  rqt_Headers :: "(string \<times> string) list"

text \<open>No answer, or a status, a body, its declared length (-1 if there is none) and its JSON.\<close>

datatype answer =
    Unreachable string
  | Answered int stream int "json option"

type_synonym server = "request list \<Rightarrow> request \<Rightarrow> answer"
type_synonym 'a comm = "(request list, 'a) state"

definition exchange :: "server \<Rightarrow> request \<Rightarrow> answer comm" where
  "exchange srv r = State (\<lambda>sent. (srv sent r, sent @ [r]))"

lemma run_exchange [simp]: "run_state (exchange srv r) sent = (srv sent r, sent @ [r])"
  by (simp add: exchange_def)

section \<open>The client\<close>

record AuthScheme =
  as_ID :: string
  as_Apply :: "string \<Rightarrow> string \<times> string"

definition AuthSchemes :: "AuthScheme list" where
  "AuthSchemes = [
     \<lparr>as_ID = ''bearer'', as_Apply = (\<lambda>token. (''Authorization'', ''Bearer '' @ token))\<rparr>,
     \<lparr>as_ID = ''x-api-key'', as_Apply = (\<lambda>token. (''X-Api-Key'', token))\<rparr>,
     \<lparr>as_ID = ''authorization-raw'', as_Apply = (\<lambda>token. (''Authorization'', token))\<rparr>]"

definition LookupAuthScheme :: "string \<Rightarrow> AuthScheme option" where
  "LookupAuthScheme i = List.find (\<lambda>s. as_ID s = i) AuthSchemes"

text \<open>A client without a scheme is one whose \<open>Apply\<close> is nil.\<close>

record Client =
  cl_BaseURL :: string
  cl_Token :: string
  cl_Scheme :: "AuthScheme option"

text \<open>\<open>strings.TrimRight\<close>.\<close>

definition trim_right :: "char \<Rightarrow> string \<Rightarrow> string" where
  "trim_right c s = rev (dropWhile (\<lambda>x. x = c) (rev s))"

definition NewClient :: "string \<Rightarrow> string \<Rightarrow> AuthScheme option \<Rightarrow> Client" where
  "NewClient baseURL token scheme =
     \<lparr>cl_BaseURL = trim_right CHR ''/'' baseURL, cl_Token = token, cl_Scheme = scheme\<rparr>"

text \<open>\<open>strings.ReplaceAll\<close> of a text that is not empty.\<close>

function replace_all :: "string \<Rightarrow> string \<Rightarrow> string \<Rightarrow> string" where
  "replace_all old new s =
     (if s = '''' \<or> old = '''' then s
      else if has_prefix s old then new @ replace_all old new (drop (length old) s)
      else hd s # replace_all old new (tl s))"
  by auto
termination
  by (relation "measure (\<lambda>(old, new, s). length s)") (auto simp add: neq_Nil_conv)

declare replace_all.simps [simp del]

definition Redact :: "Client \<Rightarrow> string \<Rightarrow> string" where
  "Redact c s = (if cl_Token c = '''' then s else replace_all (cl_Token c) ''[redacted]'' s)"

definition credential :: "Client \<Rightarrow> (string \<times> string) list" where
  "credential c = (case cl_Scheme c of
      Some sch \<Rightarrow> if cl_Token c \<noteq> '''' then [as_Apply sch (cl_Token c)] else []
    | None \<Rightarrow> [])"

text \<open>What stops the use of a server.\<close>

datatype blocker =
    SpecUnconfirmed
  | CapabilityMissing string string "string list"
  | CredentialUnverified
  | NoHashField

datatype romm_error =
    RommRequest string string
  | RommReading string string
  | RommNotOffered string
  | RommUnknownCapability string
  | RommStatus string int
  | RommDecoding string
  | RommNotAccepted string int
  | RommInconclusive string int
  | RommNoURL
  | RommBlocked "blocker list"
  | RommMissing "string list"
  | RommCredentialRefused
  | RommUnknownScheme string

text \<open>The answer of \<open>Get\<close>: the status and the body as JSON.\<close>

definition maxBody :: int where "maxBody = 8 * 2 ^ 20"

definition Get :: "server \<Rightarrow> Client \<Rightarrow> string \<Rightarrow> (string \<times> string) list \<Rightarrow> (romm_error + int \<times> json option) comm" where
  "Get srv c path query = do {
     a \<leftarrow> exchange srv \<lparr>rqt_Base = cl_BaseURL c, rqt_Path = path, rqt_Query = query,
            rqt_Headers = (''Accept'', ''application/json'') # credential c\<rparr>;
     State_Monad.return (case a of
       Unreachable m \<Rightarrow> Inl (RommRequest path (Redact c m))
     | Answered st body _ js \<Rightarrow>
         (case snd (LimitReader body maxBody) of
            Some m \<Rightarrow> Inl (RommReading path (Redact c m))
          | None \<Rightarrow> Inr (st, js))) }"

definition GetUnauthenticated :: "server \<Rightarrow> Client \<Rightarrow> string \<Rightarrow> (romm_error + int \<times> json option) comm" where
  "GetUnauthenticated srv c path = Get srv (c\<lparr>cl_Token := ''''\<rparr>) path []"

text \<open>\<open>Stream\<close>: the status, the unread body and its declared length.\<close>

definition Stream :: "server \<Rightarrow> Client \<Rightarrow> string \<Rightarrow> (romm_error + int \<times> stream \<times> int) comm" where
  "Stream srv c path = do {
     a \<leftarrow> exchange srv \<lparr>rqt_Base = cl_BaseURL c, rqt_Path = path, rqt_Query = [], rqt_Headers = credential c\<rparr>;
     State_Monad.return (case a of
       Unreachable m \<Rightarrow> Inl (RommRequest path (Redact c m))
     | Answered st body n _ \<Rightarrow> Inr (st, body, n)) }"

fun detect_schemes :: "server \<Rightarrow> string \<Rightarrow> string \<Rightarrow> string \<Rightarrow> AuthScheme list \<Rightarrow> int
    \<Rightarrow> (romm_error + AuthScheme \<times> int) comm" where
  "detect_schemes srv baseURL token probePath [] lastStatus =
     State_Monad.return (Inl (RommNotAccepted probePath lastStatus))"
| "detect_schemes srv baseURL token probePath (sch # rest) lastStatus = do {
     r \<leftarrow> Get srv (NewClient baseURL token (Some sch)) probePath [];
     case r of
       Inl e \<Rightarrow> State_Monad.return (Inl e)
     | Inr (status, _) \<Rightarrow>
       if status = 200 then State_Monad.return (Inr (sch, status))
       else if status \<noteq> 401 \<and> status \<noteq> 403 then State_Monad.return (Inl (RommInconclusive probePath status))
       else detect_schemes srv baseURL token probePath rest status }"

definition DetectAuthScheme :: "server \<Rightarrow> string \<Rightarrow> string \<Rightarrow> string \<Rightarrow> (romm_error + AuthScheme \<times> int) comm" where
  "DetectAuthScheme srv baseURL token probePath = detect_schemes srv baseURL token probePath AuthSchemes 0"

section \<open>The probe\<close>

definition SpecPaths :: "string list" where
  "SpecPaths = [''/openapi.json'', ''/api/openapi.json'', ''/docs/openapi.json'']"

record ProbeOptions =
  po_BaseURL :: string
  po_Token :: string
  po_IncludeHost :: bool
  po_IncludeSamples :: bool

record FieldShape =
  fd_Name :: string
  fd_Type :: string

text \<open>Findings, with the values each is formatted from.\<close>

datatype spec_attempt = AttemptFailed romm_error | AttemptStatus int | AttemptSpec spec_error

datatype finding =
    NoSpecification "(string \<times> spec_attempt) list"
  | UndocumentedParams string string string "string list"
  | NoAuthenticatedEndpoint
  | NoCredential
  | CredentialFailed romm_error
  | CredentialAccepted string int
  | NoServerVersion
  | FieldsFailed string romm_error
  | FieldsStatus string string int
  | FieldsNothing string string

record Report =
  rp_ProbedAt :: instant
  rp_Host :: string
  rp_SpecPath :: string
  rp_SpecTitle :: string
  rp_SpecVersion :: string
  rp_OpenAPI :: string
  rp_ServerVersion :: string
  rp_AuthScheme :: string
  rp_Capabilities :: "CapabilityResult list"
  rp_PathInventory :: "string list"
  rp_ROMFields :: "FieldShape list"
  rp_PlatformFields :: "FieldShape list"
  rp_HashFields :: "string list"
  rp_Sample :: "(string \<times> json) list option"
  rp_Findings :: "finding list"
  rp_Blockers :: "blocker list"

definition Capability :: "Report \<Rightarrow> string \<Rightarrow> romm_error + CapabilityResult" where
  "Capability rep i =
     (case List.find (\<lambda>c. cr_ID c = i) (rp_Capabilities rep) of
        None \<Rightarrow> Inl (RommUnknownCapability i)
      | Some c \<Rightarrow> if \<not> cr_Found c then Inl (RommNotOffered i) else Inr c)"

definition hashFieldCandidates :: "string list" where
  "hashFieldCandidates = [''crc_hash'', ''md5_hash'', ''sha1_hash'', ''sha256_hash'',
     ''crc'', ''md5'', ''sha1'', ''sha256'', ''crc32'']"

definition isHashField :: "string \<Rightarrow> bool" where
  "isHashField name =
     (let lower = to_lower name in
      has_suffix lower ''_hash'' \<or> list_ex (\<lambda>c. lower = c \<or> has_suffix lower (''_'' @ c)) hashFieldCandidates)"

definition dedupe :: "string list \<Rightarrow> string list" where
  "dedupe xs = sort (remdups xs)"

definition capabilityPath :: "CapabilityResult list \<Rightarrow> string \<Rightarrow> string" where
  "capabilityPath results i =
     (case List.find (\<lambda>r. cr_ID r = i \<and> cr_Found r) results of None \<Rightarrow> '''' | Some r \<Rightarrow> cr_Path r)"

fun fetch_spec :: "server \<Rightarrow> Client \<Rightarrow> string list \<Rightarrow> (string \<times> spec_attempt) list
    \<Rightarrow> ((string \<times> spec_attempt) list + Spec \<times> string) comm" where
  "fetch_spec srv c [] attempts = State_Monad.return (Inl attempts)"
| "fetch_spec srv c (p # ps) attempts = do {
     r \<leftarrow> GetUnauthenticated srv c p;
     case r of
       Inl e \<Rightarrow> fetch_spec srv c ps (attempts @ [(p, AttemptFailed e)])
     | Inr (status, body) \<Rightarrow>
       if status \<noteq> 200 then fetch_spec srv c ps (attempts @ [(p, AttemptStatus status)])
       else case ParseSpec body of
         Inl e \<Rightarrow> fetch_spec srv c ps (attempts @ [(p, AttemptSpec e)])
       | Inr spec \<Rightarrow> State_Monad.return (Inr (spec, p)) }"

text \<open>The first nonempty string among the named members.\<close>

definition string_member :: "(string \<times> json) list \<Rightarrow> string list \<Rightarrow> string option" where
  "string_member ms keys =
     (case List.map_filter (\<lambda>k. case json_member ms k of Some (JStr s) \<Rightarrow> if s \<noteq> '''' then Some s else None | _ \<Rightarrow> None) keys of
        [] \<Rightarrow> None
      | s # _ \<Rightarrow> Some s)"

definition version_of :: "(string \<times> json) list \<Rightarrow> string" where
  "version_of payload =
     (case string_member payload [''VERSION'', ''version'', ''romm_version'', ''app_version''] of
        Some v \<Rightarrow> v
      | None \<Rightarrow>
        (case List.map_filter (\<lambda>(k, v). Option.bind (object_of v) (\<lambda>nested. string_member nested [''VERSION'', ''version''])) payload of
           [] \<Rightarrow> ''''
         | v # _ \<Rightarrow> v))"

definition probeServerVersion :: "server \<Rightarrow> Client \<Rightarrow> CapabilityResult list \<Rightarrow> string comm" where
  "probeServerVersion srv c caps =
     (let path = capabilityPath caps ''server.version'' in
      if path = '''' then State_Monad.return ''''
      else do {
        r \<leftarrow> Get srv c path [];
        State_Monad.return (case r of
          Inl e \<Rightarrow> ''''
        | Inr (status, body) \<Rightarrow>
          if status \<noteq> 200 then ''''
          else case Option.bind body as_object of None \<Rightarrow> '''' | Some payload \<Rightarrow> version_of payload) })"

text \<open>The keys of \<open>firstObject\<close>, tried in order: the list under a key, if there is one; the other result says
  whether a key was there at all.\<close>

fun envelope_object :: "(string \<times> json) list \<Rightarrow> string list \<Rightarrow> bool \<Rightarrow> (string \<times> json) list option" where
  "envelope_object envelope [] saw = (if saw \<or> envelope = [] then None else Some envelope)"
| "envelope_object envelope (key # keys) saw =
     (case json_member envelope key of
        None \<Rightarrow> envelope_object envelope keys saw
      | Some (JArr (JObj ms # _)) \<Rightarrow> Some ms
      | Some _ \<Rightarrow> envelope_object envelope keys True)"

definition firstObject :: "json option \<Rightarrow> (string \<times> json) list option" where
  "firstObject body =
     (case Option.bind body as_objects of
        Some (obj # _) \<Rightarrow> obj
      | _ \<Rightarrow>
        (case Option.bind body as_object of
           None \<Rightarrow> None
         | Some envelope \<Rightarrow> envelope_object envelope [''items'', ''results'', ''data'', ''roms'', ''platforms''] False))"

fun jsonType :: "json \<Rightarrow> string" where
  "jsonType JNull = ''null''"
| "jsonType (JBool _) = ''boolean''"
| "jsonType (JNum _) = ''number''"
| "jsonType (JStr _) = ''string''"
| "jsonType (JArr _) = ''array''"
| "jsonType (JObj _) = ''object''"

definition shapeOf :: "(string \<times> json) list \<Rightarrow> FieldShape list" where
  "shapeOf obj = map (\<lambda>k. \<lparr>fd_Name = k, fd_Type = jsonType (the (json_member obj k))\<rparr>) (sort (remdups (map fst obj)))"

definition add_finding :: "finding \<Rightarrow> Report \<Rightarrow> Report" where
  "add_finding f rep = rep\<lparr>rp_Findings := rp_Findings rep @ [f]\<rparr>"

definition add_blocker :: "blocker \<Rightarrow> Report \<Rightarrow> Report" where
  "add_blocker b rep = rep\<lparr>rp_Blockers := rp_Blockers rep @ [b]\<rparr>"

definition probeFields :: "server \<Rightarrow> Client \<Rightarrow> Report \<Rightarrow> string \<Rightarrow> (string \<times> string) list \<Rightarrow> (FieldShape list \<times> Report) comm" where
  "probeFields srv c rep capID q =
     (let path = capabilityPath (rp_Capabilities rep) capID in
      if path = '''' then State_Monad.return ([], rep)
      else do {
        r \<leftarrow> Get srv c path q;
        State_Monad.return (case r of
          Inl e \<Rightarrow> ([], add_finding (FieldsFailed capID e) rep)
        | Inr (status, body) \<Rightarrow>
          if status \<noteq> 200 then ([], add_finding (FieldsStatus capID path status) rep)
          else case firstObject body of
            None \<Rightarrow> ([], add_finding (FieldsNothing capID path) rep)
          | Some obj \<Rightarrow> (shapeOf obj, rep)) })"

definition probeSample :: "server \<Rightarrow> Client \<Rightarrow> Report \<Rightarrow> (string \<times> json) list option comm" where
  "probeSample srv c rep =
     (let path = capabilityPath (rp_Capabilities rep) ''roms.list'' in
      if path = '''' then State_Monad.return None
      else do {
        r \<leftarrow> Get srv c path [(''limit'', ''1'')];
        State_Monad.return (case r of
          Inl e \<Rightarrow> None
        | Inr (status, body) \<Rightarrow> if status \<noteq> 200 then None else firstObject body) })"

definition new_report :: "ProbeOptions \<Rightarrow> instant \<Rightarrow> Report" where
  "new_report opts at = \<lparr>rp_ProbedAt = at,
     rp_Host = (if po_IncludeHost opts then po_BaseURL opts else ''[redacted]''), rp_SpecPath = '''',
     rp_SpecTitle = '''', rp_SpecVersion = '''', rp_OpenAPI = '''', rp_ServerVersion = '''', rp_AuthScheme = '''',
     rp_Capabilities = [], rp_PathInventory = [], rp_ROMFields = [], rp_PlatformFields = [], rp_HashFields = [],
     rp_Sample = None, rp_Findings = [], rp_Blockers = []\<rparr>"

text \<open>What the specification alone says.\<close>

definition report_spec :: "OperationRef sorter \<Rightarrow> Spec \<Rightarrow> string \<Rightarrow> Report \<Rightarrow> Report" where
  "report_spec srt spec specPath rep =
     (let caps = EvaluateCapabilities srt spec in
      rep\<lparr>rp_SpecPath := specPath, rp_SpecTitle := si_Title (sp_Info spec), rp_SpecVersion := si_Version (sp_Info spec),
        rp_OpenAPI := sp_OpenAPI spec,
        rp_PathInventory := dedupe (map (\<lambda>r. or_Method r @ '' '' @ or_Normalized r) (Operations srt spec)),
        rp_Capabilities := caps,
        rp_Blockers := rp_Blockers rep @ map (\<lambda>r. CapabilityMissing (cr_ID r) (cr_Summary r) (cr_Tried r)) (MissingRequired caps),
        rp_Findings := rp_Findings rep @
          map (\<lambda>r. UndocumentedParams (cr_ID r) (cr_Method r) (cr_Path r) (cr_MissingQueryParams r))
            (filter (\<lambda>r. cr_Found r \<and> cr_MissingQueryParams r \<noteq> []) caps)\<rparr>)"

text \<open>The credential.\<close>

definition auth_probe_path :: "CapabilityResult list \<Rightarrow> string" where
  "auth_probe_path caps =
     (let self = capabilityPath caps ''identity.self'' in
      if self = '''' then capabilityPath caps ''platforms.list'' else self)"

definition probe_credential :: "server \<Rightarrow> ProbeOptions \<Rightarrow> Client \<Rightarrow> Report \<Rightarrow> (Report \<times> Client) comm" where
  "probe_credential srv opts client rep =
     (let path = auth_probe_path (rp_Capabilities rep) in
      if path = '''' then State_Monad.return (add_finding NoAuthenticatedEndpoint rep, client)
      else if po_Token opts = '''' then State_Monad.return (add_finding NoCredential rep, client)
      else do {
        r \<leftarrow> DetectAuthScheme srv (po_BaseURL opts) (po_Token opts) path;
        State_Monad.return (case r of
          Inl e \<Rightarrow> (add_blocker CredentialUnverified (add_finding (CredentialFailed e) rep), client)
        | Inr (scheme, status) \<Rightarrow>
          (add_finding (CredentialAccepted (as_ID scheme) status) (rep\<lparr>rp_AuthScheme := as_ID scheme\<rparr>),
           client\<lparr>cl_Scheme := Some scheme\<rparr>)) })"

text \<open>The live shapes.\<close>

definition report_version :: "string \<Rightarrow> Report \<Rightarrow> Report" where
  "report_version v rep = (if v \<noteq> '''' then rep\<lparr>rp_ServerVersion := v\<rparr> else add_finding NoServerVersion rep)"

definition report_hashes :: "FieldShape list \<Rightarrow> Report \<Rightarrow> Report" where
  "report_hashes shapes rep =
     (let hashes = sort (filter isHashField (map fd_Name shapes));
          rep1 = rep\<lparr>rp_ROMFields := shapes, rp_HashFields := hashes\<rparr> in
      if shapes \<noteq> [] \<and> hashes = [] then add_blocker NoHashField rep1 else rep1)"

definition probe_shapes :: "server \<Rightarrow> ProbeOptions \<Rightarrow> Client \<Rightarrow> Report \<Rightarrow> Report comm" where
  "probe_shapes srv opts client rep =
     (if cl_Scheme client = None then State_Monad.return rep
      else do {
        (platforms, rep1) \<leftarrow> probeFields srv client rep ''platforms.list'' [];
        (roms, rep2) \<leftarrow> probeFields srv client (rep1\<lparr>rp_PlatformFields := platforms\<rparr>) ''roms.list'' [(''limit'', ''1'')];
        let rep3 = report_hashes roms rep2;
        if po_IncludeSamples opts then do {
          s \<leftarrow> probeSample srv client rep3;
          State_Monad.return (rep3\<lparr>rp_Sample := s\<rparr>) }
        else State_Monad.return rep3 })"

definition Probe :: "OperationRef sorter \<Rightarrow> server \<Rightarrow> instant \<Rightarrow> ProbeOptions \<Rightarrow> (romm_error + Report) comm" where
  "Probe srt srv at opts =
     (if trim_space (po_BaseURL opts) = '''' then State_Monad.return (Inl RommNoURL)
      else
        let rep = new_report opts at; client = NewClient (po_BaseURL opts) (po_Token opts) None in do {
        found \<leftarrow> fetch_spec srv client SpecPaths [];
        case found of
          Inl attempts \<Rightarrow>
            State_Monad.return (Inr (add_blocker SpecUnconfirmed (add_finding (NoSpecification attempts) rep)))
        | Inr (spec, specPath) \<Rightarrow> do {
            (rep1, client1) \<leftarrow> probe_credential srv opts client (report_spec srt spec specPath rep);
            v \<leftarrow> probeServerVersion srv client1 (rp_Capabilities rep1);
            rep2 \<leftarrow> probe_shapes srv opts client1 (report_version v rep1);
            State_Monad.return (Inr rep2) } })"

section \<open>Connecting\<close>

definition connect_check :: "string \<Rightarrow> string \<Rightarrow> Report \<Rightarrow> romm_error + Client \<times> Report" where
  "connect_check baseURL token rep =
     (if rp_Blockers rep \<noteq> [] then Inl (RommBlocked (rp_Blockers rep))
      else if MissingRequired (rp_Capabilities rep) \<noteq> [] then Inl (RommMissing (map cr_ID (MissingRequired (rp_Capabilities rep))))
      else if rp_AuthScheme rep = '''' then Inl RommCredentialRefused
      else case LookupAuthScheme (rp_AuthScheme rep) of
        None \<Rightarrow> Inl (RommUnknownScheme (rp_AuthScheme rep))
      | Some scheme \<Rightarrow> Inr (NewClient baseURL token (Some scheme), rep))"

definition connect_options :: "string \<Rightarrow> string \<Rightarrow> ProbeOptions" where
  "connect_options baseURL token =
     \<lparr>po_BaseURL = baseURL, po_Token = token, po_IncludeHost = False, po_IncludeSamples = False\<rparr>"

definition RommConnect :: "OperationRef sorter \<Rightarrow> server \<Rightarrow> instant \<Rightarrow> string \<Rightarrow> string \<Rightarrow> (romm_error + Client \<times> Report) comm" where
  "RommConnect srt srv at baseURL token = do {
     r \<leftarrow> Probe srt srv at (connect_options baseURL token);
     State_Monad.return (res_bind r (connect_check baseURL token)) }"

section \<open>Platforms\<close>

record RommPlatform =
  pt_ID :: int
  pt_Slug :: string
  pt_Name :: string

record Platforms =
  pfs_bySlug :: "string \<rightharpoonup> RommPlatform"
  pfs_all :: "RommPlatform list"

text \<open>The first of the keys under which there is an array.\<close>

definition array_member :: "(string \<times> json) list \<Rightarrow> string list \<Rightarrow> json list option" where
  "array_member ms keys =
     (case List.map_filter (\<lambda>k. case json_member ms k of Some (JArr vs) \<Rightarrow> Some vs | _ \<Rightarrow> None) keys of
        [] \<Rightarrow> None
      | vs # _ \<Rightarrow> Some vs)"

definition nil_map :: "(string \<times> json) list option \<Rightarrow> (string \<times> json) list" where
  "nil_map obj = (case obj of None \<Rightarrow> [] | Some ms \<Rightarrow> ms)"

definition decodePlatformList :: "json option \<Rightarrow> (string \<times> json) list list option" where
  "decodePlatformList body =
     (case Option.bind body as_objects of
        Some objs \<Rightarrow> Some (map nil_map objs)
      | None \<Rightarrow>
        (case Option.bind body as_object of
           None \<Rightarrow> None
         | Some envelope \<Rightarrow>
           map_option (List.map_filter object_of) (array_member envelope [''items'', ''results'', ''data'', ''platforms''])))"

definition platformFieldString :: "(string \<times> json) list \<Rightarrow> string list \<Rightarrow> string" where
  "platformFieldString obj keys = (case string_member obj keys of None \<Rightarrow> '''' | Some s \<Rightarrow> s)"

fun platformFieldInt :: "(string \<times> json) list \<Rightarrow> string list \<Rightarrow> int" where
  "platformFieldInt obj [] = 0"
| "platformFieldInt obj (k # ks) =
     (case json_member obj k of
        Some (JNum n) \<Rightarrow> jn_int n
      | Some (JStr s) \<Rightarrow> (case Atoi s of Some n \<Rightarrow> n | None \<Rightarrow> platformFieldInt obj ks)
      | _ \<Rightarrow> platformFieldInt obj ks)"

definition platform_of :: "(string \<times> json) list \<Rightarrow> RommPlatform" where
  "platform_of obj = \<lparr>pt_ID = platformFieldInt obj [''id''], pt_Slug = platformFieldString obj [''slug'', ''fs_slug''],
     pt_Name = platformFieldString obj [''name'']\<rparr>"

definition add_platform :: "Platforms \<Rightarrow> (string \<times> json) list \<Rightarrow> Platforms" where
  "add_platform p obj =
     (let plat = platform_of obj in
      if pt_Slug plat = '''' \<or> pt_ID plat = 0 then p
      else p\<lparr>pfs_bySlug := (if pfs_bySlug p (pt_Slug plat) = None then (pfs_bySlug p)(pt_Slug plat \<mapsto> plat) else pfs_bySlug p),
             pfs_all := pfs_all p @ [plat]\<rparr>)"

definition FetchPlatforms :: "server \<Rightarrow> Client \<Rightarrow> Report \<Rightarrow> (romm_error + Platforms) comm" where
  "FetchPlatforms srv client rep =
     (case Capability rep ''platforms.list'' of
        Inl e \<Rightarrow> State_Monad.return (Inl e)
      | Inr cap \<Rightarrow> do {
          r \<leftarrow> Get srv client (cr_Path cap) [];
          State_Monad.return (case r of
            Inl e \<Rightarrow> Inl e
          | Inr (status, body) \<Rightarrow>
            if status \<noteq> 200 then Inl (RommStatus (cr_Path cap) status)
            else case decodePlatformList body of
              None \<Rightarrow> Inl (RommDecoding (cr_Path cap))
            | Some objects \<Rightarrow> Inr (foldl add_platform \<lparr>pfs_bySlug = Map.empty, pfs_all = []\<rparr> objects)) })"

definition LookupPlatform :: "Platforms \<Rightarrow> string \<Rightarrow> RommPlatform option" where
  "LookupPlatform p i = pfs_bySlug p i"

record Connection =
  cn_Client :: Client
  cn_Report :: Report
  cn_Platforms :: Platforms

definition ConnectAndResolvePlatforms ::
  "OperationRef sorter \<Rightarrow> server \<Rightarrow> instant \<Rightarrow> string \<Rightarrow> string \<Rightarrow> (romm_error + Connection) comm" where
  "ConnectAndResolvePlatforms srt srv at baseURL token = do {
     r \<leftarrow> RommConnect srt srv at baseURL token;
     case r of
       Inl e \<Rightarrow> State_Monad.return (Inl e)
     | Inr (client, report) \<Rightarrow> do {
         p \<leftarrow> FetchPlatforms srv client report;
         State_Monad.return (res_bind p (\<lambda>p. Inr \<lparr>cn_Client = client, cn_Report = report, cn_Platforms = p\<rparr>)) } }"

section \<open>What the probe sends\<close>

text \<open>An operation only adds requests that satisfy \<open>P\<close>, and its result satisfies \<open>Q\<close>.\<close>

definition keeps_to :: "(request \<Rightarrow> bool) \<Rightarrow> 'a comm \<Rightarrow> ('a \<Rightarrow> bool) \<Rightarrow> bool" where
  "keeps_to P m Q = (\<forall>s x s'. run_state m s = (x, s') \<longrightarrow> Q x \<and> (\<exists>new. s' = s @ new \<and> list_all P new))"

named_theorems keeps \<open>rules that walk through an operation\<close>

lemma keeps_run: "keeps_to P m Q \<Longrightarrow> run_state m s = (x, s') \<Longrightarrow> Q x \<and> (\<exists>new. s' = s @ new \<and> list_all P new)"
  unfolding keeps_to_def by blast

lemma keeps_return [keeps]: "Q x \<Longrightarrow> keeps_to P (State_Monad.return x) Q"
  by (simp add: keeps_to_def)

lemma keeps_exchange: "P r \<Longrightarrow> (\<And>a. Q a) \<Longrightarrow> keeps_to P (exchange srv r) Q"
  by (simp add: keeps_to_def)

lemma keeps_bind:
  assumes "keeps_to P m Q" and "\<And>x. Q x \<Longrightarrow> keeps_to P (f x) R"
  shows "keeps_to P (State_Monad.bind m f) R"
  unfolding keeps_to_def
proof (intro allI impI)
  fix s b s' assume "run_state (State_Monad.bind m f) s = (b, s')"
  then obtain a t where at: "run_state m s = (a, t)" "run_state (f a) t = (b, s')"
    by (auto split: prod.splits)
  obtain n1 where 1: "Q a" "t = s @ n1" "list_all P n1"
    using keeps_run [OF assms(1) at(1)] by blast
  obtain n2 where 2: "R b" "s' = t @ n2" "list_all P n2"
    using keeps_run [OF assms(2) [OF 1(1)] at(2)] by blast
  show "R b \<and> (\<exists>new. s' = s @ new \<and> list_all P new)"
    using 1 2 by (intro conjI exI [of _ "n1 @ n2"]) simp_all
qed

lemma keeps_if [keeps]: "(b \<Longrightarrow> keeps_to P m Q) \<Longrightarrow> (\<not> b \<Longrightarrow> keeps_to P m' Q) \<Longrightarrow> keeps_to P (if b then m else m') Q"
  by simp

lemma keeps_sum [keeps]:
  "(\<And>a. x = Inl a \<Longrightarrow> keeps_to P (f a) Q) \<Longrightarrow> (\<And>b. x = Inr b \<Longrightarrow> keeps_to P (g b) Q) \<Longrightarrow>
    keeps_to P (case x of Inl a \<Rightarrow> f a | Inr b \<Rightarrow> g b) Q"
  by (simp split: sum.splits)

lemma keeps_prod [keeps]:
  "(\<And>a b. x = (a, b) \<Longrightarrow> keeps_to P (f a b) Q) \<Longrightarrow> keeps_to P (case x of (a, b) \<Rightarrow> f a b) Q"
  by (simp split: prod.splits)

lemma keeps_let [keeps]: "keeps_to P (f x) Q \<Longrightarrow> keeps_to P (Let x f) Q"
  by simp


definition probed :: "string list" where
  "probed = [''identity.self'', ''platforms.list'', ''server.version'', ''roms.list'']"

definition capability_request :: "string \<Rightarrow> string \<Rightarrow> CapabilityResult list \<Rightarrow> request \<Rightarrow> bool" where
  "capability_request baseURL token caps r = (rqt_Base r = trim_right CHR ''/'' baseURL \<and>
     (\<exists>c\<in>set caps. cr_Found c \<and> cr_ID c \<in> set probed \<and> rqt_Path r = cr_Path c) \<and>
     (rqt_Headers r = [(''Accept'', ''application/json'')] \<or>
      (\<exists>sch\<in>set AuthSchemes. token \<noteq> '''' \<and> rqt_Headers r = [(''Accept'', ''application/json''), as_Apply sch token])))"

definition client_of :: "string \<Rightarrow> string \<Rightarrow> Client \<Rightarrow> bool" where
  "client_of baseURL token c = (cl_BaseURL c = trim_right CHR ''/'' baseURL \<and> cl_Token c = token \<and>
     (case cl_Scheme c of None \<Rightarrow> True | Some sch \<Rightarrow> sch \<in> set AuthSchemes))"

lemma client_of_NewClient [simp]:
  "client_of baseURL token (NewClient baseURL token None)"
  "sch \<in> set AuthSchemes \<Longrightarrow> client_of baseURL token (NewClient baseURL token (Some sch))"
  by (simp_all add: client_of_def NewClient_def)

lemma find_in: "List.find p xs = Some x \<Longrightarrow> x \<in> set xs \<and> p x"
  by (induction xs) (auto split: if_splits)

lemma capabilityPath_found:
  assumes "capabilityPath caps i \<noteq> ''''"
  shows "\<exists>c\<in>set caps. cr_Found c \<and> cr_ID c = i \<and> capabilityPath caps i = cr_Path c"
  using assms by (auto simp add: capabilityPath_def split: option.splits dest: find_in)

lemma keeps_Get_capability:
  assumes "client_of baseURL token c" and "i \<in> set probed" and "capabilityPath caps i \<noteq> ''''"
  shows "keeps_to (capability_request baseURL token caps) (Get srv c (capabilityPath caps i) q) (\<lambda>_. True)"
  unfolding Get_def using assms capabilityPath_found [OF assms(3)]
  by (intro keeps_bind [where Q = "\<lambda>_. True"] keeps_exchange keeps_return)
    (auto simp add: capability_request_def client_of_def credential_def split: option.splits)





lemma keeps_version:
  assumes "client_of baseURL token client"
  shows "keeps_to (capability_request baseURL token caps) (probeServerVersion srv client caps) (\<lambda>_. True)"
  unfolding probeServerVersion_def
  by (intro keeps keeps_bind [OF keeps_Get_capability [OF assms]]) (simp_all add: probed_def)

lemma rp_Capabilities_add [simp]:
  "rp_Capabilities (add_finding f rep) = rp_Capabilities rep"
  "rp_Capabilities (add_blocker b rep) = rp_Capabilities rep"
  "rp_Capabilities (report_version v rep) = rp_Capabilities rep"
  "rp_Capabilities (report_hashes shapes rep) = rp_Capabilities rep"
  by (simp_all add: add_finding_def add_blocker_def report_version_def report_hashes_def Let_def)

definition same_probe :: "Report \<Rightarrow> Report \<Rightarrow> bool" where
  "same_probe rep rep' = (rp_Capabilities rep' = rp_Capabilities rep \<and> rp_AuthScheme rep' = rp_AuthScheme rep)"

lemma rp_AuthScheme_add [simp]:
  "rp_AuthScheme (add_finding f rep) = rp_AuthScheme rep"
  "rp_AuthScheme (add_blocker b rep) = rp_AuthScheme rep"
  "rp_AuthScheme (report_version v rep) = rp_AuthScheme rep"
  "rp_AuthScheme (report_hashes shapes rep) = rp_AuthScheme rep"
  by (simp_all add: add_finding_def add_blocker_def report_version_def report_hashes_def Let_def)

lemma keeps_fields:
  assumes "client_of baseURL token client" and "i \<in> set probed"
  shows "keeps_to (capability_request baseURL token (rp_Capabilities rep)) (probeFields srv client rep i q)
    (\<lambda>(shapes, rep'). same_probe rep rep')"
  unfolding probeFields_def
  by (intro keeps keeps_bind [OF keeps_Get_capability [OF assms]]) (auto simp add: same_probe_def split: sum.splits option.splits)

lemma keeps_sample:
  assumes "client_of baseURL token client"
  shows "keeps_to (capability_request baseURL token (rp_Capabilities rep)) (probeSample srv client rep) (\<lambda>_. True)"
  unfolding probeSample_def
  by (intro keeps keeps_bind [OF keeps_Get_capability [OF assms]]) (simp_all add: probed_def)

lemma keeps_shapes:
  assumes "client_of baseURL token client"
  shows "keeps_to (capability_request baseURL token (rp_Capabilities rep)) (probe_shapes srv opts client rep)
    (same_probe rep)"
proof -
  have p: "''platforms.list'' \<in> set probed" "''roms.list'' \<in> set probed"
    by (simp_all add: probed_def)
  have fields: "keeps_to (capability_request baseURL token caps) (probeFields srv client r i q)
      (\<lambda>(shapes, r'). rp_Capabilities r' = caps \<and> same_probe r r')" if "rp_Capabilities r = caps" "i \<in> set probed" for r caps i q
    using keeps_fields [OF assms that(2), of r srv q] that(1) unfolding keeps_to_def same_probe_def by fastforce
  have sample: "keeps_to (capability_request baseURL token caps) (probeSample srv client r) (\<lambda>_. True)"
    if "rp_Capabilities r = caps" for r caps
    using keeps_sample [OF assms] that by auto
  show ?thesis
    unfolding probe_shapes_def
    by (rule keeps_if, simp add: keeps_return same_probe_def, rule keeps_bind [OF fields [OF refl p(1)]], clarify,
        rule keeps_bind [OF fields [OF _ p(2)]], simp, clarify, intro keeps)
      (auto simp add: same_probe_def intro!: keeps_return keeps_bind [OF sample])
qed

section \<open>The course of a probe\<close>

lemma Probe_run:
  assumes "run_state (Probe srt srv at opts) s = (Inr rep, s')"
  defines "client \<equiv> NewClient (po_BaseURL opts) (po_Token opts) None"
  obtains (unread) attempts where
      "run_state (fetch_spec srv client SpecPaths []) s = (Inl attempts, s')"
      "rep = add_blocker SpecUnconfirmed (add_finding (NoSpecification attempts) (new_report opts at))"
  | (read) spec p s1 rep1 c1 s2 v s3 where
      "run_state (fetch_spec srv client SpecPaths []) s = (Inr (spec, p), s1)"
      "run_state (probe_credential srv opts client (report_spec srt spec p (new_report opts at))) s1 = ((rep1, c1), s2)"
      "run_state (probeServerVersion srv c1 (rp_Capabilities rep1)) s2 = (v, s3)"
      "run_state (probe_shapes srv opts c1 (report_version v rep1)) s3 = (rep, s')"
  using assms unfolding Probe_def client_def
  by (auto simp add: Let_def split: if_splits sum.splits prod.splits)

text \<open>The request that tries one presentation of the credential.\<close>

definition auth_request :: "string \<Rightarrow> string \<Rightarrow> string \<Rightarrow> AuthScheme \<Rightarrow> request" where
  "auth_request baseURL token path sch = \<lparr>rqt_Base = trim_right CHR ''/'' baseURL, rqt_Path = path, rqt_Query = [],
     rqt_Headers = (''Accept'', ''application/json'') # (if token \<noteq> '''' then [as_Apply sch token] else [])\<rparr>"

definition confirmed :: "server \<Rightarrow> request \<Rightarrow> request list \<Rightarrow> bool" where
  "confirmed srv r sent = (\<exists>pre post body n js. sent = pre @ r # post \<and> srv pre r = Answered 200 body n js)"

lemma confirmed_append: "confirmed srv r sent \<Longrightarrow> confirmed srv r (sent @ rest)"
  unfolding confirmed_def by (metis append.assoc append_Cons)

lemma detect_accepted:
  "run_state (detect_schemes srv baseURL token path schs status) s = (Inr (sch, st), s') \<Longrightarrow>
    sch \<in> set schs \<and> confirmed srv (auth_request baseURL token path sch) s'"
proof (induction schs arbitrary: status s)
  case (Cons x schs)
  have req: "\<lparr>rqt_Base = cl_BaseURL (NewClient baseURL token (Some x)), rqt_Path = path, rqt_Query = [],
      rqt_Headers = (''Accept'', ''application/json'') # credential (NewClient baseURL token (Some x))\<rparr> =
      auth_request baseURL token path x"
    by (simp add: auth_request_def NewClient_def credential_def)
  show ?case
  proof (cases "srv s (auth_request baseURL token path x)")
    case (Answered st' body n js)
    have "confirmed srv (auth_request baseURL token path x) (s @ [auth_request baseURL token path x])" if "st' = 200"
      using Answered that unfolding confirmed_def by blast
    then show ?thesis
      using Cons.prems Cons.IH Answered
      by (auto simp add: Get_def req split: option.splits if_splits)
  qed (use Cons.prems in \<open>simp add: Get_def req\<close>)
qed simp

lemma credential_course:
  assumes "run_state (probe_credential srv opts client rep) s = ((rep1, c1), s1)"
    and "client_of (po_BaseURL opts) (po_Token opts) client"
  shows "rp_Capabilities rep1 = rp_Capabilities rep \<and> client_of (po_BaseURL opts) (po_Token opts) c1 \<and>
    (rp_AuthScheme rep1 = rp_AuthScheme rep \<or> po_Token opts \<noteq> '''' \<and>
      (\<exists>sch\<in>set AuthSchemes. rp_AuthScheme rep1 = as_ID sch \<and>
        confirmed srv (auth_request (po_BaseURL opts) (po_Token opts) (auth_probe_path (rp_Capabilities rep)) sch) s1))"
  using assms detect_accepted [of srv "po_BaseURL opts" "po_Token opts" "auth_probe_path (rp_Capabilities rep)" AuthSchemes 0 s]
  unfolding probe_credential_def DetectAuthScheme_def
  by (auto simp add: Let_def client_of_def split: if_splits sum.splits prod.splits)




lemma lookup_scheme: "sch \<in> set AuthSchemes \<Longrightarrow> LookupAuthScheme (as_ID sch) = Some sch"
  by (auto simp add: AuthSchemes_def LookupAuthScheme_def)

lemma required_found:
  assumes "sorts srt" and "MissingRequired (EvaluateCapabilities srt spec) = []" and "req \<in> set Requirements"
    and "rq_Required req"
  shows "\<exists>r\<in>set (EvaluateCapabilities srt spec). cr_ID r = rq_ID req \<and> cr_Found r"
proof -
  let ?r = "match_candidates (operation_index (Operations srt spec)) req (rq_Candidates req)"
  have "?r \<in> set (EvaluateCapabilities srt spec)"
    using assms(3) by (simp add: EvaluateCapabilities_def Let_def)
  moreover have "cr_ID ?r = rq_ID req \<and> cr_Required ?r = rq_Required req"
    using match_candidates_spec [OF assms(1) _ refl] table_methods [OF assms(3)] by blast
  ultimately show ?thesis
    using assms(2,4) unfolding MissingRequired_def filter_empty_conv by blast
qed

text \<open>C33: a connection is a confirmed one: the Bridge only goes on with a server that documents every
  required capability and that answered 200, to a request made during this probe, when the
  credential was presented under the very scheme the client will use; refusals, other statuses
  and an empty credential never yield a client.\<close>

theorem connection_is_confirmed:
  assumes "sorts srt" and "run_state (RommConnect srt srv at baseURL token) [] = (Inr (c, rep), sent)"
  shows "(\<forall>req\<in>set Requirements. rq_Required req \<longrightarrow>
      (\<exists>r\<in>set (rp_Capabilities rep). cr_ID r = rq_ID req \<and> cr_Found r)) \<and>
    token \<noteq> '''' \<and> (\<exists>sch\<in>set AuthSchemes. c = NewClient baseURL token (Some sch) \<and>
      confirmed srv (auth_request baseURL token (auth_probe_path (rp_Capabilities rep)) sch) sent)"
proof -
  let ?o = "connect_options baseURL token"
  have o: "po_BaseURL ?o = baseURL" "po_Token ?o = token"
    by (simp_all add: connect_options_def)
  have run: "run_state (Probe srt srv at ?o) [] = (Inr rep, sent)"
    and check: "connect_check baseURL token rep = Inr (c, rep)"
    using assms(2) by (auto simp add: RommConnect_def connect_check_def res_bind_def split: prod.splits sum.splits if_splits option.splits)
  have ok: "rp_Blockers rep = []" "MissingRequired (rp_Capabilities rep) = []" "rp_AuthScheme rep \<noteq> ''''"
    and c: "\<exists>sch. LookupAuthScheme (rp_AuthScheme rep) = Some sch \<and> c = NewClient baseURL token (Some sch)"
    using check by (auto simp add: connect_check_def split: if_splits option.splits)
  show ?thesis
  proof (cases rule: Probe_run [OF run])
    case (1 attempts)
    then show ?thesis
      using ok(1) by (simp add: add_blocker_def)
  next
    case (2 spec p s1 rep1 c1 s2 v s3)
    let ?rep0 = "report_spec srt spec p (new_report ?o at)"
    have rep0: "rp_Capabilities ?rep0 = EvaluateCapabilities srt spec" "rp_AuthScheme ?rep0 = ''''"
      by (simp_all add: report_spec_def new_report_def Let_def)
    note course = credential_course [OF 2(2), unfolded o rep0, simplified]
    obtain n3 where n3: "s3 = s2 @ n3"
      using keeps_run [OF keeps_version 2(3)] course by blast
    obtain n4 where n4: "sent = s3 @ n4" "same_probe (report_version v rep1) rep"
      using keeps_run [OF keeps_shapes 2(4)] course by blast
    then have rep: "rp_Capabilities rep = EvaluateCapabilities srt spec" "rp_AuthScheme rep = rp_AuthScheme rep1"
      using course by (simp_all add: same_probe_def)
    then obtain sch where sch: "token \<noteq> ''''" "sch \<in> set AuthSchemes" "rp_AuthScheme rep = as_ID sch"
      "confirmed srv (auth_request baseURL token (auth_probe_path (rp_Capabilities rep)) sch) s2"
      using course ok(3) by auto
    have "confirmed srv (auth_request baseURL token (auth_probe_path (rp_Capabilities rep)) sch) sent"
      using sch(4) by (simp add: n4(1) n3 confirmed_append)
    moreover have "c = NewClient baseURL token (Some sch)"
      using c sch(2,3) lookup_scheme by simp
    ultimately show ?thesis
      using required_found [OF assms(1) ok(2) [unfolded rep(1)]] sch(1,2) unfolding rep(1) by blast
  qed
qed

section \<open>A small server\<close>

text \<open>It documents the required operations, accepts the second presentation of the credential and
  lists one ROM.\<close>

definition sample_ops :: "(string \<times> string) list" where
  "sample_ops =
     [(''/api/heartbeat'', ''get''), (''/api/platforms'', ''get''), (''/api/roms'', ''get''), (''/api/roms/{id}'', ''get''),
      (''/api/roms/{id}/content/{file_name}'', ''get''), (''/api/roms/upload/start'', ''post''), (''/api/users/me'', ''get'')]"

definition sample_paths :: json where
  "sample_paths = JObj (map (\<lambda>(p, m). (p, JObj [(m, JObj [])])) sample_ops)"

definition sample_server :: server where
  "sample_server sent r =
     (let ok = (\<lambda>v. Answered 200 ([], None) (- 1) (Some v)) in
      if rqt_Path r = ''/openapi.json'' then ok (JObj [(''paths'', sample_paths)])
      else if (''X-Api-Key'', ''token'') \<notin> set (rqt_Headers r) then Answered 401 ([], None) (- 1) None
      else if rqt_Path r = ''/api/roms'' then ok (JArr [JObj [(''id'', JNum \<lparr>jn_text = ''7'', jn_int = 7\<rparr>), (''sha1_hash'', JStr ''ab'')]])
      else ok (JArr []))"

definition sample_spec :: Spec where
  "sample_spec = zero_spec\<lparr>sp_Paths := map (\<lambda>(p, m). (p, [(m, zero_operation)])) sample_ops\<rparr>"

lemma sample_spec_read: "ParseSpec (Some (JObj [(''paths'', sample_paths)])) = Inr sample_spec"
  by (simp add: sample_paths_def sample_ops_def sample_spec_def ParseSpec_def dec_spec_def dec_struct_def dec_members_def dec_map_def
      dec_operation_def EqualFold_def to_lower_def lower_char_def zero_spec_def)

text \<open>The path of a resolved capability, whatever the sort does.\<close>

lemma distinct_requirements: "req \<in> set Requirements \<Longrightarrow> req' \<in> set Requirements \<Longrightarrow> rq_ID req = rq_ID req' \<Longrightarrow> req = req'"
proof -
  have "distinct (map rq_ID Requirements)"
    by (simp add: Requirements_def)
  then show "req \<in> set Requirements \<Longrightarrow> req' \<in> set Requirements \<Longrightarrow> rq_ID req = rq_ID req' \<Longrightarrow> req = req'"
    unfolding distinct_map by (blast dest: inj_onD)
qed

lemma resolved_path:
  assumes "sorts srt" and "req \<in> set Requirements"
    and "List.find (\<lambda>c. \<exists>path. documents spec path c) (rq_Candidates req) = Some c" and "CHR ''*'' \<notin> set (snd c)"
  shows "capabilityPath (EvaluateCapabilities srt spec) (rq_ID req) = snd c"
proof -
  let ?f = "\<lambda>req. match_candidates (operation_index (Operations srt spec)) req (rq_Candidates req)"
  have spec: "cr_ID (?f q) = rq_ID q" if "q \<in> set Requirements" for q
    using match_candidates_spec [OF assms(1) _ refl] table_methods [OF that] by blast
  have found: "cr_Found (?f req) \<and> documents spec (cr_Path (?f req)) c"
    using match_candidates_spec [OF assms(1) _ refl, of "rq_Candidates req" spec req] table_methods [OF assms(2)] assms(3)
    by auto
  then have path: "cr_Path (?f req) = snd c"
    using NormalizePath_plain [of "cr_Path (?f req)"] assms(4) by (simp add: documents_def)
  have caps: "set (EvaluateCapabilities srt spec) = ?f ` set Requirements"
    by (simp add: EvaluateCapabilities_def Let_def)
  have only: "r = ?f req" if "r \<in> set (EvaluateCapabilities srt spec)" "cr_ID r = rq_ID req" for r
  proof -
    obtain q where q: "q \<in> set Requirements" "r = ?f q"
      using \<open>r \<in> set (EvaluateCapabilities srt spec)\<close> unfolding caps by blast
    then have "rq_ID q = rq_ID req"
      using \<open>cr_ID r = rq_ID req\<close> spec [OF q(1)] by simp
    then show ?thesis
      using distinct_requirements [OF q(1) assms(2)] q(2) by simp
  qed
  obtain r where "List.find (\<lambda>r. cr_ID r = rq_ID req \<and> cr_Found r) (EvaluateCapabilities srt spec) = Some r"
    using found spec assms(2) unfolding caps [symmetric] by (fastforce simp add: find_None_iff caps)
  then show ?thesis
    using only find_in path by (fastforce simp add: capabilityPath_def)
qed

lemma to_upper_words [simp]: "to_upper ''get'' = ''GET''" "to_upper ''post'' = ''POST''"
  "to_upper ''GET'' = ''GET''" "to_upper ''POST'' = ''POST''"
  by code_simp+

lemma sample_forms:
  "NormalizePath ''/api/heartbeat'' = ''/api/heartbeat''" "NormalizePath ''/api/platforms'' = ''/api/platforms''"
  "NormalizePath ''/api/roms'' = ''/api/roms''" "NormalizePath ''/api/roms/{id}'' = ''/api/roms/*''"
  "NormalizePath ''/api/roms/{id}/content/{file_name}'' = ''/api/roms/*/content/*''"
  "NormalizePath ''/api/roms/upload/start'' = ''/api/roms/upload/start''" "NormalizePath ''/api/users/me'' = ''/api/users/me''"
  by code_simp+

lemma sample_doc:
  "(p, k) \<in> set sample_ops \<Longrightarrow> NormalizePath p = n \<Longrightarrow> to_upper k = to_upper m \<Longrightarrow>
    \<exists>path. documents sample_spec path (m, n)"
  by (force simp add: documents_def sample_spec_def)

lemma sample_documents:
  "\<exists>path. documents sample_spec path (''GET'', ''/api/heartbeat'')"
  "\<exists>path. documents sample_spec path (''GET'', ''/api/platforms'')"
  "\<exists>path. documents sample_spec path (''GET'', ''/api/roms'')"
  "\<exists>path. documents sample_spec path (''GET'', ''/api/roms/*'')"
  "\<exists>path. documents sample_spec path (''GET'', ''/api/roms/*/content/*'')"
  "\<exists>path. documents sample_spec path (''POST'', ''/api/roms/upload/start'')"
  "\<exists>path. documents sample_spec path (''GET'', ''/api/users/me'')"
  subgoal by (rule sample_doc [of "''/api/heartbeat''" "''get''"], simp_all add: sample_ops_def sample_forms)
  subgoal by (rule sample_doc [of "''/api/platforms''" "''get''"], simp_all add: sample_ops_def sample_forms)
  subgoal by (rule sample_doc [of "''/api/roms''" "''get''"], simp_all add: sample_ops_def sample_forms)
  subgoal by (rule sample_doc [of "''/api/roms/{id}''" "''get''"], simp_all add: sample_ops_def sample_forms)
  subgoal by (rule sample_doc [of "''/api/roms/{id}/content/{file_name}''" "''get''"], simp_all add: sample_ops_def sample_forms)
  subgoal by (rule sample_doc [of "''/api/roms/upload/start''" "''post''"], simp_all add: sample_ops_def sample_forms)
  subgoal by (rule sample_doc [of "''/api/users/me''" "''get''"], simp_all add: sample_ops_def sample_forms)
  done

lemma sample_candidates:
  "\<forall>req\<in>set Requirements. rq_Required req \<longrightarrow> rq_Candidates req \<noteq> [] \<and> hd (rq_Candidates req) \<in> set
    [(''GET'', ''/api/heartbeat''), (''GET'', ''/api/platforms''), (''GET'', ''/api/roms''), (''GET'', ''/api/roms/*''),
     (''GET'', ''/api/roms/*/content/*''), (''POST'', ''/api/roms/upload/start''), (''GET'', ''/api/users/me'')]"
  by (simp add: Requirements_def)

lemma find_hd: "xs \<noteq> [] \<Longrightarrow> p (hd xs) \<Longrightarrow> List.find p xs = Some (hd xs)"
  by (cases xs) simp_all

lemma sample_found:
  assumes "req \<in> set Requirements" and "rq_Required req"
  shows "List.find (\<lambda>c. \<exists>path. documents sample_spec path c) (rq_Candidates req) = Some (hd (rq_Candidates req))"
proof -
  note cand = mp [OF bspec [OF sample_candidates assms(1)] assms(2)]
  then have "\<exists>path. documents sample_spec path (hd (rq_Candidates req))"
    by (auto simp add: sample_documents)
  then show ?thesis
    by (rule find_hd [OF conjunct1 [OF cand]])
qed

abbreviation sample_caps :: "CapabilityResult list" where
  "sample_caps \<equiv> EvaluateCapabilities insertion_sort sample_spec"

lemma sample_missing: "MissingRequired sample_caps = []"
proof -
  have "cr_Found r" if r: "r \<in> set sample_caps" "cr_Required r" for r
  proof -
    obtain req where "req \<in> set Requirements" "cr_Required r = rq_Required req"
      "case List.find (\<lambda>c. \<exists>path. documents sample_spec path c) (rq_Candidates req) of
         None \<Rightarrow> \<not> cr_Found r \<and> cr_Path r = ''''
       | Some c \<Rightarrow> cr_Found r \<and> documents sample_spec (cr_Path r) c \<and> cr_Method r = to_upper (fst c)"
      using capabilities_are_documented [OF insertion_sort_sorts r(1)] by blast
    then show ?thesis
      using sample_found r(2) by simp
  qed
  then show ?thesis
    by (auto simp add: MissingRequired_def filter_empty_conv)
qed

lemma sample_op_path:
  assumes "List.find (\<lambda>q. rq_ID q = i) Requirements = Some req" and "rq_Required req"
    and "CHR ''*'' \<notin> set (snd (hd (rq_Candidates req)))"
  shows "capabilityPath sample_caps i = snd (hd (rq_Candidates req))"
  using find_in [OF assms(1)] resolved_path [OF insertion_sort_sorts _ sample_found assms(3)] assms(2) by auto

lemma sample_capability_paths:
  "capabilityPath sample_caps ''server.version'' = ''/api/heartbeat''"
  "capabilityPath sample_caps ''platforms.list'' = ''/api/platforms''"
  "capabilityPath sample_caps ''roms.list'' = ''/api/roms''"
  "capabilityPath sample_caps ''identity.self'' = ''/api/users/me''"
  by (subst sample_op_path, simp add: Requirements_def, simp, simp, simp)+


lemma sample_fetch:
  "run_state (fetch_spec sample_server (NewClient ''http://romm/'' ''token'' None) SpecPaths []) [] =
    (Inr (sample_spec, ''/openapi.json''), [\<lparr>rqt_Base = ''http://romm'', rqt_Path = ''/openapi.json'', rqt_Query = [],
       rqt_Headers = [(''Accept'', ''application/json'')]\<rparr>])"
  by (simp add: SpecPaths_def GetUnauthenticated_def Get_def sample_server_def LimitReader_def maxBody_def credential_def
      NewClient_def trim_right_def sample_spec_read)

definition x_api_key :: AuthScheme where "x_api_key = AuthSchemes ! 1"

definition sample_client :: Client where
  "sample_client = \<lparr>cl_BaseURL = ''http://romm'', cl_Token = ''token'', cl_Scheme = Some x_api_key\<rparr>"

lemma sample_clients:
  "NewClient ''http://romm/'' ''token'' None = sample_client\<lparr>cl_Scheme := None\<rparr>"
  "NewClient ''http://romm/'' ''token'' (Some x_api_key) = sample_client"
  by (simp_all add: NewClient_def trim_right_def sample_client_def)

lemma sample_get:
  "run_state (Get sample_server sample_client path q) s =
    (Inr (200, Some (if path = ''/openapi.json'' then JObj [(''paths'', sample_paths)]
      else if path = ''/api/roms'' then JArr [JObj [(''id'', JNum \<lparr>jn_text = ''7'', jn_int = 7\<rparr>), (''sha1_hash'', JStr ''ab'')]]
      else JArr [])),
     s @ [\<lparr>rqt_Base = ''http://romm'', rqt_Path = path, rqt_Query = q,
       rqt_Headers = [(''Accept'', ''application/json''), (''X-Api-Key'', ''token'')]\<rparr>])"
  by (simp add: Get_def sample_server_def Let_def LimitReader_def maxBody_def credential_def sample_client_def
      x_api_key_def AuthSchemes_def)

lemma sample_detect:
  "\<exists>s'. run_state (DetectAuthScheme sample_server ''http://romm/'' ''token'' ''/api/users/me'') s = (Inr (x_api_key, 200), s')"
proof -
  have schemes: "AuthSchemes = AuthSchemes ! 0 # x_api_key # drop 2 AuthSchemes"
    by (simp add: AuthSchemes_def x_api_key_def)
  have "\<exists>s'. run_state (Get sample_server (NewClient ''http://romm/'' ''token'' (Some (AuthSchemes ! 0))) ''/api/users/me'' []) s =
      (Inr (401, None), s')"
    by (simp add: Get_def sample_server_def Let_def LimitReader_def maxBody_def credential_def NewClient_def AuthSchemes_def)
  then show ?thesis
    unfolding DetectAuthScheme_def by (subst schemes) (auto simp add: sample_clients sample_get)
qed

lemma sample_hash_fields: "isHashField ''sha1_hash''" "\<not> isHashField ''id''"
  by code_simp+

lemma sample_shapes:
  assumes "rp_Capabilities r = sample_caps"
  shows "\<exists>rep s'. run_state (probe_shapes sample_server (connect_options ''http://romm/'' ''token'') sample_client r) s = (rep, s') \<and>
    rp_Blockers rep = rp_Blockers r \<and> same_probe r rep"
proof -
  have "cl_Scheme sample_client \<noteq> None"
    by (simp add: sample_client_def)
  then show ?thesis
    using assms by (simp add: probe_shapes_def probeFields_def sample_capability_paths sample_get firstObject_def
        shapeOf_def report_hashes_def sample_hash_fields Let_def connect_options_def same_probe_def add_finding_def)
qed

lemma sample_connects:
  obtains c rep sent where
    "run_state (RommConnect insertion_sort sample_server 0 ''http://romm/'' ''token'') [] = (Inr (c, rep), sent)"
proof -
  let ?o = "connect_options ''http://romm/'' ''token''"
  let ?rep0 = "report_spec insertion_sort sample_spec ''/openapi.json'' (new_report ?o 0)"
  let ?rep1 = "add_finding (CredentialAccepted ''x-api-key'' 200) (?rep0\<lparr>rp_AuthScheme := ''x-api-key''\<rparr>)"
  have o: "po_BaseURL ?o = ''http://romm/''" "po_Token ?o = ''token''" "trim_space ''http://romm/'' \<noteq> ''''"
    by (simp_all add: connect_options_def trim_space_def is_space_def)
  have rep0: "rp_Capabilities ?rep0 = sample_caps" "rp_Blockers ?rep0 = []"
    by (simp_all add: report_spec_def new_report_def Let_def sample_missing)
  have key: "as_ID x_api_key = ''x-api-key''" "LookupAuthScheme ''x-api-key'' = Some x_api_key"
    by (simp_all add: x_api_key_def AuthSchemes_def LookupAuthScheme_def)
  have cred: "\<exists>s2. run_state (probe_credential sample_server ?o (sample_client\<lparr>cl_Scheme := None\<rparr>) ?rep0) s1 =
      ((?rep1, sample_client), s2)" for s1
    using sample_detect [of s1]
    by (auto simp add: probe_credential_def auth_probe_path_def rep0 sample_capability_paths o key sample_client_def)
  have version: "\<exists>s3. run_state (probeServerVersion sample_server sample_client sample_caps) s2 = ('''', s3)" for s2
    by (simp add: probeServerVersion_def sample_capability_paths sample_get)
  obtain s1 where 1: "run_state (fetch_spec sample_server (sample_client\<lparr>cl_Scheme := None\<rparr>) SpecPaths []) [] =
      (Inr (sample_spec, ''/openapi.json''), s1)"
    using sample_fetch unfolding sample_clients by blast
  obtain s2 where 2: "run_state (probe_credential sample_server ?o (sample_client\<lparr>cl_Scheme := None\<rparr>) ?rep0) s1 =
      ((?rep1, sample_client), s2)"
    using cred by blast
  obtain s3 where 3: "run_state (probeServerVersion sample_server sample_client sample_caps) s2 = ('''', s3)"
    using version by blast
  let ?rep2 = "report_version '''' ?rep1"
  have rep2: "rp_Capabilities ?rep2 = sample_caps" "rp_Blockers ?rep2 = []" "rp_AuthScheme ?rep2 = ''x-api-key''"
    using rep0 by (simp_all add: report_version_def add_finding_def)
  obtain rep s4 where 4: "run_state (probe_shapes sample_server ?o sample_client ?rep2) s3 = (rep, s4)"
    "rp_Blockers rep = []" "same_probe ?rep2 rep"
    using sample_shapes [OF rep2(1), of s3] rep2(2) by auto
  have probe: "run_state (Probe insertion_sort sample_server 0 ?o) [] = (Inr rep, s4)"
    unfolding Probe_def by (simp add: o sample_clients 1 2 3 4 rep0 Let_def)
  have "connect_check ''http://romm/'' ''token'' rep = Inr (sample_client, rep)"
    using 4 rep2 key by (simp add: connect_check_def same_probe_def sample_missing sample_clients)
  then show thesis
    using that probe by (simp add: RommConnect_def)
qed

theorem connection_is_confirmed_witness:
  "\<exists>(rep :: Report) sent. \<exists>sch\<in>set AuthSchemes. confirmed sample_server
     (auth_request ''http://romm/'' ''token'' (auth_probe_path (rp_Capabilities rep)) sch) sent"
proof (rule sample_connects)
  fix c rep sent
  assume "run_state (RommConnect insertion_sort sample_server 0 ''http://romm/'' ''token'') [] = (Inr (c, rep), sent)"
  note run = this
  have ex: "\<exists>sch\<in>set AuthSchemes. confirmed sample_server
      (auth_request ''http://romm/'' ''token'' (auth_probe_path (rp_Capabilities rep)) sch) sent"
    using connection_is_confirmed [OF insertion_sort_sorts run] by (elim conjE bexE) (rule bexI)
  show ?thesis
    by (rule exI [of _ rep], rule exI [of _ sent], rule ex)
qed


end
