(* ===== verification/Scan.thy ===== *)
theory Scan
  imports Classify Publish "HOL-Library.State_Monad"
begin

text \<open>
  The scan of a RomM library, \<open>src/bridge/scan/scan.go\<close>: it lists what the server holds page by
  page, downloads and analyses every record of one platform, classifies it against the reference
  selection and assembles the local item.  The interface \<open>Source\<close> is a record of operations in a
  state monad, so a source may answer differently each time; what its clients rely on is the locale
  \<open>library_source\<close>.  The text of notes is a parameter.
\<close>

section \<open>The source\<close>

record ROMRecord =
  rec_ID :: string
  rec_PlatformSlug :: string
  rec_Name :: string
  rec_FSName :: string
  rec_FSSizeBytes :: int
  rec_Hashes :: "(string \<times> string) list"

record Page =
  pg_Limit :: int
  pg_Offset :: int

record ('s, 'e) Source =
  so_ListROMs :: "Page \<Rightarrow> ('s, 'e + ROMRecord list \<times> bool) state"
  so_Download :: "ROMRecord \<Rightarrow> ('s, 'e + stream \<times> int) state"

record PlatformSource =
  ps_RomMSlug :: string
  ps_Platform :: PlatformID
  ps_Selection :: "Selection option"

section \<open>One record\<close>

datatype read_error = ReadShort nat int | ReadLong int | ReadStream string

text \<open>Why a record was skipped, with the values its text is formatted from.\<close>

datatype 'e skip_reason =
    SkipNoCatalogue
  | SkipDownload 'e
  | SkipSize read_error
  | SkipClassified Classification "class_note option"

datatype 'e scan_error =
    ScanListing 'e
  | ScanAnalysis ROMRecord verify_error
  | ScanAssembly ROMRecord item_error

record 'e scan_result =
  sr_Items :: "Item list"
  sr_Skipped :: "(ROMRecord \<times> 'e skip_reason) list"
  sr_Scanned :: int

text \<open>What a scanner is given: hashes, \<open>archive/zip\<close>, the sort of matches, the text of notes, its analyzer, its
  page size and its clock.\<close>

record scanner =
  sn_Hashes :: hashes
  sn_Zip :: zip_reader
  sn_Sort :: "Match sorter"
  sn_NoteText :: "vnote \<Rightarrow> string"
  sn_ClassText :: "class_note \<Rightarrow> string"
  sn_Analyzer :: "Analyzer option"
  sn_PageSize :: int
  sn_Now :: instant

definition scan_analyzer :: "scanner \<Rightarrow> Analyzer" where
  "scan_analyzer sc = (case sn_Analyzer sc of Some a \<Rightarrow> a
     | None \<Rightarrow> \<lparr>az_Registry = None, az_MaxInMemory = 0, az_MaxArchiveMember = 0, az_Temp = None, az_Spill = None\<rparr>)"

definition scan_pageSize :: "scanner \<Rightarrow> int" where
  "scan_pageSize sc = (if sn_PageSize sc > 0 then sn_PageSize sc else 50)"

text \<open>\<open>io.ReadAll\<close> when no size is declared, otherwise exactly the declared size.\<close>

definition readAllLimited :: "stream \<Rightarrow> int \<Rightarrow> read_error + bytes" where
  "readAllLimited r declaredSize =
     (if declaredSize \<le> 0 then (case snd r of None \<Rightarrow> Inr (fst r) | Some m \<Rightarrow> Inl (ReadStream m))
      else if int (length (fst r)) < declaredSize then Inl (ReadShort (length (fst r)) declaredSize)
      else if int (length (fst r)) > declaredSize then Inl (ReadLong declaredSize)
      else Inr (fst r))"

definition joinNotes :: "class_note list \<Rightarrow> class_note option" where
  "joinNotes notes = last_opt notes"

text \<open>The item of a record that is eligible.\<close>

definition assemble :: "scanner \<Rightarrow> AResult \<Rightarrow> ClassOutcome \<Rightarrow> Item" where
  "assemble sc res outcome =
     \<lparr>it_FileID = FileIDFromCanonicalDigest (hash_sha256 (sn_Hashes sc)) (d_SHA256 (rs_Canonical res)),
      it_GameID = (case oc_Match outcome of None \<Rightarrow> ''''
        | Some m \<Rightarrow> GameIDFromReference (hash_sha256 (sn_Hashes sc)) (rm_Family m) (rm_CanonicalKey m)),
      it_Platform = rs_Platform res, it_Stored = rs_Stored res, it_Container = rs_Container res,
      it_Canonical = rs_Canonical res, it_Adapter = rs_Adapter res,
      it_Classification = oc_Classification outcome, it_Reference = oc_Match outcome,
      it_Notes = map (sn_NoteText sc) (rs_Notes res) @ map (sn_ClassText sc) (oc_Notes outcome),
      it_Availability = AvailAvailable, it_Destination = StateOther '''', it_LastVerifiedAt = sn_Now sc\<rparr>"

text \<open>\<open>scanOne\<close> after the download.\<close>

definition scan_bytes :: "scanner \<Rightarrow> PlatformSource \<Rightarrow> Selection \<Rightarrow> ROMRecord \<Rightarrow> bytes
    \<Rightarrow> 'e scan_error + 'e skip_reason + Item" where
  "scan_bytes sc ps sel r buf =
     (case Analyze (sn_Hashes sc) (sn_Zip sc) (scan_analyzer sc) \<lparr>pl_bytes = buf, pl_bad = None\<rparr> (length buf)
         (rec_FSName r) (ps_Platform ps) of
        Inl e \<Rightarrow> Inl (ScanAnalysis r e)
      | Inr res \<Rightarrow>
        (let outcome = Classify (sn_Sort sc) (Some res) sel (rec_Name r) in
         if \<not> class_Publishable (oc_Classification outcome)
         then Inr (Inl (SkipClassified (oc_Classification outcome) (joinNotes (oc_Notes outcome))))
         else let item = assemble sc res outcome in
         case item_Validate (hash_sha256 (sn_Hashes sc)) item of
           Some e \<Rightarrow> Inl (ScanAssembly r e)
         | None \<Rightarrow> Inr (Inr item)))"

definition scan_download :: "scanner \<Rightarrow> PlatformSource \<Rightarrow> Selection \<Rightarrow> ROMRecord \<Rightarrow> 'e + stream \<times> int
    \<Rightarrow> 'e scan_error + 'e skip_reason + Item" where
  "scan_download sc ps sel r d =
     (case d of
        Inl e \<Rightarrow> Inr (Inl (SkipDownload e))
      | Inr (rc, declared) \<Rightarrow>
        (case readAllLimited rc declared of
           Inl e \<Rightarrow> Inr (Inl (SkipSize e))
         | Inr buf \<Rightarrow> scan_bytes sc ps sel r buf))"

definition scanOne :: "scanner \<Rightarrow> ('s, 'e) Source \<Rightarrow> PlatformSource \<Rightarrow> ROMRecord
    \<Rightarrow> ('s, 'e scan_error + 'e skip_reason + Item) state" where
  "scanOne sc src ps r =
     (case ps_Selection ps of
        None \<Rightarrow> State_Monad.return (Inr (Inl SkipNoCatalogue))
      | Some sel \<Rightarrow> do {
          d \<leftarrow> so_Download src r;
          State_Monad.return (scan_download sc ps sel r d) })"

section \<open>The loops\<close>

text \<open>The record counted, then skipped or added.\<close>

definition take_record :: "'e scan_result \<Rightarrow> ROMRecord \<Rightarrow> 'e scan_error + 'e skip_reason + Item
    \<Rightarrow> 'e scan_result \<times> 'e scan_error option" where
  "take_record res r x =
     (let res1 = res\<lparr>sr_Scanned := sr_Scanned res + 1\<rparr> in
      case x of
        Inl e \<Rightarrow> (res1, Some e)
      | Inr (Inl reason) \<Rightarrow> (res1\<lparr>sr_Skipped := sr_Skipped res1 @ [(r, reason)]\<rparr>, None)
      | Inr (Inr item) \<Rightarrow> (res1\<lparr>sr_Items := sr_Items res1 @ [item]\<rparr>, None))"

fun scan_page :: "scanner \<Rightarrow> ('s, 'e) Source \<Rightarrow> PlatformSource \<Rightarrow> ROMRecord list \<Rightarrow> 'e scan_result
    \<Rightarrow> ('s, 'e scan_result \<times> 'e scan_error option) state" where
  "scan_page sc src ps [] res = State_Monad.return (res, None)"
| "scan_page sc src ps (r # rs) res =
     (if rec_PlatformSlug r \<noteq> ps_RomMSlug ps then scan_page sc src ps rs res
      else do {
        x \<leftarrow> scanOne sc src ps r;
        (case take_record res r x of
           (res', Some e) \<Rightarrow> State_Monad.return (res', Some e)
         | (res', None) \<Rightarrow> scan_page sc src ps rs res') })"

text \<open>The paging loop, for at most so many pages; \<open>None\<close> is a scan that asks for more.\<close>

fun scan_pages :: "nat \<Rightarrow> scanner \<Rightarrow> ('s, 'e) Source \<Rightarrow> PlatformSource \<Rightarrow> int \<Rightarrow> 'e scan_result
    \<Rightarrow> ('s, ('e scan_result \<times> 'e scan_error option) option) state" where
  "scan_pages 0 sc src ps offset res = State_Monad.return None"
| "scan_pages (Suc n) sc src ps offset res = do {
     l \<leftarrow> so_ListROMs src \<lparr>pg_Limit = scan_pageSize sc, pg_Offset = offset\<rparr>;
     (case l of
        Inl e \<Rightarrow> State_Monad.return (Some (res, Some (ScanListing e)))
      | Inr (page, hasMore) \<Rightarrow> do {
          s \<leftarrow> scan_page sc src ps page res;
          (case s of
             (res', Some e) \<Rightarrow> State_Monad.return (Some (res', Some e))
           | (res', None) \<Rightarrow>
             if \<not> hasMore \<or> page = [] then State_Monad.return (Some (res', None))
             else scan_pages n sc src ps (offset + int (length page)) res') }) }"

definition no_result :: "'e scan_result" where
  "no_result = \<lparr>sr_Items = [], sr_Skipped = [], sr_Scanned = 0\<rparr>"

definition item_less :: "Item \<Rightarrow> Item \<Rightarrow> bool" where
  "item_less a b = (it_FileID a < it_FileID b)"

definition ScanPlatform :: "nat \<Rightarrow> Item sorter \<Rightarrow> scanner \<Rightarrow> ('s, 'e) Source \<Rightarrow> PlatformSource
    \<Rightarrow> ('s, ('e scan_result \<times> 'e scan_error option) option) state" where
  "ScanPlatform pages srt sc src ps = do {
     r \<leftarrow> scan_pages pages sc src ps 0 no_result;
     State_Monad.return (case r of
       None \<Rightarrow> None
     | Some (res, Some e) \<Rightarrow> Some (res, Some e)
     | Some (res, None) \<Rightarrow> Some (res\<lparr>sr_Items := srt item_less (sr_Items res)\<rparr>, None)) }"

section \<open>Results of a run\<close>

lemma pred_return [simp]: "pred_state P (State_Monad.return x) \<longleftrightarrow> P x"
  by (auto simp add: State_Monad.return_def pred_fun_def)

lemma pred_bind:
  assumes "pred_state Q m" and "\<And>x. Q x \<Longrightarrow> pred_state P (f x)"
  shows "pred_state P (State_Monad.bind m f)"
  using assms by (intro bind_predI) (auto elim: state.pred_mono_strong)

lemma pred_any: "pred_state (\<lambda>_. True) m"
  by (rule pred_stateI) simp

lemma pred_run: "pred_state P m \<Longrightarrow> P (fst (run_state m s))"
  by (rule pred_state_run_state)

text \<open>A property of results that every record keeps holds of the scan.\<close>

definition keeps_result :: "scanner \<Rightarrow> PlatformSource \<Rightarrow> ('e scan_result \<Rightarrow> bool) \<Rightarrow> bool" where
  "keeps_result sc ps P = (\<forall>res r d res'. P res \<longrightarrow> rec_PlatformSlug r = ps_RomMSlug ps \<longrightarrow>
     take_record res r (case ps_Selection ps of None \<Rightarrow> Inr (Inl SkipNoCatalogue) | Some sel \<Rightarrow> scan_download sc ps sel r d) =
       (res', None) \<longrightarrow> P res')"

definition stops_on :: "scanner \<Rightarrow> PlatformSource \<Rightarrow> ('e scan_result \<Rightarrow> bool) \<Rightarrow> 'e scan_result \<times> 'e scan_error option \<Rightarrow> bool" where
  "stops_on sc ps P x = (case x of
       (res, None) \<Rightarrow> P res
     | (res, Some (ScanListing e)) \<Rightarrow> P res
     | (res', Some e) \<Rightarrow> \<exists>res r d. P res \<and> rec_PlatformSlug r = ps_RomMSlug ps \<and> (\<exists>sel. ps_Selection ps = Some sel \<and>
         scan_download sc ps sel r d = Inl e \<and> take_record res r (Inl e) = (res', Some e)))"

lemma scan_download_no_listing: "scan_download sc ps sel r d \<noteq> Inl (ScanListing e)"
  by (auto simp add: scan_download_def scan_bytes_def Let_def split: sum.splits prod.splits option.splits)

lemma take_record_Some: "take_record res r x = (res', Some e) \<longleftrightarrow> x = Inl e \<and> res' = res\<lparr>sr_Scanned := sr_Scanned res + 1\<rparr>"
  by (auto simp add: take_record_def Let_def split: sum.splits)

lemma stops_on_None [simp]: "stops_on sc ps P (res, None) = P res"
  by (simp add: stops_on_def)

lemma scan_page_stops:
  assumes "keeps_result sc ps P"
  shows "P res \<Longrightarrow> pred_state (\<lambda>x. stops_on sc ps P x \<and> (\<forall>e. snd x \<noteq> Some (ScanListing e))) (scan_page sc src ps rs res)"
proof (induction rs arbitrary: res)
  case (Cons r rs)
  show ?case
  proof (cases "rec_PlatformSlug r = ps_RomMSlug ps")
    case True
    let ?x = "\<lambda>x. \<exists>d. x = (case ps_Selection ps of None \<Rightarrow> Inr (Inl SkipNoCatalogue) | Some sel \<Rightarrow> scan_download sc ps sel r d)"
    have one: "pred_state ?x (scanOne sc src ps r)"
      by (auto simp add: scanOne_def split: option.splits intro!: pred_bind [OF pred_any])
    have "pred_state (\<lambda>x. stops_on sc ps P x \<and> (\<forall>e. snd x \<noteq> Some (ScanListing e)))
        (case take_record res r x of (res', Some e) \<Rightarrow> State_Monad.return (res', Some e) | (res', None) \<Rightarrow> scan_page sc src ps rs res')"
      if x: "?x x" for x
    proof (cases "take_record res r x")
      case (Pair res' e)
      show ?thesis
      proof (cases e)
        case None
        then have "P res'"
          using assms Cons.prems x True Pair unfolding keeps_result_def by blast
        then show ?thesis
          using Cons.IH Pair None by simp
      next
        case (Some e')
        have inl: "x = Inl e'" "take_record res r (Inl e') = (res', Some e')"
          using Pair Some by (auto simp add: take_record_Some)
        obtain sel d where "ps_Selection ps = Some sel" "scan_download sc ps sel r d = Inl e'"
          using x inl(1) by (auto split: option.splits)
        then show ?thesis
          using Pair Some inl(2) Cons.prems True scan_download_no_listing [of sc ps sel r d]
          by (auto simp add: stops_on_def split: scan_error.splits)
      qed
    qed
    with one show ?thesis
      using True by (auto intro: pred_bind)
  qed (use Cons in simp)
qed (simp add: stops_on_def)

lemma scan_pages_stops:
  assumes "keeps_result sc ps P"
  shows "P res \<Longrightarrow> pred_state (pred_option (stops_on sc ps P)) (scan_pages n sc src ps offset res)"
proof (induction n arbitrary: offset res)
  case (Suc n)
  note page = scan_page_stops [OF assms Suc.prems]
  have "pred_state (pred_option (stops_on sc ps P))
      (case x of (res', Some e) \<Rightarrow> State_Monad.return (Some (res', Some e))
       | (res', None) \<Rightarrow> if \<not> hasMore \<or> pg = [] then State_Monad.return (Some (res', None))
           else scan_pages n sc src ps (offset + int (length pg)) res')"
    if "stops_on sc ps P x \<and> (\<forall>e. snd x \<noteq> Some (ScanListing e))" for x hasMore pg
  proof (cases x)
    case (Pair res' e)
    then show ?thesis
      using that Suc.IH by (cases e) auto
  qed
  note rest = pred_bind [OF page this]
  have listing: "stops_on sc ps P (res, Some (ScanListing e))" for e
    using Suc.prems by (simp add: stops_on_def)
  show ?case
    unfolding scan_pages.simps
  proof (rule pred_bind [OF pred_any], goal_cases)
    case (1 l)
    show ?case
    proof (cases l)
      case (Inr pm)
      obtain pg hasMore where "pm = (pg, hasMore)"
        by (cases pm)
      with Inr show ?thesis
        using rest by (simp only: sum.case prod.case)
    qed (simp add: listing)
  qed
qed simp

lemma ScanPlatform_stops:
  assumes "keeps_result sc ps P" and "P no_result"
    and "fst (run_state (ScanPlatform pages srt sc src ps) s) = Some (res, e)"
  shows "\<exists>res0. stops_on sc ps P (res0, e) \<and>
    (if e = None then res = res0\<lparr>sr_Items := srt item_less (sr_Items res0)\<rparr> else res = res0)"
proof -
  have "pred_option (stops_on sc ps P) (fst (run_state (scan_pages pages sc src ps 0 no_result) s))"
    by (rule pred_run [OF scan_pages_stops [OF assms(1,2)]])
  then show ?thesis
    using assms(3) by (auto simp add: ScanPlatform_def split: prod.splits option.splits)
qed

section \<open>What a scan yields\<close>

lemma item_less_weak: "strict_weak item_less"
  unfolding item_less_def by (rule strict_weak_key)

text \<open>C34: no record is lost silently: whatever the source answers, the items and the skipped records of a
  scan add up to the records it counted, and an error while a record is analysed or assembled
  leaves out exactly that one record.\<close>

theorem scan_accounts_for_records:
  fixes res :: "'c scan_result"
  assumes "sorts srt" and "fst (run_state (ScanPlatform pages srt sc src ps) s) = Some (res, e)"
  shows "int (length (sr_Items res)) + int (length (sr_Skipped res)) =
    sr_Scanned res - (case e of Some (ScanAnalysis _ _) \<Rightarrow> 1 | Some (ScanAssembly _ _) \<Rightarrow> 1 | _ \<Rightarrow> 0)"
proof -
  let ?P = "\<lambda>res :: 'c scan_result. int (length (sr_Items res)) + int (length (sr_Skipped res)) = sr_Scanned res"
  have "keeps_result sc ps ?P"
    unfolding keeps_result_def take_record_def Let_def by (auto split: sum.splits)
  then obtain res0 where res0: "stops_on sc ps ?P (res0, e)"
    "if e = None then res = res0\<lparr>sr_Items := srt item_less (sr_Items res0)\<rparr> else res = res0"
    using ScanPlatform_stops [OF _ _ assms(2)] by (fastforce simp add: no_result_def)
  have "length (srt item_less xs) = length xs" for xs
    using assms(1) item_less_weak unfolding sorts_def by (metis size_mset)
  then show ?thesis
    using res0 by (auto simp add: stops_on_def take_record_Some split: option.splits scan_error.splits if_splits)
qed


lemma memory_file_analysed:
  assumes "sn_Analyzer sc = None"
  shows "\<exists>a. Analyze H zr (scan_analyzer sc) \<lparr>pl_bytes = buf, pl_bad = None\<rparr> (length buf) name hint = Inr a \<and>
    rs_Stored a = DigestBytes H buf \<and> (rs_Canonicalized a \<longrightarrow> (\<exists>inner. canonical_of H (registry (scan_analyzer sc)) inner a))"
  using readable_file_is_analysed [of "\<lparr>pl_bytes = buf, pl_bad = None\<rparr>" "scan_analyzer sc" H zr name hint] assms
  by (auto simp add: scan_analyzer_def)


lemma default_adapter_named:
  assumes "sn_Analyzer sc = None" and "ad \<in> set (registry (scan_analyzer sc))"
  shows "ad_Platform ad \<noteq> ''''" and "ar_ID (ad_Ref ad) \<noteq> ''''" and "ar_Version (ad_Ref ad) \<noteq> ''''"
  using assms
  by (auto simp add: scan_analyzer_def registry_def DefaultRegistry_list adapter_defs NintendoDSAdapter_def
      PlatformGB_def PlatformGBC_def PlatformGBA_def PlatformNDS_def PlatformGenesis_def)

text \<open>The assembly of an eligible record never fails: what \<open>scanOne\<close> expects of its own check.\<close>

lemma assembled_item_valid:
  assumes "sn_Analyzer sc = None" and "\<forall>b. length (hash_sha256 (sn_Hashes sc) b) = 32"
    and "Analyze (sn_Hashes sc) zr (scan_analyzer sc) \<lparr>pl_bytes = buf, pl_bad = None\<rparr> (length buf) name hint = Inr a"
    and "oc_Classification (Classify srt (Some a) sel title) = ClassVerifiedEligible"
  shows "item_Validate (hash_sha256 (sn_Hashes sc)) (assemble sc a (Classify srt (Some a) sel title)) = None"
proof -
  note f = eligible_facts [OF assms(4)]
  obtain inner where "canonical_of (sn_Hashes sc) (registry (scan_analyzer sc)) inner a"
    using memory_file_analysed [OF assms(1), of "sn_Hashes sc" zr buf name hint] assms(3) f(1) by auto
  then obtain ad :: Adapter and c :: Canonical where ad: "ad \<in> set (registry (scan_analyzer sc))" "rs_Adapter a = ad_Ref ad"
    "rs_Platform a = ad_Platform ad" "rs_Canonical a = DigestBytes (sn_Hashes sc) (fst (ca_Reader c))"
    unfolding canonical_of_def by blast
  have "hash_sha256 (sn_Hashes sc) b \<noteq> []" for b
    using assms(2) by (metis list.size(3) zero_neq_numeral)
  then have sha: "d_SHA256 (rs_Canonical a) \<noteq> ''''"
    by (simp add: ad(4) DigestBytes_def hasher_Digest_def)
  have "length (derive (hash_sha256 (sn_Hashes sc)) domainFile [bytes_of (to_lower (d_SHA256 (rs_Canonical a)))]) = idBytes"
    using assms(2) by (simp add: derive_def idBytes_def)
  then have "validate prefixFile (FileIDFromCanonicalDigest (hash_sha256 (sn_Hashes sc)) (d_SHA256 (rs_Canonical a))) = None"
    unfolding FileIDFromCanonicalDigest_def by (rule validate_accepts)
  then show ?thesis
    using sha f(5) default_adapter_named [OF assms(1) ad(1)]
    by (simp add: item_Validate_iff assemble_def ad(2,3))
qed




section \<open>Examples\<close>

text \<open>A Mega Drive image that is all header, on a server with one page.\<close>

definition sample_image :: bytes where
  "sample_image = replicate 256 0 @ bytes_of ''SEGA'' @ replicate 12 0"

definition sample_rom :: ROMRecord where
  "sample_rom = \<lparr>rec_ID = ''7'', rec_PlatformSlug = ''genesis'', rec_Name = ''Tetris'', rec_FSName = ''Tetris.bin'',
     rec_FSSizeBytes = 0, rec_Hashes = []\<rparr>"

definition sample_library :: "(unit, string) Source" where
  "sample_library = \<lparr>so_ListROMs = (\<lambda>_. State_Monad.return (Inr ([sample_rom], False))),
     so_Download = (\<lambda>_. State_Monad.return (Inr ((sample_image, None), 0)))\<rparr>"

definition image_hashes :: hashes where
  "image_hashes = flat_hashes\<lparr>hash_crc := (\<lambda>_. [0x11]), hash_sha256 := (\<lambda>b. replicate 32 (of_nat (length b)))\<rparr>"

definition sample_scanner :: scanner where
  "sample_scanner = \<lparr>sn_Hashes = image_hashes, sn_Zip = (\<lambda>_ _. Inl ''not a zip''), sn_Sort = insertion_sort,
     sn_NoteText = (\<lambda>_. ''note''), sn_ClassText = (\<lambda>_. ''note''), sn_Analyzer = None, sn_PageSize = 0, sn_Now = 9\<rparr>"

definition sample_platform :: PlatformSource where
  "sample_platform = \<lparr>ps_RomMSlug = ''genesis'', ps_Platform = '''', ps_Selection = Some sample_selection\<rparr>"

lemma image_peek: "peekFrom \<lparr>pl_bytes = sample_image, pl_bad = None\<rparr> (length sample_image) nm =
    Inr \<lparr>pk_Head = sample_image, pk_Size = 272, pk_Name = nm\<rparr>"
  by (simp add: peekFrom_def ReadAt_def sample_image_def PeekSize_def Let_def bytes_of_def)

lemma image_detect:
  "ad_Detect GameBoyAdapter \<lparr>pk_Head = sample_image, pk_Size = 272, pk_Name = nm\<rparr> = ConfidenceNone"
  "ad_Detect GameBoyColorAdapter \<lparr>pk_Head = sample_image, pk_Size = 272, pk_Name = nm\<rparr> = ConfidenceNone"
  "ad_Detect GameBoyAdvanceAdapter \<lparr>pk_Head = sample_image, pk_Size = 272, pk_Name = nm\<rparr> = ConfidenceNone"
  "ad_Detect NintendoDSAdapter \<lparr>pk_Head = sample_image, pk_Size = 272, pk_Name = nm\<rparr> = ConfidenceNone"
  "ad_Detect GenesisBinAdapter \<lparr>pk_Head = sample_image, pk_Size = 272, pk_Name = nm\<rparr> = ConfidenceStrong"
  "ad_Detect GenesisSMDAdapter \<lparr>pk_Head = sample_image, pk_Size = 272, pk_Name = nm\<rparr> = ConfidenceNone"
  by (simp_all add: GameBoyAdapter_def gbHeaderPresent_def gbMinSize_def GameBoyColorAdapter_def
      GameBoyAdvanceAdapter_def gba_detect_def gbaMinSize_def peek_At_def gbaFixedByteOffset_def sample_image_def
      nth_append bytes_of_def NintendoDSAdapter_def nds_detect_def ndsHeaderSize_def
      GenesisBinAdapter_def genesisConsoleName_def genesisConsoleNameOffset_def peek_Range_def
      GenesisSMDAdapter_def smd_detect_def smdSizeShaped_def smdHeaderSize_def)

lemma image_select:
  assumes "az_Registry a = None" and "h = '''' \<or> h = PlatformGenesis"
  shows "selectAdapter (registry a) \<lparr>pk_Head = sample_image, pk_Size = 272, pk_Name = nm\<rparr> h = ((Some GenesisBinAdapter, ConfidenceStrong), [])"
proof -
  have "ad_Platform GenesisBinAdapter = PlatformGenesis"
    by (simp add: GenesisBinAdapter_def)
  then show ?thesis
    using assms by (auto simp add: selectAdapter_def registry_def DefaultRegistry_list select_step_def image_detect less_Confidence_def)
qed

lemma image_section: "NewSectionReader \<lparr>pl_bytes = sample_image, pl_bad = None\<rparr> 0 (length sample_image) = (sample_image, None)"
  by (simp add: NewSectionReader_whole)

definition sample_result :: AResult where
  "sample_result = \<lparr>rs_Name = ''Tetris.bin'', rs_Platform = PlatformGenesis,
     rs_Stored = DigestBytes image_hashes sample_image,
     rs_Container = Some \<lparr>ci_Kind = ContainerNone, ci_Members = []\<rparr>,
     rs_Canonical = DigestBytes image_hashes sample_image, rs_Adapter = \<lparr>ar_ID = ''sega.genesis.bin'', ar_Version = ''1''\<rparr>,
     rs_Confidence = ConfidenceStrong, rs_Canonicalized = True, rs_Notes = [NotePlainImage]\<rparr>"

lemma sample_zeros: "replicate 4 0 \<noteq> [80, 75, 3, 4 :: 8 word]"
  by code_simp

lemma image_unwrap: "unwrap zr a \<lparr>pl_bytes = sample_image, pl_bad = None\<rparr> (length sample_image) nm =
   \<lparr>uw_inner = Some (\<lparr>pl_bytes = sample_image, pl_bad = None\<rparr>, length sample_image, nm),
     uw_container = Some \<lparr>ci_Kind = ContainerNone, ci_Members = []\<rparr>, uw_notes = [], uw_err = None\<rparr>"
  by (simp add: unwrap_def ReadAt_def sample_image_def bytes_of_def zip_magic_def Let_def sample_zeros)

lemma sample_analyzed:
  assumes "az_Registry a = None" and "h = '''' \<or> h = PlatformGenesis"
  shows "Analyze image_hashes zr a \<lparr>pl_bytes = sample_image, pl_bad = None\<rparr> (length sample_image) ''Tetris.bin'' h = Inr sample_result"
  by (simp add: Analyze_def image_section image_unwrap analyze_payload_def image_peek image_select [OF assms] Let_def
      GenesisBinAdapter_def bin_canonicalize_def empty_result_def sample_result_def)

lemma sample_scan_analyzed:
  "Analyze image_hashes zr (scan_analyzer sample_scanner) \<lparr>pl_bytes = sample_image, pl_bad = None\<rparr> (length sample_image)
     ''Tetris.bin'' '''' = Inr sample_result"
  by (rule sample_analyzed) (simp_all add: scan_analyzer_def sample_scanner_def)

lemma sample_chars: "char_of (49 :: nat) = CHR ''1''" "char_of (48 :: nat) = CHR ''0''"
  by code_simp+

lemma image_digest: "DigestBytes image_hashes sample_image =
    \<lparr>d_Size = 272, d_CRC32 = ''11'', d_MD5 = '''', d_SHA1 = '''', d_SHA256 = concat (replicate 32 ''10'')\<rparr>"
  by (simp add: DigestBytes_def NewHasher_def hasher_Write_def hasher_Digest_def image_hashes_def flat_hashes_def
      sample_image_def bytes_of_def hex_encode_def hex_digit_def sample_chars)

lemma sample_eligible:
  "oc_Classification (Classify insertion_sort (Some (sample_result\<lparr>rs_Stored := d,
      rs_Canonical := \<lparr>d_Size = 272, d_CRC32 = ''11'', d_MD5 = '''', d_SHA1 = '''', d_SHA256 = concat (replicate 32 ''10'')\<rparr>\<rparr>))
      sample_selection ''Tetris'') = ClassVerifiedEligible"
  by code_simp

lemma sample_scanned:
  "\<exists>i. fst (run_state (ScanPlatform 1 insertion_sort sample_scanner sample_library sample_platform) ()) =
    Some (\<lparr>sr_Items = [i], sr_Skipped = [], sr_Scanned = 1\<rparr>, None)"
proof -
  let ?c = "Classify insertion_sort (Some sample_result) sample_selection ''Tetris''"
  have eligible: "oc_Classification ?c = ClassVerifiedEligible"
    using sample_eligible [of "rs_Stored sample_result"] by (simp add: sample_result_def image_digest)
  have "oc_Match ?c \<noteq> None"
    using eligible_facts(5) [OF eligible] by simp
  then have valid: "item_Validate (hash_sha256 image_hashes) (assemble sample_scanner sample_result ?c) = None"
    using assembled_item_valid [of sample_scanner "\<lambda>_ _. Inl ''not a zip''" sample_image "''Tetris.bin''" "''''" sample_result]
      sample_scan_analyzed eligible
    by (simp add: sample_scanner_def image_hashes_def)
  have "scan_download sample_scanner sample_platform sample_selection sample_rom (Inr ((sample_image, None), 0)) =
      (Inr (Inr (assemble sample_scanner sample_result ?c)) :: string scan_error + string skip_reason + Item)"
    using valid eligible sample_scan_analyzed
    by (simp add: scan_download_def readAllLimited_def scan_bytes_def sample_scanner_def sample_platform_def sample_rom_def
        class_Publishable_def Let_def)
  then show ?thesis
    by (simp add: ScanPlatform_def sample_library_def scanOne_def sample_platform_def sample_rom_def take_record_def no_result_def
        insertion_sort_def State_Monad.return_def)
qed

theorem scan_accounts_for_records_witness:
  "\<exists>res :: string scan_result. fst (run_state (ScanPlatform 1 insertion_sort sample_scanner sample_library sample_platform) ()) =
    Some (res, None) \<and> int (length (sr_Items res)) + int (length (sr_Skipped res)) = sr_Scanned res"
proof -
  obtain i where "fst (run_state (ScanPlatform 1 insertion_sort sample_scanner sample_library sample_platform) ()) =
    Some (\<lparr>sr_Items = [i], sr_Skipped = [], sr_Scanned = 1\<rparr>, None)"
    using sample_scanned by blast
  then show ?thesis
    using scan_accounts_for_records [OF insertion_sort_sorts] by fastforce
qed




end
