(* ===== verification/RommSource.thy ===== *)
theory RommSource
  imports Romm Scan Passwords
begin

text \<open>
  RomM as the source of a scan, \<open>src/bridge/scan/rommsource.go\<close>: the listing and the download over
  the paths a probe resolved.  The contract a scan relies on is the locale \<open>library_source\<close>; the
  code's source keeps it over every server that answers the listing consistently.
\<close>

section \<open>Paths\<close>

text \<open>\<open>strconv.Itoa\<close> and \<open>url.PathEscape\<close>, with its inverse.\<close>

definition Itoa :: "int \<Rightarrow> string" where
  "Itoa n = (if n < 0 then CHR ''-'' # dec_nat (nat (- n)) else dec_nat (nat n))"

definition path_plain :: "char \<Rightarrow> bool" where
  "path_plain c = (is_digit c \<or> (let n = of_char c :: nat in 65 \<le> n \<and> n \<le> 90 \<or> 97 \<le> n \<and> n \<le> 122) \<or>
     c \<in> set ''-_.~$&+:=@'')"

definition escape_char :: "char \<Rightarrow> string" where
  "escape_char c = (if path_plain c then [c] else CHR ''%'' # to_upper (hex_encode [byte_of_char c]))"

definition PathEscape :: "string \<Rightarrow> string" where
  "PathEscape s = concat (map escape_char s)"

function path_unescape :: "string \<Rightarrow> string option" where
  "path_unescape [] = Some []"
| "path_unescape (c # s) =
     (if c \<noteq> CHR ''%'' then map_option ((#) c) (path_unescape s)
      else case hex_decode (take 2 s) of
        Some [b] \<Rightarrow> map_option ((#) (char_of (unat b))) (path_unescape (drop 2 s))
      | _ \<Rightarrow> None)"
  by pat_completeness auto
termination
  by (relation "measure length") auto

datatype path_error = PathUnterminated | PathTooMany | PathNone

text \<open>The loop of \<open>substitutePath\<close>: what is left of the template and of the values.\<close>

function fill_path :: "string \<Rightarrow> string list \<Rightarrow> path_error + string" where
  "fill_path [] vs = Inr ''''"
| "fill_path (c # t) vs =
     (if c \<noteq> CHR ''{'' then map_sum id ((#) c) (fill_path t vs)
      else if CHR ''}'' \<notin> set t then Inl PathUnterminated
      else case vs of
        [] \<Rightarrow> Inl PathTooMany
      | v # vs' \<Rightarrow> map_sum id ((@) (PathEscape v)) (fill_path (tl (dropWhile (\<lambda>x. x \<noteq> CHR ''}'') t)) vs'))"
  by pat_completeness auto
termination
  by (relation "measure (\<lambda>(t, vs). length t)") (auto simp add: less_Suc_eq_le le_diff_conv intro: le_trans [OF length_dropWhile_le])

definition substitutePath :: "string \<Rightarrow> string list \<Rightarrow> path_error + string" where
  "substitutePath template values =
     (case fill_path template values of
        Inl e \<Rightarrow> Inl e
      | Inr p \<Rightarrow> if CHR ''{'' \<notin> set template then Inl PathNone else Inr p)"

section \<open>Records\<close>

text \<open>\<open>strconv.ParseInt\<close> of base 10 and 64 bits is \<open>Atoi\<close>.\<close>

fun fieldString :: "(string \<times> json) list \<Rightarrow> string list \<Rightarrow> string" where
  "fieldString obj [] = ''''"
| "fieldString obj (k # keys) =
     (case json_member obj k of
        Some (JStr t) \<Rightarrow> if t \<noteq> '''' then t else fieldString obj keys
      | Some (JNum n) \<Rightarrow> jn_text n
      | _ \<Rightarrow> fieldString obj keys)"

fun fieldInt64 :: "(string \<times> json) list \<Rightarrow> string list \<Rightarrow> int" where
  "fieldInt64 obj [] = 0"
| "fieldInt64 obj (k # keys) =
     (case json_member obj k of
        Some (JNum n) \<Rightarrow> jn_int n
      | Some (JStr t) \<Rightarrow> (case Atoi t of Some n \<Rightarrow> n | None \<Rightarrow> fieldInt64 obj keys)
      | _ \<Rightarrow> fieldInt64 obj keys)"

definition recordFromObject :: "(string \<times> json) list \<Rightarrow> ROMRecord" where
  "recordFromObject obj =
     \<lparr>rec_ID = fieldString obj [''id'', ''rom_id''],
      rec_PlatformSlug = fieldString obj [''platform_slug'', ''platform_fs_slug''],
      rec_Name = fieldString obj [''name''],
      rec_FSName = fieldString obj [''fs_name'', ''file_name'', ''filename''],
      rec_FSSizeBytes = fieldInt64 obj [''fs_size_bytes'', ''file_size_bytes'', ''size''],
      rec_Hashes = List.map_filter (\<lambda>k. case json_member obj k of
          Some (JStr s) \<Rightarrow> if s \<noteq> '''' \<and> isHashField k then Some (k, s) else None
        | _ \<Rightarrow> None) (remdups (map fst obj))\<rparr>"

fun envelope_list :: "(string \<times> json) list \<Rightarrow> string list \<Rightarrow> json list" where
  "envelope_list envelope [] = []"
| "envelope_list envelope (k # keys) =
     (case json_member envelope k of Some (JArr vs) \<Rightarrow> vs | _ \<Rightarrow> envelope_list envelope keys)"

fun envelope_total :: "(string \<times> json) list \<Rightarrow> string list \<Rightarrow> int" where
  "envelope_total envelope [] = -1"
| "envelope_total envelope (k # keys) =
     (case json_member envelope k of Some (JNum n) \<Rightarrow> jn_int n | _ \<Rightarrow> envelope_total envelope keys)"

definition decodeListing :: "json option \<Rightarrow> ((string \<times> json) list list \<times> int) option" where
  "decodeListing body =
     (case Option.bind body as_objects of
        Some objs \<Rightarrow> Some (map (case_option [] id) objs, -1)
      | None \<Rightarrow>
        (case Option.bind body as_object of
           None \<Rightarrow> None
         | Some envelope \<Rightarrow> Some (List.map_filter object_of (envelope_list envelope [''items'', ''results'', ''data'', ''roms'']),
             envelope_total envelope [''total'', ''count'', ''total_count''])))"

section \<open>The source\<close>

record RommSource =
  rso_Client :: Client
  rso_Report :: Report
  rso_MaxDownloadBytes :: int

datatype source_error =
    SourceRomm romm_error
  | SourceTemplated string
  | SourceStatus string int
  | SourceDecoding string
  | SourcePath string path_error
  | SourceTooLarge string int int

definition DefaultMaxDownloadBytes :: int where "DefaultMaxDownloadBytes = 2 ^ 30"

definition maxDownload :: "RommSource \<Rightarrow> int" where
  "maxDownload s = (if rso_MaxDownloadBytes s > 0 then rso_MaxDownloadBytes s else DefaultMaxDownloadBytes)"

definition page_query :: "Page \<Rightarrow> (string \<times> string) list" where
  "page_query page = (if pg_Limit page > 0 then [(''limit'', Itoa (pg_Limit page))] else []) @
     [(''offset'', Itoa (pg_Offset page))]"

definition listing_page :: "string \<Rightarrow> Page \<Rightarrow> romm_error + int \<times> json option \<Rightarrow> source_error + ROMRecord list \<times> bool" where
  "listing_page path page r =
     (case r of
        Inl e \<Rightarrow> Inl (SourceRomm e)
      | Inr (status, body) \<Rightarrow>
        if status \<noteq> 200 then Inl (SourceStatus path status)
        else case decodeListing body of
          None \<Rightarrow> Inl (SourceDecoding path)
        | Some (objects, tot) \<Rightarrow> Inr (map recordFromObject objects,
            if tot \<ge> 0 then pg_Offset page + int (length objects) < tot
            else pg_Limit page > 0 \<and> int (length objects) \<ge> pg_Limit page))"

definition ListROMs :: "server \<Rightarrow> RommSource \<Rightarrow> Page \<Rightarrow> (source_error + ROMRecord list \<times> bool) comm" where
  "ListROMs srv s page =
     (case Capability (rso_Report s) ''roms.list'' of
        Inl e \<Rightarrow> State_Monad.return (Inl (SourceRomm e))
      | Inr cap \<Rightarrow>
        if CHR ''{'' \<in> set (cr_Path cap) then State_Monad.return (Inl (SourceTemplated (cr_Path cap)))
        else do {
          r \<leftarrow> Get srv (rso_Client s) (cr_Path cap) (page_query page);
          State_Monad.return (listing_page (cr_Path cap) page r) })"

definition Download :: "server \<Rightarrow> RommSource \<Rightarrow> ROMRecord \<Rightarrow> (source_error + stream \<times> int) comm" where
  "Download srv s r =
     (case Capability (rso_Report s) ''roms.download'' of
        Inl e \<Rightarrow> State_Monad.return (Inl (SourceRomm e))
      | Inr cap \<Rightarrow>
        (case substitutePath (cr_Path cap) [rec_ID r, rec_FSName r] of
           Inl e \<Rightarrow> State_Monad.return (Inl (SourcePath (cr_Path cap) e))
         | Inr path \<Rightarrow> do {
             a \<leftarrow> Stream srv (rso_Client s) path;
             State_Monad.return (case a of
               Inl e \<Rightarrow> Inl (SourceRomm e)
             | Inr (status, body, contentLength) \<Rightarrow>
               if status \<noteq> 200 then Inl (SourceStatus path status)
               else if contentLength > maxDownload s then Inl (SourceTooLarge path contentLength (maxDownload s))
               else Inr (body, contentLength)) }))"

definition romm_source :: "server \<Rightarrow> RommSource \<Rightarrow> (request list, source_error) Source" where
  "romm_source srv s = \<lparr>so_ListROMs = ListROMs srv s, so_Download = Download srv s\<rparr>"

section \<open>Escaping\<close>

lemma hex_value_upper: "n < 16 \<Longrightarrow> hex_value (upper_char (hex_digit n)) = Some n"
  by (auto simp add: hex_value_def hex_digit_def upper_char_def Let_def)

lemma hex_upper_roundtrip: "hex_decode (to_upper (hex_encode [b])) = Some [b]"
proof -
  have "unat b div 16 < 16" "unat b mod 16 < 16" "16 * (unat b div 16) + unat b mod 16 = unat b"
    using byte_less [of b] by (simp_all add: less_mult_imp_div_less)
  then show ?thesis
    by (simp add: hex_encode_def to_upper_def hex_value_upper flip: of_nat_mult of_nat_add)
qed

lemma hex_pair: "\<exists>x y. to_upper (hex_encode [b]) = [x, y]"
  by (simp add: hex_encode_def to_upper_def)

lemma escape_unescape: "path_unescape (escape_char c @ s) = map_option ((#) c) (path_unescape s)"
proof (cases "path_plain c")
  case True
  then have "c \<noteq> CHR ''%''"
    by (auto simp add: path_plain_def is_digit_def Let_def)
  then show ?thesis
    using True by (simp add: escape_char_def)
next
  case False
  obtain x y where xy: "to_upper (hex_encode [byte_of_char c]) = [x, y]"
    using hex_pair by blast
  then have "hex_decode [x, y] = Some [byte_of_char c]"
    using hex_upper_roundtrip by metis
  moreover have "char_of (unat (byte_of_char c)) = c"
    by (simp add: byte_of_char_def unat_of_nat take_bit_nat_eq_self)
  ultimately show ?thesis
    using False xy by (simp add: escape_char_def numeral_2_eq_2)
qed

lemma PathEscape_Cons: "PathEscape (c # s) = escape_char c @ PathEscape s"
  by (simp add: PathEscape_def)

lemma path_unescape_PathEscape: "path_unescape (PathEscape s) = Some s"
proof (induction s)
  case (Cons c s)
  then show ?case
    by (simp only: PathEscape_Cons escape_unescape option.map)
qed (simp add: PathEscape_def)

text \<open>What an escaped text consists of.\<close>

definition path_safe :: "char \<Rightarrow> bool" where
  "path_safe c = (path_plain c \<or> c = CHR ''%'')"

lemma upper_hex_plain: "n < 16 \<Longrightarrow> path_plain (upper_char (hex_digit n))"
  by (auto simp add: path_plain_def is_digit_def hex_digit_def upper_char_def Let_def)

lemma PathEscape_safe: "c \<in> set (PathEscape s) \<Longrightarrow> path_safe c"
proof -
  have "path_plain x" if "x \<in> set (to_upper (hex_encode [b]))" for x b
    using that upper_hex_plain [of "unat b div 16"] upper_hex_plain [of "unat b mod 16"] byte_less [of b]
    by (auto simp add: hex_encode_def to_upper_def less_mult_imp_div_less)
  then show "c \<in> set (PathEscape s) \<Longrightarrow> path_safe c"
    by (auto simp add: PathEscape_def escape_char_def path_safe_def split: if_splits)
qed

lemma PathEscape_count: "\<not> path_safe c \<Longrightarrow> count_list (PathEscape s) c = 0"
  using PathEscape_safe by (auto simp add: count_list_0_iff)

lemma count_list_tail: "count_list (tl (dropWhile P xs)) c \<le> count_list xs c"
  by (induction xs) auto

lemma map_sum_Inr: "map_sum f g x = Inr y \<longleftrightarrow> (\<exists>z. x = Inr z \<and> y = g z)"
  by (cases x) auto

lemma fill_path_count:
  assumes "\<not> path_safe c"
  shows "fill_path t vs = Inr p \<Longrightarrow> count_list p c \<le> count_list t c"
proof (induction t vs arbitrary: p rule: fill_path.induct)
  case (2 d t vs)
  show ?case
  proof (cases "d = CHR ''{''")
    case True
    then obtain v vs' q where v: "CHR ''}'' \<in> set t" "vs = v # vs'" "p = PathEscape v @ q"
      "fill_path (tl (dropWhile (\<lambda>x. x \<noteq> CHR ''}'') t)) vs' = Inr q"
      using 2(3) by (auto split: if_splits list.splits simp add: map_sum_Inr)
    then have "count_list q c \<le> count_list (tl (dropWhile (\<lambda>x. x \<noteq> CHR ''}'') t)) c"
      using 2(2) True by blast
    then show ?thesis
      using v(3) assms count_list_tail [of "\<lambda>x. x \<noteq> CHR ''}''" t c] by (simp add: PathEscape_count)
  next
    case False
    then obtain q where "fill_path t vs = Inr q" "p = d # q"
      using 2(3) by (cases "fill_path t vs") auto
    then show ?thesis
      using 2(1) False by simp
  qed
qed simp

text \<open>C35: names that a server reports cannot redirect a download: whatever the identifier and the file
  name are, the requested path has no separator, query, fragment or other reserved character that
  the documented template does not have, and the values can be read back from the escaped text.\<close>

theorem download_path_is_confined:
  assumes "substitutePath t vs = Inr p"
  shows "(\<forall>c. \<not> path_safe c \<longrightarrow> count_list p c \<le> count_list t c) \<and>
    \<not> list_ex path_safe ''/?#; '' \<and> map path_unescape (map PathEscape vs) = map Some vs"
proof -
  have "fill_path t vs = Inr p"
    using assms by (auto simp add: substitutePath_def split: sum.splits if_splits)
  moreover have "\<not> list_ex path_safe ''/?#; ''"
    by (simp add: path_safe_def path_plain_def is_digit_def Let_def)
  ultimately show ?thesis
    by (simp add: fill_path_count path_unescape_PathEscape)
qed

theorem download_path_is_confined_witness:
  "substitutePath ''/api/roms/{id}/content/{name}'' [''7'', ''a/b?c''] = Inr ''/api/roms/7/content/a%2Fb%3Fc'' \<and>
    count_list ''/api/roms/7/content/a%2Fb%3Fc'' CHR ''/'' \<le> 5"
proof -
  have sub: "substitutePath ''/api/roms/{id}/content/{name}'' [''7'', ''a/b?c''] = Inr ''/api/roms/7/content/a%2Fb%3Fc''"
    by code_simp
  have "\<not> path_safe CHR ''/''"
    by (simp add: path_safe_def path_plain_def is_digit_def Let_def)
  with conjunct1 [OF download_path_is_confined [OF sub]]
  have "count_list ''/api/roms/7/content/a%2Fb%3Fc'' CHR ''/'' \<le> count_list ''/api/roms/{id}/content/{name}'' CHR ''/''"
    by blast
  with sub show ?thesis
    by simp
qed

section \<open>Downloads\<close>

lemma run_return: "run_state (State_Monad.return x) s = (x, s)"
  by (simp add: State_Monad.return_def)

lemma run_bind: "run_state (State_Monad.bind m f) s = run_state (f (fst (run_state m s))) (snd (run_state m s))"
  by (simp add: State_Monad.bind_def case_prod_beta)



section \<open>A library that does not change\<close>

text \<open>The scan of a list of records, without pages.\<close>

fun scan_all :: "scanner \<Rightarrow> PlatformSource \<Rightarrow> (ROMRecord \<Rightarrow> 'e + stream \<times> int) \<Rightarrow> ROMRecord list \<Rightarrow> 'e scan_result
    \<Rightarrow> 'e scan_result \<times> 'e scan_error option" where
  "scan_all sc ps dl [] res = (res, None)"
| "scan_all sc ps dl (r # rs) res =
     (if rec_PlatformSlug r \<noteq> ps_RomMSlug ps then scan_all sc ps dl rs res
      else case take_record res r (case ps_Selection ps of None \<Rightarrow> Inr (Inl SkipNoCatalogue)
          | Some sel \<Rightarrow> scan_download sc ps sel r (dl r)) of
        (res', Some e) \<Rightarrow> (res', Some e)
      | (res', None) \<Rightarrow> scan_all sc ps dl rs res')"

lemma scan_all_append:
  "scan_all sc ps dl (xs @ ys) res =
     (case scan_all sc ps dl xs res of (res', Some e) \<Rightarrow> (res', Some e) | (res', None) \<Rightarrow> scan_all sc ps dl ys res')"
  by (induction xs arbitrary: res) (auto split: prod.splits option.splits)

text \<open>What a scan needs of a source for its pages not to show: whatever was asked before, a page is the
  part of one list that was asked for, only at its very end may the source be wrong about more,
  and the answer to a download depends on the record alone.\<close>

locale library_source =
  fixes src :: "('s, 'e) Source" and lib :: "ROMRecord list" and dl :: "ROMRecord \<Rightarrow> 'e + stream \<times> int"
  assumes listing: "0 < l \<Longrightarrow> 0 \<le> off \<Longrightarrow> \<exists>more. fst (run_state (so_ListROMs src \<lparr>pg_Limit = l, pg_Offset = off\<rparr>) s) =
      Inr (take (nat l) (drop (nat off) lib), more) \<and> (more \<longrightarrow> off + l \<le> int (length lib)) \<and>
      (\<not> more \<longrightarrow> int (length lib) \<le> off + l)"
    and download: "fst (run_state (so_Download src r) s) = dl r"
begin

lemma scan_one: "fst (run_state (scanOne sc src ps r) s) =
    (case ps_Selection ps of None \<Rightarrow> Inr (Inl SkipNoCatalogue) | Some sel \<Rightarrow> scan_download sc ps sel r (dl r))"
  by (simp add: scanOne_def download case_prod_beta split: option.split)

lemma page_is_part: "fst (run_state (scan_page sc src ps rs res) s) = scan_all sc ps dl rs res"
proof (induction rs arbitrary: res s)
  case (Cons r rs)
  show ?case
    using scan_one [of sc ps r s] Cons
    by (auto simp add: run_return run_bind split: prod.splits option.splits)
qed (simp add: run_return)

lemma page_and_rest:
  assumes "0 \<le> off" and "0 < l"
  shows "drop (nat off) lib = take (nat l) (drop (nat off) lib) @ drop (nat (off + l)) lib"
proof -
  have "drop (nat (off + l)) lib = drop (nat l) (drop (nat off) lib)"
    using assms by (simp add: nat_add_distrib add.commute)
  then show ?thesis
    by (metis append_take_drop_id)
qed

lemma pages_are_whole:
  assumes "0 \<le> off" and "off \<le> int (length lib)" and "int (length lib) < off + int n * scan_pageSize sc"
  shows "fst (run_state (scan_pages n sc src ps off res) s) = Some (scan_all sc ps dl (drop (nat off) lib) res)"
  using assms
proof (induction n arbitrary: off res s)
  case (Suc n)
  let ?l = "scan_pageSize sc"
  let ?page = "take (nat ?l) (drop (nat off) lib)"
  have l: "0 < ?l"
    by (simp add: scan_pageSize_def)
  obtain more where more: "fst (run_state (so_ListROMs src \<lparr>pg_Limit = ?l, pg_Offset = off\<rparr>) s) = Inr (?page, more)"
    "more \<Longrightarrow> off + ?l \<le> int (length lib)" "\<not> more \<Longrightarrow> int (length lib) \<le> off + ?l"
    using listing [OF l Suc.prems(1), of s] by blast
  have whole: "drop (nat off) lib = ?page @ drop (nat (off + ?l)) lib"
    by (rule page_and_rest) (use l Suc.prems(1) in simp_all)
  obtain res' e where pg: "scan_all sc ps dl ?page res = (res', e)"
    by fastforce
  have rhs: "scan_all sc ps dl (drop (nat off) lib) res =
      (case e of Some e' \<Rightarrow> (res', Some e') | None \<Rightarrow> scan_all sc ps dl (drop (nat (off + ?l)) lib) res')"
    by (subst whole) (simp add: scan_all_append pg)
  show ?case
  proof (cases more)
    case True
    then have page: "?page \<noteq> []" "int (length ?page) = ?l"
      using more(2) l Suc.prems(1) by (auto simp add: min_def)
    have "fst (run_state (scan_pages n sc src ps (off + ?l) res') s') = Some (scan_all sc ps dl (drop (nat (off + ?l)) lib) res')" for s'
      using Suc.IH [of "off + ?l"] Suc.prems l more(2) True by (simp add: algebra_simps)
    then show ?thesis
      unfolding rhs scan_pages.simps run_bind more(1) sum.case prod.case page_is_part pg
      using page True by (cases e) (simp_all add: run_return del: take_eq_Nil)
  next
    case False
    then have "drop (nat (off + ?l)) lib = []"
      using more(3) by simp
    then show ?thesis
      unfolding rhs scan_pages.simps run_bind more(1) sum.case prod.case page_is_part pg
      using False by (cases e) (simp_all add: run_return)
  qed
qed simp

theorem paging_is_invisible:
  assumes "int (length lib) < int pages * scan_pageSize sc"
  shows "fst (run_state (ScanPlatform pages srt sc src ps) s) =
    Some (case scan_all sc ps dl lib no_result of
        (res, Some e) \<Rightarrow> (res, Some e)
      | (res, None) \<Rightarrow> (res\<lparr>sr_Items := srt item_less (sr_Items res)\<rparr>, None))"
  using pages_are_whole [of 0 pages sc ps no_result s] assms
  by (auto simp add: ScanPlatform_def run_return run_bind split: prod.splits option.splits)

end

text \<open>A server that lists fixed objects, in either of the forms \<open>decodeListing\<close> reads, and answers every
  download by its record.\<close>

definition listing_body :: "(string \<times> json) list list \<Rightarrow> int \<Rightarrow> int \<Rightarrow> bool \<Rightarrow> json" where
  "listing_body objs l off bare =
     (let page = JArr (map JObj (take (nat l) (drop (nat off) objs))) in
      if bare then page
      else JObj [(''items'', page), (''total'', JNum \<lparr>jn_text = dec_nat (length objs), jn_int = int (length objs)\<rparr>)])"

definition listing_request :: "RommSource \<Rightarrow> string \<Rightarrow> int \<Rightarrow> int \<Rightarrow> request" where
  "listing_request s path l off = \<lparr>rqt_Base = cl_BaseURL (rso_Client s), rqt_Path = path,
     rqt_Query = [(''limit'', Itoa l), (''offset'', Itoa off)],
     rqt_Headers = (''Accept'', ''application/json'') # credential (rso_Client s)\<rparr>"

definition serves :: "server \<Rightarrow> RommSource \<Rightarrow> (string \<times> json) list list \<Rightarrow> (ROMRecord \<Rightarrow> source_error + stream \<times> int) \<Rightarrow> bool" where
  "serves srv s objs dl =
     ((\<exists>cap. Capability (rso_Report s) ''roms.list'' = Inr cap \<and> CHR ''{'' \<notin> set (cr_Path cap) \<and>
        (\<forall>sent l off. 0 < l \<and> 0 \<le> off \<longrightarrow> (\<exists>body n bare. snd (LimitReader body maxBody) = None \<and>
           srv sent (listing_request s (cr_Path cap) l off) = Answered 200 body n (Some (listing_body objs l off bare))))) \<and>
      (\<forall>sent r. fst (run_state (Download srv s r) sent) = dl r))"

lemma those_Some: "those (map (\<lambda>x. Some (f x)) xs) = Some (map f xs)"
  by (induction xs) auto

lemma decode_bare: "decodeListing (Some (JArr (map JObj ms))) = Some (ms, -1)"
  by (simp add: decodeListing_def those_Some comp_def)

lemma filter_objects: "List.map_filter object_of (map JObj ms) = ms"
  by (induction ms) (simp_all add: List.map_filter_def)

lemma decode_envelope:
  "decodeListing (Some (JObj [(''items'', JArr (map JObj ms)), (''total'', JNum n)])) = Some (ms, jn_int n)"
  by (simp add: decodeListing_def json_member_def filter_objects)

lemma served_page:
  assumes "serves srv s objs dl" and "0 < l" and "0 \<le> off"
  shows "\<exists>more. fst (run_state (ListROMs srv s \<lparr>pg_Limit = l, pg_Offset = off\<rparr>) sent) =
      Inr (take (nat l) (drop (nat off) (map recordFromObject objs)), more) \<and>
      (more \<longrightarrow> off + l \<le> int (length objs)) \<and> (\<not> more \<longrightarrow> int (length objs) \<le> off + l)"
proof -
  obtain cap where cap: "Capability (rso_Report s) ''roms.list'' = Inr cap" "CHR ''{'' \<notin> set (cr_Path cap)"
    and "\<forall>sent l off. 0 < l \<and> 0 \<le> off \<longrightarrow> (\<exists>body n bare. snd (LimitReader body maxBody) = None \<and>
      srv sent (listing_request s (cr_Path cap) l off) = Answered 200 body n (Some (listing_body objs l off bare)))"
    using assms(1) unfolding serves_def by blast
  then obtain body n bare where ans: "snd (LimitReader body maxBody) = None"
    "srv sent (listing_request s (cr_Path cap) l off) = Answered 200 body n (Some (listing_body objs l off bare))"
    using assms(2,3) by blast
  let ?page = "take (nat l) (drop (nat off) objs)"
  have "fst (run_state (Get srv (rso_Client s) (cr_Path cap) (page_query \<lparr>pg_Limit = l, pg_Offset = off\<rparr>)) sent) =
      Inr (200, Some (listing_body objs l off bare))"
    using ans assms(2) by (simp add: Get_def page_query_def listing_request_def)
  moreover have "decodeListing (Some (listing_body objs l off bare)) = Some (?page, if bare then -1 else int (length objs))"
    by (simp add: listing_body_def decode_bare decode_envelope Let_def)
  moreover have "int (length ?page) = min l (int (length objs) - off) \<or> int (length objs) \<le> off \<and> ?page = []"
    using assms(2,3) by auto
  moreover define more where "more = (if bare then l \<le> int (length ?page) else off + int (length ?page) < int (length objs))"
  ultimately have "fst (run_state (ListROMs srv s \<lparr>pg_Limit = l, pg_Offset = off\<rparr>) sent) = Inr (map recordFromObject ?page, more)"
    and len: "int (length ?page) = min l (int (length objs) - off) \<or> int (length objs) \<le> off \<and> ?page = []"
    using cap assms(2) by (simp_all add: ListROMs_def case_prod_beta listing_page_def)
  moreover have "more \<longrightarrow> off + l \<le> int (length objs)" "\<not> more \<longrightarrow> int (length objs) \<le> off + l"
    using len assms(2) unfolding more_def by (cases bare; force)+
  ultimately show ?thesis
    by (auto simp add: take_map drop_map)
qed

lemma serves_library:
  assumes "serves srv s objs dl"
  shows "library_source (romm_source srv s) (map recordFromObject objs) dl"
proof
  show "fst (run_state (so_Download (romm_source srv s) r) sent) = dl r" for r sent
    using assms by (simp add: serves_def romm_source_def)
qed (use served_page [OF assms] in \<open>simp add: romm_source_def\<close>)

text \<open>C23: how RomM pages its library does not show: over a server that lists fixed objects, as a bare
  array or as an envelope with a total, and whose downloads do not depend on what was asked
  before, a scan ends, with no more pages than the library has room for and one, and its result is
  that of the records taken one after the other, whatever the page size is and whatever was
  requested before.\<close>

theorem paging_is_invisible_on_romm:
  assumes "serves srv s objs dl" and "int (length objs) < int pages * scan_pageSize sc"
  shows "fst (run_state (ScanPlatform pages srt sc (romm_source srv s) ps) sent) =
    Some (case scan_all sc ps dl (map recordFromObject objs) no_result of
        (res, Some e) \<Rightarrow> (res, Some e)
      | (res, None) \<Rightarrow> (res\<lparr>sr_Items := srt item_less (sr_Items res)\<rparr>, None))"
  by (rule library_source.paging_is_invisible [OF serves_library [OF assms(1)]]) (simp add: assms(2))

text \<open>Every library is one that some server serves: the source keeps its contract over it.\<close>

definition library_server :: "(string \<times> json) list list \<Rightarrow> (string \<Rightarrow> answer) \<Rightarrow> server" where
  "library_server objs files = (\<lambda>sent r.
     if rqt_Path r = ''/api/roms''
     then (let arg = (\<lambda>k. digits_value (the (map_of (rqt_Query r) k))) in
       Answered 200 ([], None) (-1) (Some (listing_body objs (arg ''limit'') (arg ''offset'') False)))
     else files (rqt_Path r))"

definition library_capability :: "string \<Rightarrow> string \<Rightarrow> CapabilityResult" where
  "library_capability i p = \<lparr>cr_ID = i, cr_Summary = '''', cr_Needs = '''', cr_Required = True, cr_Found = True,
     cr_Method = ''GET'', cr_Path = p, cr_OperationID = '''', cr_MissingQueryParams = [], cr_Tried = []\<rparr>"

definition library_romm :: RommSource where
  "library_romm = \<lparr>rso_Client = NewClient ''http://romm/'' '''' None,
     rso_Report = (new_report (connect_options ''http://romm/'' '''') 0)\<lparr>rp_Capabilities :=
       [library_capability ''roms.list'' ''/api/roms'', library_capability ''roms.download'' ''/api/roms/{id}/content/{file_name}'']\<rparr>,
     rso_MaxDownloadBytes = 0\<rparr>"

definition library_download :: "(string \<times> json) list list \<Rightarrow> (string \<Rightarrow> answer) \<Rightarrow> ROMRecord \<Rightarrow> source_error + stream \<times> int" where
  "library_download objs files r = fst (run_state (Download (library_server objs files) library_romm r) [])"

lemma digits_Itoa: "0 \<le> n \<Longrightarrow> digits_value (Itoa n) = n"
  using dec_nat_digits [of "nat n"] by (simp add: Itoa_def)

lemma library_history: "fst (run_state (Download (library_server objs files) s r) sent) =
    fst (run_state (Download (library_server objs files) s r) [])"
proof -
  have "fst (run_state (Stream (library_server objs files) c path) sent) =
      fst (run_state (Stream (library_server objs files) c path) [])" for c path
    by (simp add: Stream_def library_server_def)
  then show ?thesis
    unfolding Download_def by (cases "Capability (rso_Report s) ''roms.download''")
      (simp_all add: case_prod_beta split: sum.split)
qed

lemma library_serves: "serves (library_server objs files) library_romm objs (library_download objs files)"
  unfolding serves_def
proof (intro conjI allI exI)
  show "Capability (rso_Report library_romm) ''roms.list'' = Inr (library_capability ''roms.list'' ''/api/roms'')"
    by (simp add: Capability_def library_romm_def library_capability_def)
  show "0 < l \<and> 0 \<le> off \<longrightarrow> (\<exists>body n bare. snd (LimitReader body maxBody) = None \<and>
      library_server objs files sent (listing_request library_romm (cr_Path (library_capability ''roms.list'' ''/api/roms'')) l off) =
        Answered 200 body n (Some (listing_body objs l off bare)))" for sent l off
    by (intro impI exI [of _ "([], None)"] exI [of _ "-1"] exI [of _ False])
      (simp add: LimitReader_def maxBody_def library_server_def listing_request_def library_capability_def digits_Itoa)
  show "fst (run_state (Download (library_server objs files) library_romm r) sent) = library_download objs files r" for sent r
    unfolding library_download_def by (rule library_history)
qed (simp add: library_capability_def)

interpretation fixed_library: library_source "romm_source (library_server objs files) library_romm"
    "map recordFromObject objs" "library_download objs files" for objs files
  by (rule serves_library [OF library_serves])

definition sample_object :: "(string \<times> json) list" where
  "sample_object = [(''id'', JNum \<lparr>jn_text = ''7'', jn_int = 7\<rparr>), (''platform_slug'', JStr ''genesis''),
     (''fs_name'', JStr ''Tetris.bin''), (''sha1_hash'', JStr ''ab'')]"

theorem paging_is_invisible_on_romm_witness:
  "\<exists>out. fst (run_state (ScanPlatform 3 insertion_sort (sample_scanner\<lparr>sn_PageSize := 1\<rparr>)
      (romm_source (library_server [sample_object, sample_object] (\<lambda>_. Unreachable ''down'')) library_romm)
      sample_platform) []) = Some out \<and> sr_Scanned (fst out) = 2 \<and> length (sr_Skipped (fst out)) = 2 \<and> snd out = None"
proof -
  have gone: "library_download objs (\<lambda>_. Unreachable m) (recordFromObject sample_object) =
      Inl (SourceRomm (RommRequest ''/api/roms/7/content/Tetris.bin'' m))" for objs m
  proof -
    have "substitutePath ''/api/roms/{id}/content/{file_name}'' [''7'', ''Tetris.bin''] = Inr ''/api/roms/7/content/Tetris.bin''"
      by code_simp
    then show ?thesis
      by (simp add: library_download_def Download_def Capability_def library_romm_def library_capability_def Stream_def
          library_server_def sample_object_def recordFromObject_def json_member_def Redact_def NewClient_def)
  qed
  have slug: "rec_PlatformSlug (recordFromObject sample_object) = ''genesis''"
    by (simp add: recordFromObject_def sample_object_def json_member_def)
  show ?thesis
    by (subst paging_is_invisible_on_romm [OF library_serves])
      (simp_all add: scan_pageSize_def sample_platform_def slug gone scan_download_def take_record_def no_result_def)
qed


end
