(* ===== verification/RommIngest.thy ===== *)
theory RommIngest
  imports RommSource Ingest
begin

text \<open>
  What ingestion does with RomM: \<open>src/bridge/ingest/rommlibrary.go\<close>, which observes what RomM holds by
  downloading it and recomputing its identity, and \<open>src/bridge/ingest/rommuploader.go\<close>, the chunked
  upload.  The upload API is a function of the requests received so far; a body that cannot be read
  to its end fails the request.  What \<open>encoding/json\<close> reads in an answer is part of it, as for the
  client, here of its first 64 KiB.
\<close>

section \<open>Observing\<close>

record ('s, 'e) RommLibrary =
  lb_Source :: "('s, 'e) Source option"
  lb_Hashes :: hashes
  lb_Zip :: zip_reader
  lb_Analyzer :: "Analyzer option"
  lb_PageSize :: int

datatype 'e observe_error =
    ObsNoSource
  | ObsNoName
  | ObsListing 'e
  | ObsDownload 'e
  | ObsSize read_error
  | ObsAnalysis verify_error
  | ObsCancelled

definition lib_analyzer :: "('s, 'e) RommLibrary \<Rightarrow> Analyzer" where
  "lib_analyzer l = (case lb_Analyzer l of Some a \<Rightarrow> a
     | None \<Rightarrow> \<lparr>az_Registry = None, az_MaxInMemory = 0, az_MaxArchiveMember = 0, az_Temp = None, az_Spill = None\<rparr>)"

definition lib_pageSize :: "('s, 'e) RommLibrary \<Rightarrow> int" where
  "lib_pageSize l = (if lb_PageSize l > 0 then lb_PageSize l else 50)"

text \<open>The code of \<open>readAllLimited\<close> again.\<close>

definition readAllDeclared :: "stream \<Rightarrow> int \<Rightarrow> read_error + bytes" where
  "readAllDeclared r declaredSize = readAllLimited r declaredSize"

definition absent :: Observation where
  "absent = \<lparr>ob_Present = False, ob_Platform = '''', ob_Canonical = zero_digest, ob_Name = ''''\<rparr>"

text \<open>\<open>observeRecord\<close> after the download.\<close>

definition observe_download :: "('s, 'e) RommLibrary \<Rightarrow> ROMRecord \<Rightarrow> 'e + stream \<times> int \<Rightarrow> 'e observe_error + Observation" where
  "observe_download l r d =
     (case d of
        Inl e \<Rightarrow> Inl (ObsDownload e)
      | Inr (rc, declared) \<Rightarrow>
        (case readAllDeclared rc declared of
           Inl e \<Rightarrow> Inl (ObsSize e)
         | Inr buf \<Rightarrow>
           (case Analyze (lb_Hashes l) (lb_Zip l) (lib_analyzer l) \<lparr>pl_bytes = buf, pl_bad = None\<rparr> (length buf)
               (rec_FSName r) (rec_PlatformSlug r) of
              Inl e \<Rightarrow> Inl (ObsAnalysis e)
            | Inr res \<Rightarrow> Inr \<lparr>ob_Present = True, ob_Platform = rs_Platform res, ob_Canonical = rs_Canonical res,
                ob_Name = rec_Name r\<rparr>)))"

definition observeRecord :: "('s, 'e) RommLibrary \<Rightarrow> ('s, 'e) Source \<Rightarrow> ROMRecord \<Rightarrow> ('s, 'e observe_error + Observation) state" where
  "observeRecord l src r = do {
     d \<leftarrow> so_Download src r;
     State_Monad.return (observe_download l r d) }"

definition candidate :: "Expected \<Rightarrow> string \<Rightarrow> ROMRecord \<Rightarrow> bool" where
  "candidate ex filename r = (rec_PlatformSlug r = ex_Platform ex \<and> rec_FSName r = filename)"

text \<open>The paging loop, for at most so many pages; \<open>done off\<close> says whether the context has ended when the
  page at \<open>off\<close> would be asked for.\<close>

fun observe_pages :: "nat \<Rightarrow> ('s, 'e) RommLibrary \<Rightarrow> ('s, 'e) Source \<Rightarrow> Expected \<Rightarrow> string \<Rightarrow> (int \<Rightarrow> bool) \<Rightarrow> int
    \<Rightarrow> ('s, ('e observe_error + Observation) option) state" where
  "observe_pages 0 l src ex filename dn offset = State_Monad.return None"
| "observe_pages (Suc n) l src ex filename dn offset = do {
     p \<leftarrow> so_ListROMs src \<lparr>pg_Limit = lib_pageSize l, pg_Offset = offset\<rparr>;
     case p of
       Inl e \<Rightarrow> State_Monad.return (Some (Inl (ObsListing e)))
     | Inr (page, hasMore) \<Rightarrow>
       (case List.find (candidate ex filename) page of
          Some r \<Rightarrow> do {
            x \<leftarrow> observeRecord l src r;
            State_Monad.return (Some x) }
        | None \<Rightarrow>
          if \<not> hasMore \<or> page = [] then State_Monad.return (Some (Inr absent))
          else if dn (offset + int (length page)) then State_Monad.return (Some (Inl ObsCancelled))
          else observe_pages n l src ex filename dn (offset + int (length page))) }"

definition Observe :: "nat \<Rightarrow> ('s, 'e) RommLibrary \<Rightarrow> string \<Rightarrow> Expected \<Rightarrow> (int \<Rightarrow> bool)
    \<Rightarrow> ('s, ('e observe_error + Observation) option) state" where
  "Observe pages l filename ex dn =
     (case lb_Source l of
        None \<Rightarrow> State_Monad.return (Some (Inl ObsNoSource))
      | Some src \<Rightarrow>
        if filename = '''' then State_Monad.return (Some (Inl ObsNoName))
        else observe_pages pages l src ex filename dn 0)"

section \<open>Uploading\<close>

record upload_request =
  upq_Method :: string
  upq_Base :: string
  upq_Path :: string
  upq_Headers :: "(string \<times> string) list"
  upq_Body :: bytes

type_synonym upload_server = "upload_request list \<Rightarrow> upload_request \<Rightarrow> answer"
type_synonym 'a uploads = "(upload_request list, 'a) state"

record RommUploader =
  upl_Client :: "Client option"
  upl_Report :: "Report option"
  upl_Platforms :: "Platforms option"
  upl_ChunkSize :: int

datatype upload_error =
    UploadUnset
  | UploadNoPlatform string
  | UploadOpen
  | UploadStat
  | UploadEmpty
  | UploadCapability romm_error
  | UploadRequest string
  | UploadReading string
  | UploadStatus int
  | UploadParse
  | UploadNoID
  | UploadChunk int upload_error
  | UploadCancelled

definition DefaultUploadChunkSize :: int where "DefaultUploadChunkSize = 8 * 2 ^ 20"

definition upload_chunkSize :: "RommUploader \<Rightarrow> int" where
  "upload_chunkSize u = (if upl_ChunkSize u > 0 then upl_ChunkSize u else DefaultUploadChunkSize)"

definition uploadPathBase :: "string \<Rightarrow> string" where
  "uploadPathBase startPath =
     (if length startPath > length ''/start'' \<and> has_suffix startPath ''/start''
      then take (length startPath - length ''/start'') startPath else startPath)"

text \<open>\<open>readCapped\<close>, on the body of an answer.\<close>

definition readCapped :: "stream \<Rightarrow> string option" where
  "readCapped body = snd (LimitReader body (64 * 2 ^ 10))"

text \<open>One request and its answer: the status and the body as JSON.\<close>

definition upload_call :: "upload_server \<Rightarrow> Client \<Rightarrow> string \<Rightarrow> string \<Rightarrow> (string \<times> string) list \<Rightarrow> stream
    \<Rightarrow> (upload_error + int \<times> json option) uploads" where
  "upload_call srv c meth path headers body =
     (case snd body of
        Some m \<Rightarrow> State_Monad.return (Inl (UploadRequest (Redact c m)))
      | None \<Rightarrow>
        State (\<lambda>sent.
          let q = \<lparr>upq_Method = meth, upq_Base = cl_BaseURL c, upq_Path = path, upq_Headers = headers @ credential c,
                upq_Body = fst body\<rparr> in
          ((case srv sent q of
              Unreachable m \<Rightarrow> Inl (UploadRequest (Redact c m))
            | Answered st b _ js \<Rightarrow> (case readCapped b of Some m \<Rightarrow> Inl (UploadReading m) | None \<Rightarrow> Inr (st, js))),
           sent @ [q])))"

text \<open>The struct \<open>startResponse\<close>.\<close>

definition dec_start :: "string \<Rightarrow> json \<Rightarrow> string option" where
  "dec_start = dec_struct (\<lambda>i k v. if EqualFold k ''upload_id'' then dec_string i v else Some i)"

definition start_answer :: "upload_error + int \<times> json option \<Rightarrow> upload_error + string" where
  "start_answer r =
     (case r of
        Inl e \<Rightarrow> Inl e
      | Inr (status, body) \<Rightarrow>
        if status div 100 \<noteq> 2 then Inl (UploadStatus status)
        else case Option.bind body (dec_start '''') of
          None \<Rightarrow> Inl UploadParse
        | Some i \<Rightarrow> if i = '''' then Inl UploadNoID else Inr i)"

definition status_answer :: "upload_error + int \<times> json option \<Rightarrow> upload_error option" where
  "status_answer r =
     (case r of
        Inl e \<Rightarrow> Some e
      | Inr (status, body) \<Rightarrow> if status div 100 \<noteq> 2 then Some (UploadStatus status) else None)"

definition upload_start :: "upload_server \<Rightarrow> Client \<Rightarrow> Report \<Rightarrow> int \<Rightarrow> string \<Rightarrow> int \<Rightarrow> int \<Rightarrow> (upload_error + string) uploads" where
  "upload_start srv c rep platformID filename sz totalChunks =
     (case Capability rep ''roms.upload'' of
        Inl e \<Rightarrow> State_Monad.return (Inl (UploadCapability e))
      | Inr cap \<Rightarrow> do {
          r \<leftarrow> upload_call srv c ''POST'' (cr_Path cap)
                 [(''x-upload-platform'', Itoa platformID), (''x-upload-filename'', filename),
                  (''x-upload-total-size'', Itoa sz), (''x-upload-total-chunks'', Itoa totalChunks)] ([], None);
          State_Monad.return (start_answer r) })"

definition putChunk :: "upload_server \<Rightarrow> Client \<Rightarrow> string \<Rightarrow> int \<Rightarrow> stream \<Rightarrow> upload_error option uploads" where
  "putChunk srv c path idx body = do {
     r \<leftarrow> upload_call srv c ''PUT'' path
            [(''x-chunk-index'', Itoa idx), (''Content-Type'', ''application/octet-stream'')] body;
     State_Monad.return (status_answer r) }"

text \<open>The loop of \<open>sendChunks\<close>.  Offsets are exact: a staged file and a chunk size together stay below
  \<open>2\<^sup>6\<^sup>3\<close>.  A chunk size is positive (\<open>upload_chunkSize\<close>).  \<open>dn i\<close> says whether the context has ended after
  chunk \<open>i\<close>.\<close>

function upload_loop :: "upload_server \<Rightarrow> Client \<Rightarrow> string \<Rightarrow> payload \<Rightarrow> int \<Rightarrow> int \<Rightarrow> (int \<Rightarrow> bool) \<Rightarrow> int \<Rightarrow> int
    \<Rightarrow> upload_error option uploads" where
  "upload_loop srv c path f sz chunk dn idx offset =
     (if \<not> offset < sz \<or> chunk \<le> 0 then State_Monad.return None
      else do {
        r \<leftarrow> putChunk srv c path idx (NewSectionReader f (nat offset) (nat (min chunk (sz - offset))));
        case r of
          Some e \<Rightarrow> State_Monad.return (Some (UploadChunk idx e))
        | None \<Rightarrow>
          if dn idx then State_Monad.return (Some UploadCancelled)
          else upload_loop srv c path f sz chunk dn (idx + 1) (offset + chunk) })"
  by auto
termination
  by (relation "measure (\<lambda>(srv, c, path, f, sz, chunk, dn, idx, offset). nat (sz - offset))") auto

declare upload_loop.simps [simp del]

definition sendChunks :: "upload_server \<Rightarrow> Client \<Rightarrow> Report \<Rightarrow> string \<Rightarrow> payload \<Rightarrow> int \<Rightarrow> int \<Rightarrow> (int \<Rightarrow> bool)
    \<Rightarrow> upload_error option uploads" where
  "sendChunks srv c rep uploadID f sz chunk dn =
     (case Capability rep ''roms.upload'' of
        Inl e \<Rightarrow> State_Monad.return (Some (UploadCapability e))
      | Inr cap \<Rightarrow> upload_loop srv c (uploadPathBase (cr_Path cap) @ ''/'' @ uploadID) f sz chunk dn 0 0)"

definition upload_complete :: "upload_server \<Rightarrow> Client \<Rightarrow> Report \<Rightarrow> string \<Rightarrow> upload_error option uploads" where
  "upload_complete srv c rep uploadID =
     (case Capability rep ''roms.upload'' of
        Inl e \<Rightarrow> State_Monad.return (Some (UploadCapability e))
      | Inr cap \<Rightarrow> do {
          r \<leftarrow> upload_call srv c ''POST'' (uploadPathBase (cr_Path cap) @ ''/'' @ uploadID @ ''/complete'') [] ([], None);
          State_Monad.return (status_answer r) })"

definition upload_cancel :: "upload_server \<Rightarrow> Client \<Rightarrow> Report \<Rightarrow> string \<Rightarrow> unit uploads" where
  "upload_cancel srv c rep uploadID =
     (case Capability rep ''roms.upload'' of
        Inl e \<Rightarrow> State_Monad.return ()
      | Inr cap \<Rightarrow> do {
          r \<leftarrow> upload_call srv c ''POST'' (uploadPathBase (cr_Path cap) @ ''/'' @ uploadID @ ''/cancel'') [] ([], None);
          State_Monad.return () })"

text \<open>The staged file: it does not open, has no size, or is a payload.\<close>

datatype staged_file = StagedUnopened | StagedNoSize | StagedFile payload

definition Upload :: "upload_server \<Rightarrow> RommUploader \<Rightarrow> staged_file \<Rightarrow> string \<Rightarrow> Expected \<Rightarrow> (int \<Rightarrow> bool)
    \<Rightarrow> upload_error option uploads" where
  "Upload srv u file filename ex dn =
     (case (upl_Client u, upl_Report u, upl_Platforms u) of
        (Some c, Some rep, Some platforms) \<Rightarrow>
          (case LookupPlatform platforms (ex_Platform ex) of
             None \<Rightarrow> State_Monad.return (Some (UploadNoPlatform (ex_Platform ex)))
           | Some platform \<Rightarrow>
             (case file of
                StagedUnopened \<Rightarrow> State_Monad.return (Some UploadOpen)
              | StagedNoSize \<Rightarrow> State_Monad.return (Some UploadStat)
              | StagedFile f \<Rightarrow>
                (let sz = int (length (pl_bytes f)); chunk = upload_chunkSize u in
                 if sz \<le> 0 then State_Monad.return (Some UploadEmpty)
                 else do {
                   s \<leftarrow> upload_start srv c rep (pt_ID platform) filename sz ((sz + chunk - 1) div chunk);
                   case s of
                     Inl e \<Rightarrow> State_Monad.return (Some e)
                   | Inr uploadID \<Rightarrow> do {
                       r \<leftarrow> sendChunks srv c rep uploadID f sz chunk dn;
                       case r of
                         Some e \<Rightarrow> do {
                           x \<leftarrow> upload_cancel srv c rep uploadID;
                           State_Monad.return (Some e) }
                       | None \<Rightarrow> do {
                           e \<leftarrow> upload_complete srv c rep uploadID;
                           case e of
                             None \<Rightarrow> State_Monad.return None
                           | Some e \<Rightarrow> do {
                               x \<leftarrow> upload_cancel srv c rep uploadID;
                               State_Monad.return (Some e) } } } })))
      | _ \<Rightarrow> State_Monad.return (Some UploadUnset))"

section \<open>What an upload sends\<close>

text \<open>A text in parts of \<open>k\<close>.\<close>

function chunks :: "nat \<Rightarrow> 'a list \<Rightarrow> 'a list list" where
  "chunks k xs = (if xs = [] \<or> k = 0 then [] else take k xs # chunks k (drop k xs))"
  by auto
termination
  by (relation "measure (\<lambda>(k, xs). length xs)") auto

declare chunks.simps [simp del]

lemma concat_chunks: "0 < k \<Longrightarrow> concat (chunks k xs) = xs"
  by (induction k xs rule: chunks.induct) (subst chunks.simps, simp)

lemma chunks_bounds: "b \<in> set (chunks k xs) \<Longrightarrow> 0 < length b \<and> length b \<le> k"
proof (induction k xs rule: chunks.induct)
  case (1 k xs)
  then show ?case
    by (subst (asm) (2) chunks.simps) (auto split: if_splits)
qed

lemma length_chunks: "0 < k \<Longrightarrow> length (chunks k xs) = (length xs + k - 1) div k"
proof (induction k xs rule: chunks.induct)
  case (1 k xs)
  show ?case
  proof (cases "xs = []")
    case False
    then have rest: "length (chunks k xs) = Suc ((length xs - k + k - 1) div k)"
      using 1 by (subst chunks.simps) simp
    show ?thesis
    proof (cases "length xs < k")
      case True
      have "0 < length xs"
        using False by simp
      then have "length xs + k - 1 = (length xs - 1) + k"
        by linarith
      moreover have "((length xs - 1) + k) div k = 1"
        using True 1(2) by (simp only: div_add_self2 neq0_conv) simp
      ultimately have "(length xs + k - 1) div k = 1"
        by (simp only:)
      then show ?thesis
        using rest True 1(2) by simp
    next
      case False
      then have "length xs + k - 1 = (length xs - k + k - 1) + k"
        using 1(2) by simp
      moreover have "((length xs - k + k - 1) + k) div k = (length xs - k + k - 1) div k + 1"
        using 1(2) by (intro div_add_self2) simp
      ultimately show ?thesis
        unfolding rest by (metis Suc_eq_plus1)
    qed
  qed (use 1(2) in \<open>simp add: chunks.simps\<close>)
qed

definition call_request :: "Client \<Rightarrow> string \<Rightarrow> string \<Rightarrow> (string \<times> string) list \<Rightarrow> bytes \<Rightarrow> upload_request" where
  "call_request c meth path headers body = \<lparr>upq_Method = meth, upq_Base = cl_BaseURL c, upq_Path = path,
     upq_Headers = headers @ credential c, upq_Body = body\<rparr>"

definition start_request :: "Client \<Rightarrow> string \<Rightarrow> int \<Rightarrow> string \<Rightarrow> int \<Rightarrow> int \<Rightarrow> upload_request" where
  "start_request c path platformID filename sz total_chunks = call_request c ''POST'' path
     [(''x-upload-platform'', Itoa platformID), (''x-upload-filename'', filename),
      (''x-upload-total-size'', Itoa sz), (''x-upload-total-chunks'', Itoa total_chunks)] []"

fun chunk_requests :: "Client \<Rightarrow> string \<Rightarrow> int \<Rightarrow> bytes list \<Rightarrow> upload_request list" where
  "chunk_requests c path i [] = []"
| "chunk_requests c path i (b # bs) = call_request c ''PUT'' path
     [(''x-chunk-index'', Itoa i), (''Content-Type'', ''application/octet-stream'')] b # chunk_requests c path (i + 1) bs"

lemma run_upload_call: "run_state (upload_call srv c meth path headers body) sent =
    (case snd body of
       Some m \<Rightarrow> (Inl (UploadRequest (Redact c m)), sent)
     | None \<Rightarrow> (case srv sent (call_request c meth path headers (fst body)) of
           Unreachable m \<Rightarrow> Inl (UploadRequest (Redact c m))
         | Answered st b _ js \<Rightarrow> (case readCapped b of Some m \<Rightarrow> Inl (UploadReading m) | None \<Rightarrow> Inr (st, js)),
        sent @ [call_request c meth path headers (fst body)]))"
  by (simp add: upload_call_def call_request_def run_return Let_def split: option.split)

lemma putChunk_sends:
  assumes "run_state (putChunk srv c path i body) sent = (r, s)"
  shows "(if snd body = None then s = sent @ chunk_requests c path i [fst body] else s = sent \<and> r \<noteq> None)"
  using assms by (auto simp add: putChunk_def run_bind run_return run_upload_call status_answer_def simp del: run_state_bind
      split: option.splits)

lemma upload_loop_sends:
  assumes "run_state (upload_loop srv c path f (int (length (pl_bytes f))) chunk dn i off) sent = (out, sent')"
    and "0 < chunk" and "0 \<le> off"
  shows "\<exists>m. sent' = sent @ take m (chunk_requests c path i (chunks (nat chunk) (drop (nat off) (pl_bytes f)))) \<and>
    (out = None \<longrightarrow> m = length (chunks (nat chunk) (drop (nat off) (pl_bytes f))))"
  using assms(1,3)
proof (induction "nat (int (length (pl_bytes f)) - off)" arbitrary: i off sent rule: less_induct)
  case less
  let ?sz = "int (length (pl_bytes f))" and ?rest = "drop (nat off) (pl_bytes f)"
  show ?case
  proof (cases "off < ?sz")
    case False
    then have "?rest = []"
      by simp
    moreover have "out = None" "sent' = sent"
      using less.prems(1) False by (simp_all add: upload_loop.simps run_return)
    ultimately show ?thesis
      by (simp add: chunks.simps)
  next
    case True
    let ?body = "NewSectionReader f (nat off) (nat (min chunk (?sz - off)))"
    have rest: "chunks (nat chunk) ?rest = take (nat chunk) ?rest # chunks (nat chunk) (drop (nat (off + chunk)) (pl_bytes f))"
      using True assms(2) less.prems(2) by (subst chunks.simps) (simp add: nat_add_distrib add.commute)
    have body: "fst ?body = take (nat chunk) ?rest" if "snd ?body = None"
      using NewSectionReader_done [of f "nat off" "nat (min chunk (?sz - off))" "fst ?body"] that less.prems(2) assms(2)
      by (cases ?body) (auto simp add: min_def nat_diff_distrib)
    obtain r s where put: "run_state (putChunk srv c path i ?body) sent = (r, s)"
      by fastforce
    note sends = putChunk_sends [OF put]
    have loop: "run_state (case r of Some e \<Rightarrow> State_Monad.return (Some (UploadChunk i e))
        | None \<Rightarrow> if dn i then State_Monad.return (Some UploadCancelled)
            else upload_loop srv c path f ?sz chunk dn (i + 1) (off + chunk)) s = (out, sent')"
      using less.prems(1) True assms(2) put by (simp add: upload_loop.simps [of srv c path f ?sz chunk dn i off])
    show ?thesis
    proof (cases "r = None \<and> \<not> dn i")
      case False
      then have "out \<noteq> None \<and> sent' = s"
        using loop by (auto simp add: run_return split: option.splits)
      moreover have "s = sent @ take 0 (chunk_requests c path i (chunks (nat chunk) ?rest)) \<or>
          s = sent @ take 1 (chunk_requests c path i (chunks (nat chunk) ?rest))"
        using sends body unfolding rest by (auto split: if_splits)
      ultimately show ?thesis
        by blast
    next
      case next_chunk: True
      then have "s = sent @ chunk_requests c path i [take (nat chunk) ?rest]"
        using sends body by (auto split: if_splits)
      moreover have "run_state (upload_loop srv c path f ?sz chunk dn (i + 1) (off + chunk)) s = (out, sent')"
        using loop next_chunk by simp
      then obtain m where "sent' = s @ take m (chunk_requests c path (i + 1) (chunks (nat chunk) (drop (nat (off + chunk)) (pl_bytes f))))"
        "out = None \<longrightarrow> m = length (chunks (nat chunk) (drop (nat (off + chunk)) (pl_bytes f)))"
        using less.hyps [of "off + chunk" "i + 1" s] True assms(2) less.prems(2) by auto
      ultimately show ?thesis
        unfolding rest by (intro exI [of _ "Suc m"]) simp
    qed
  qed
qed

text \<open>The requests of an upload after its opening: the parts, the end and the cancellation of a session.\<close>

definition session_path :: "CapabilityResult \<Rightarrow> string \<Rightarrow> string" where
  "session_path cap i = uploadPathBase (cr_Path cap) @ ''/'' @ i"

definition part_requests :: "Client \<Rightarrow> CapabilityResult \<Rightarrow> string \<Rightarrow> int \<Rightarrow> bytes \<Rightarrow> upload_request list" where
  "part_requests c cap i chunk bs = chunk_requests c (session_path cap i) 0 (chunks (nat chunk) bs)"

definition closing_request :: "Client \<Rightarrow> CapabilityResult \<Rightarrow> string \<Rightarrow> upload_request" where
  "closing_request c cap i = call_request c ''POST'' (session_path cap i @ ''/complete'') [] []"

definition cancel_request :: "Client \<Rightarrow> CapabilityResult \<Rightarrow> string \<Rightarrow> upload_request" where
  "cancel_request c cap i = call_request c ''POST'' (session_path cap i @ ''/cancel'') [] []"

definition upload_opening :: "RommUploader \<Rightarrow> Client \<Rightarrow> CapabilityResult \<Rightarrow> RommPlatform \<Rightarrow> string \<Rightarrow> bytes \<Rightarrow> upload_request" where
  "upload_opening u c cap platform filename bs = start_request c (cr_Path cap) (pt_ID platform) filename
     (int (length bs)) ((int (length bs) + upload_chunkSize u - 1) div upload_chunkSize u)"

lemma chunk_positive: "0 < upload_chunkSize u"
  by (simp add: upload_chunkSize_def DefaultUploadChunkSize_def)

lemma run_upload_start: 
  assumes "Capability rep ''roms.upload'' = Inr cap"
  shows "run_state (upload_start srv c rep pid filename sz n) sent =
    (fst (run_state (upload_start srv c rep pid filename sz n) sent), sent @ [start_request c (cr_Path cap) pid filename sz n])"
  by (simp add: upload_start_def assms run_bind run_return run_upload_call start_request_def del: run_state_bind)

lemma run_upload_complete:
  assumes "Capability rep ''roms.upload'' = Inr cap"
  shows "run_state (upload_complete srv c rep i) sent =
    (fst (run_state (upload_complete srv c rep i) sent), sent @ [closing_request c cap i])"
  by (simp add: upload_complete_def assms run_bind run_return run_upload_call closing_request_def session_path_def del: run_state_bind)

lemma run_upload_cancel:
  assumes "Capability rep ''roms.upload'' = Inr cap"
  shows "run_state (upload_cancel srv c rep i) sent = ((), sent @ [cancel_request c cap i])"
  by (simp add: upload_cancel_def assms run_bind run_return run_upload_call cancel_request_def session_path_def del: run_state_bind)

lemma start_has_id: "fst (run_state (upload_start srv c rep pid filename sz n) sent) = Inr i \<Longrightarrow> i \<noteq> ''''"
  by (auto simp add: upload_start_def run_bind run_return start_answer_def simp del: run_state_bind
      split: sum.splits if_splits option.splits)

lemma sendChunks_sends:
  assumes "Capability rep ''roms.upload'' = Inr cap" and "0 < chunk"
    and "run_state (sendChunks srv c rep i f (int (length (pl_bytes f))) chunk dn) sent = (out, sent')"
  shows "\<exists>m. sent' = sent @ take m (part_requests c cap i chunk (pl_bytes f)) \<and>
    (out = None \<longrightarrow> sent' = sent @ part_requests c cap i chunk (pl_bytes f))"
proof -
  have len: "length (chunk_requests c path j bs) = length bs" for path j bs
    by (induction bs arbitrary: j) simp_all
  obtain m where "sent' = sent @ take m (part_requests c cap i chunk (pl_bytes f))"
    "out = None \<longrightarrow> m = length (chunks (nat chunk) (pl_bytes f))"
    using upload_loop_sends [of srv c "session_path cap i" f chunk dn 0 0 sent out sent'] assms
    by (auto simp add: sendChunks_def session_path_def part_requests_def)
  then show ?thesis
    by (auto simp add: part_requests_def len)
qed

lemma upload_start_none: "\<forall>cap. Capability rep ''roms.upload'' \<noteq> Inr cap \<Longrightarrow>
    upload_start srv c rep pid filename sz n = State_Monad.return (Inl (UploadCapability (projl (Capability rep ''roms.upload''))))"
  by (auto simp add: upload_start_def split: sum.split)

text \<open>How an upload that opened a session ends.\<close>

lemma Upload_cases:
  assumes "run_state (Upload srv u (StagedFile f) filename ex dn) sent = (out, sent')"
  shows "sent' = sent \<and> out \<noteq> None \<or>
    (\<exists>c rep platforms platform cap. upl_Client u = Some c \<and> upl_Report u = Some rep \<and> upl_Platforms u = Some platforms \<and>
      LookupPlatform platforms (ex_Platform ex) = Some platform \<and> Capability rep ''roms.upload'' = Inr cap \<and> pl_bytes f \<noteq> [] \<and>
      (sent' = sent @ [upload_opening u c cap platform filename (pl_bytes f)] \<and> out \<noteq> None \<or>
       (\<exists>i sent1. i \<noteq> '''' \<and> (\<exists>m. sent1 = sent @ upload_opening u c cap platform filename (pl_bytes f) #
            take m (part_requests c cap i (upload_chunkSize u) (pl_bytes f))) \<and>
          (sent' = sent1 @ [cancel_request c cap i] \<and> out \<noteq> None \<or>
           sent1 = sent @ upload_opening u c cap platform filename (pl_bytes f) #
             part_requests c cap i (upload_chunkSize u) (pl_bytes f) \<and>
           (sent' = sent1 @ [closing_request c cap i] \<and> out = None \<or>
            sent' = sent1 @ [closing_request c cap i, cancel_request c cap i] \<and> out \<noteq> None)))))"
proof (cases "\<exists>c rep platforms platform cap. upl_Client u = Some c \<and> upl_Report u = Some rep \<and> upl_Platforms u = Some platforms \<and>
    LookupPlatform platforms (ex_Platform ex) = Some platform \<and> Capability rep ''roms.upload'' = Inr cap \<and> pl_bytes f \<noteq> []")
  case False
  then have "sent' = sent \<and> out \<noteq> None"
    using assms by (cases "upl_Client u"; cases "upl_Report u"; cases "upl_Platforms u")
      (auto simp add: Upload_def run_return upload_start_none Let_def split: option.splits if_splits)
  then show ?thesis
    by blast
next
  case True
  then obtain c rep platforms platform cap where parts: "upl_Client u = Some c" "upl_Report u = Some rep"
    "upl_Platforms u = Some platforms" "LookupPlatform platforms (ex_Platform ex) = Some platform"
    "Capability rep ''roms.upload'' = Inr cap" "pl_bytes f \<noteq> []"
    by blast
  let ?chunk = "upload_chunkSize u" and ?sz = "int (length (pl_bytes f))"
  let ?opening = "upload_opening u c cap platform filename (pl_bytes f)"
  let ?start = "upload_start srv c rep (pt_ID platform) filename ?sz ((?sz + ?chunk - 1) div ?chunk)"
  obtain x where x: "run_state ?start sent = (x, sent @ [?opening])"
    using run_upload_start [OF parts(5), of srv c "pt_ID platform" filename ?sz "(?sz + ?chunk - 1) div ?chunk" sent]
    unfolding upload_opening_def by blast
  note run = assms [unfolded Upload_def parts option.case prod.case staged_file.case Let_def]
  show ?thesis
  proof (cases x)
    case (Inl e)
    then have "sent' = sent @ [?opening] \<and> out \<noteq> None"
      using run parts(6) by (auto simp add: x run_return)
    then show ?thesis
      using parts by blast
  next
    case (Inr i)
    then have i: "i \<noteq> ''''"
      using start_has_id [of srv c rep "pt_ID platform" filename ?sz "(?sz + ?chunk - 1) div ?chunk" sent i] x by simp
    obtain r s2 where send: "run_state (sendChunks srv c rep i f ?sz ?chunk dn) (sent @ [?opening]) = (r, s2)"
      by fastforce
    obtain m where "s2 = (sent @ [?opening]) @ take m (part_requests c cap i ?chunk (pl_bytes f))"
      "r = None \<longrightarrow> s2 = (sent @ [?opening]) @ part_requests c cap i ?chunk (pl_bytes f)"
      using sendChunks_sends [OF parts(5) chunk_positive send] by blast
    then have m: "s2 = sent @ ?opening # take m (part_requests c cap i ?chunk (pl_bytes f))"
      "r = None \<longrightarrow> s2 = sent @ ?opening # part_requests c cap i ?chunk (pl_bytes f)"
      by (simp_all only: append_assoc append_Cons append_Nil)
    have "sent' = s2 @ [cancel_request c cap i] \<and> out \<noteq> None \<or> r = None \<and>
      (sent' = s2 @ [closing_request c cap i] \<and> out = None \<or>
       sent' = s2 @ [closing_request c cap i, cancel_request c cap i] \<and> out \<noteq> None)"
    proof (cases r)
      case None
      obtain e where "run_state (upload_complete srv c rep i) s2 = (e, s2 @ [closing_request c cap i])"
        using run_upload_complete [OF parts(5), of srv c i s2] by blast
      then show ?thesis
        using run parts(6) None by (cases e) (auto simp add: x Inr send run_upload_cancel [OF parts(5)] run_return)
    next
      case (Some e)
      then show ?thesis
        using run parts(6) by (auto simp add: x Inr send run_upload_cancel [OF parts(5)] run_return)
    qed
    then show ?thesis
      using parts i m by blast
  qed
qed

lemma chunk_requests_bodies: "map upq_Body (chunk_requests c path i bs) = bs"
  by (induction bs arbitrary: i) (simp_all add: call_request_def)

lemma chunk_requests_numbered:
  "k < length bs \<Longrightarrow> hd (upq_Headers (chunk_requests c path i bs ! k)) = (''x-chunk-index'', Itoa (i + int k))"
  by (induction bs arbitrary: i k) (auto simp add: call_request_def nth_Cons' algebra_simps)

lemma length_chunk_requests [simp]: "length (chunk_requests c path i bs) = length bs"
  by (induction bs arbitrary: i) simp_all

text \<open>C27: an upload that succeeds has sent the staged file: it opened one session with the name, the size
  and the number of parts, sent the parts in order under the session the server named, each with
  its index, no longer than the chunk size, together exactly the bytes of the file, and ended the
  session once.\<close>

theorem upload_sends_the_file:
  assumes "run_state (Upload srv u (StagedFile f) filename ex dn) sent = (None, sent')"
  shows "\<exists>c cap platform i parts. sent' = sent @ upload_opening u c cap platform filename (pl_bytes f) # parts @ [closing_request c cap i] \<and>
    concat (map upq_Body parts) = pl_bytes f \<and>
    (int (length (pl_bytes f)) + upload_chunkSize u - 1) div upload_chunkSize u = int (length parts) \<and>
    (\<forall>k<length parts. upq_Path (parts ! k) = session_path cap i \<and> int (length (upq_Body (parts ! k))) \<le> upload_chunkSize u \<and>
      hd (upq_Headers (parts ! k)) = (''x-chunk-index'', Itoa (int k)))"
proof -
  obtain c cap platform i where sent: "sent' = sent @ upload_opening u c cap platform filename (pl_bytes f) #
      part_requests c cap i (upload_chunkSize u) (pl_bytes f) @ [closing_request c cap i]"
    using Upload_cases [OF assms] by auto
  let ?parts = "part_requests c cap i (upload_chunkSize u) (pl_bytes f)"
  let ?k = "nat (upload_chunkSize u)"
  have k: "0 < ?k" "int ?k = upload_chunkSize u"
    using chunk_positive [of u] by simp_all
  have bodies: "map upq_Body ?parts = chunks ?k (pl_bytes f)"
    by (simp add: part_requests_def chunk_requests_bodies)
  have "int (length (pl_bytes f)) + upload_chunkSize u - 1 = int (length (pl_bytes f) + ?k - 1)"
    using k by linarith
  then have "(int (length (pl_bytes f)) + upload_chunkSize u - 1) div upload_chunkSize u = int (length ?parts)"
    using k by (simp add: part_requests_def length_chunks zdiv_int)
  moreover have "upq_Path (?parts ! n) = session_path cap i" if "n < length ?parts" for n
  proof -
    have "upq_Path q = path" if "q \<in> set (chunk_requests c path j bs)" for q path j bs
      using that by (induction bs arbitrary: j) (auto simp add: call_request_def)
    then show ?thesis
      using that unfolding part_requests_def by (metis nth_mem)
  qed
  moreover have "int (length (upq_Body (?parts ! n))) \<le> upload_chunkSize u" if "n < length ?parts" for n
  proof -
    have eq: "upq_Body (?parts ! n) = chunks ?k (pl_bytes f) ! n"
      using that by (simp flip: bodies)
    have "chunks ?k (pl_bytes f) ! n \<in> set (chunks ?k (pl_bytes f))"
      using that by (intro nth_mem) (simp flip: bodies)
    then have "length (chunks ?k (pl_bytes f) ! n) \<le> ?k"
      using chunks_bounds by blast
    then show ?thesis
      unfolding eq using k(2) by linarith
  qed
  moreover have "hd (upq_Headers (?parts ! n)) = (''x-chunk-index'', Itoa (int n))" if "n < length ?parts" for n
    using chunk_requests_numbered [of n "chunks ?k (pl_bytes f)" c "session_path cap i" 0] that by (simp add: part_requests_def)
  moreover have "concat (map upq_Body ?parts) = pl_bytes f"
    using concat_chunks [OF k(1)] bodies by simp
  ultimately show ?thesis
    using sent by blast
qed


section \<open>What an observation rests on\<close>

lemma observe_download_present:
  assumes "observe_download l r d = Inr o'"
  obtains rc n buf a where "d = Inr (rc, n)" "readAllLimited rc n = Inr buf"
    "Analyze (lb_Hashes l) (lb_Zip l) (lib_analyzer l) \<lparr>pl_bytes = buf, pl_bad = None\<rparr> (length buf) (rec_FSName r) (rec_PlatformSlug r) = Inr a"
    "o' = \<lparr>ob_Present = True, ob_Platform = rs_Platform a, ob_Canonical = rs_Canonical a, ob_Name = rec_Name r\<rparr>"
  using assms by (auto simp add: observe_download_def readAllDeclared_def split: sum.splits prod.splits)

text \<open>An observation is of a candidate that was downloaded.\<close>

lemma observe_pages_present:
  assumes "fst (run_state (observe_pages n l src ex filename dn offset) s) = Some (Inr o')" and "ob_Present o'"
  shows "\<exists>r s'. candidate ex filename r \<and> observe_download l r (fst (run_state (so_Download src r) s')) = Inr o'"
  using assms
proof (induction n arbitrary: offset s)
  case (Suc n)
  obtain x s1 where l: "run_state (so_ListROMs src \<lparr>pg_Limit = lib_pageSize l, pg_Offset = offset\<rparr>) s = (x, s1)"
    by fastforce
  show ?case
  proof (cases x)
    case (Inl e)
    then show ?thesis
      using Suc.prems by (simp add: l)
  next
    case (Inr pm)
    obtain page more where pm: "pm = (page, more)"
      by fastforce
    show ?thesis
    proof (cases "List.find (candidate ex filename) page")
      case (Some r)
      then have "candidate ex filename r"
        by (auto simp add: find_Some_iff)
      moreover have "observe_download l r (fst (run_state (so_Download src r) s1)) = Inr o'"
        using Suc.prems(1) by (simp add: l Inr pm Some observeRecord_def case_prod_beta)
      ultimately show ?thesis
        by blast
    next
      case None
      then show ?thesis
        using Suc.prems Suc.IH by (auto simp add: l Inr pm absent_def split: if_splits)
    qed
  qed
qed simp

lemma Observe_present:
  assumes "fst (run_state (Observe n l filename ex dn) s) = Some (Inr o')" and "ob_Present o'" and "lb_Source l = Some src"
  shows "\<exists>r s'. candidate ex filename r \<and> observe_download l r (fst (run_state (so_Download src r) s')) = Inr o'"
  using assms by (intro observe_pages_present [of n l src ex filename dn 0 s]) (auto simp add: Observe_def split: if_splits)

text \<open>C9: RomM is never taken at its word: when the wait for ingestion is answered by observations of a RomM
  library and ends in a match, bytes were downloaded from RomM for a record of the expected
  platform under the published name, and their identity, recomputed here, agrees with the expected
  one at full strength.\<close>

theorem match_was_read_back:
  assumes "lb_Source l = Some src"
    and "\<And>k. \<exists>pages dn s x. fst (run_state (Observe pages l filename ex dn) s) = Some x \<and>
      at_obs (env k) = (case x of Inl e \<Rightarrow> Inl (txt e) | Inr o' \<Rightarrow> Inr o')"
    and "Await fuel r ex st env = Some (Inr (res, e))" and "ar_State res = StateRommMatched"
  shows "\<exists>rc s body n buf a. rec_FSName rc = filename \<and> rec_PlatformSlug rc = ex_Platform ex \<and>
    fst (run_state (so_Download src rc) s) = Inr (body, n) \<and> readAllLimited body n = Inr buf \<and>
    Analyze (lb_Hashes l) (lb_Zip l) (lib_analyzer l) \<lparr>pl_bytes = buf, pl_bad = None\<rparr> (length buf) filename (ex_Platform ex) = Inr a \<and>
    Compare (rs_Canonical a) (ex_Canonical ex) = (StrengthStrong, True) \<and> rs_Platform a \<in> {'''', ex_Platform ex}"
proof -
  obtain k obs where k: "at_obs (env k) = Inr obs" and ev: "full_evidence ex obs"
    using await_loop_state [of fuel r ex st "st + rc_timeout r" env 0 res e] assms(3,4)
    by (auto simp add: Await_def split: option.splits if_splits)
  obtain pages dn s x where x: "fst (run_state (Observe pages l filename ex dn) s) = Some x"
    "at_obs (env k) = (case x of Inl e \<Rightarrow> Inl (txt e) | Inr o' \<Rightarrow> Inr o')"
    using assms(2) [of k] by blast
  then have "fst (run_state (Observe pages l filename ex dn) s) = Some (Inr obs)"
    using k by (cases x) simp_all
  then obtain rc s' where cand: "candidate ex filename rc"
    and got: "observe_download l rc (fst (run_state (so_Download src rc) s')) = Inr obs"
    using Observe_present [OF _ _ assms(1), of pages filename ex dn s obs] ev unfolding full_evidence_def by blast
  from got show ?thesis
    by (rule observe_download_present)
      (use cand ev in \<open>intro exI conjI, auto simp add: candidate_def full_evidence_def\<close>)
qed

section \<open>Observing a library that does not change\<close>

context library_source
begin

lemma pages_are_searched:
  assumes "0 \<le> off" and "off \<le> int (length lib)" and "int (length lib) < off + int n * lib_pageSize l"
  shows "fst (run_state (observe_pages n l src ex filename (\<lambda>_. False) off) s) =
    Some (case List.find (candidate ex filename) (drop (nat off) lib) of None \<Rightarrow> Inr absent | Some r \<Rightarrow> observe_download l r (dl r))"
  using assms
proof (induction n arbitrary: off s)
  case (Suc n)
  let ?l = "lib_pageSize l"
  let ?page = "take (nat ?l) (drop (nat off) lib)"
  have l: "0 < ?l"
    by (simp add: lib_pageSize_def)
  obtain more s1 where more: "run_state (so_ListROMs src \<lparr>pg_Limit = ?l, pg_Offset = off\<rparr>) s = (Inr (?page, more), s1)"
    "more \<Longrightarrow> off + ?l \<le> int (length lib)" "\<not> more \<Longrightarrow> int (length lib) \<le> off + ?l"
    using listing [OF l Suc.prems(1), of s] by (metis prod.collapse)
  have rest: "drop (nat off) lib = ?page @ drop (nat (off + ?l)) lib"
    by (rule page_and_rest) (use l Suc.prems(1) in simp_all)
  have found: "List.find P (xs @ ys) = (case List.find P xs of None \<Rightarrow> List.find P ys | Some r \<Rightarrow> Some r)" for P :: "ROMRecord \<Rightarrow> bool" and xs ys
    by (induction xs) auto
  show ?case
  proof (cases "List.find (candidate ex filename) ?page")
    case (Some r)
    then have "List.find (candidate ex filename) (drop (nat off) lib) = Some r"
      by (subst rest) (simp add: found)
    then show ?thesis
      using Some by (simp add: more(1) observeRecord_def case_prod_beta download)
  next
    case None
    then have same: "List.find (candidate ex filename) (drop (nat off) lib) = List.find (candidate ex filename) (drop (nat (off + ?l)) lib)"
      by (subst rest) (simp add: found)
    show ?thesis
    proof (cases more)
      case True
      then have page: "?page \<noteq> []" "int (length ?page) = ?l"
        using more(2) l Suc.prems(1) by (auto simp add: min_def)
      have "fst (run_state (observe_pages n l src ex filename (\<lambda>_. False) (off + ?l)) s1) =
          Some (case List.find (candidate ex filename) (drop (nat (off + ?l)) lib) of None \<Rightarrow> Inr absent | Some r \<Rightarrow> observe_download l r (dl r))"
        using Suc.IH [of "off + ?l"] Suc.prems l more(2) True by (simp add: algebra_simps)
      then show ?thesis
        unfolding same observe_pages.simps run_bind more(1) fst_conv snd_conv sum.case prod.case None option.case
        using page True by (simp del: take_eq_Nil)
    next
      case False
      then have "drop (nat (off + ?l)) lib = []"
        using more(3) by simp
      then show ?thesis
        unfolding same observe_pages.simps run_bind more(1) fst_conv snd_conv sum.case prod.case None option.case
        using False by (simp add: run_return)
    qed
  qed
qed simp

end

text \<open>What ingestion observes is what the library holds: over a server that lists fixed objects an
  observation ends within the pages the library has room for and one, whatever was requested
  before; its answer is that of the first record of the expected platform with the published name,
  downloaded and recomputed, and that nothing is there exactly when the whole library has no such
  record.\<close>

theorem observation_is_of_the_library:
  assumes "serves srv s objs dl" and "lb_Source l = Some (romm_source srv s)" and "filename \<noteq> ''''"
    and "int (length objs) < int pages * lib_pageSize l"
  shows "fst (run_state (Observe pages l filename ex (\<lambda>_. False)) sent) =
    Some (case List.find (candidate ex filename) (map recordFromObject objs) of
        None \<Rightarrow> Inr absent
      | Some r \<Rightarrow> observe_download l r (dl r))"
  using library_source.pages_are_searched [OF serves_library [OF assms(1)], of 0 pages l ex filename sent] assms(2-4)
  by (simp add: Observe_def)

definition sample_romm_library :: "((request list, source_error) Source) \<Rightarrow> (request list, source_error) RommLibrary" where
  "sample_romm_library src = \<lparr>lb_Source = Some src, lb_Hashes = image_hashes, lb_Zip = (\<lambda>_ _. Inl ''not a zip''),
     lb_Analyzer = None, lb_PageSize = 1\<rparr>"

definition stored_image :: "string \<Rightarrow> answer" where
  "stored_image p = Answered 200 (sample_image, None) (-1) None"

definition sample_arrival :: Expected where
  "sample_arrival = \<lparr>ex_Platform = ''genesis'', ex_FileID = ''fil_'' @ replicate 26 (CHR ''a''),
     ex_Canonical = DigestBytes image_hashes sample_image, ex_Reference = None\<rparr>"

lemma sample_fields: "\<not> isHashField ''platform_slug''" "\<not> isHashField ''fs_name''"
  by code_simp+

lemma sample_record: "recordFromObject sample_object =
    \<lparr>rec_ID = ''7'', rec_PlatformSlug = ''genesis'', rec_Name = '''', rec_FSName = ''Tetris.bin'', rec_FSSizeBytes = 0,
     rec_Hashes = [(''sha1_hash'', ''ab'')]\<rparr>"
  by (simp add: recordFromObject_def sample_object_def json_member_def List.map_filter_def sample_hash_fields sample_fields)

lemma sample_download: "library_download objs stored_image (recordFromObject sample_object) = Inr ((sample_image, None), -1)"
proof -
  have "substitutePath ''/api/roms/{id}/content/{file_name}'' [''7'', ''Tetris.bin''] = Inr ''/api/roms/7/content/Tetris.bin''"
    by code_simp
  then show ?thesis
    by (simp add: library_download_def Download_def Capability_def library_romm_def library_capability_def Stream_def
        library_server_def sample_record stored_image_def maxDownload_def DefaultMaxDownloadBytes_def)
qed

lemma sample_seen: "observe_download (sample_romm_library src) (recordFromObject sample_object) (Inr ((sample_image, None), -1)) =
    Inr \<lparr>ob_Present = True, ob_Platform = PlatformGenesis, ob_Canonical = DigestBytes image_hashes sample_image, ob_Name = ''''\<rparr>"
proof -
  have "Analyze image_hashes (\<lambda>_ _. Inl ''not a zip'') (lib_analyzer (sample_romm_library src)) \<lparr>pl_bytes = sample_image, pl_bad = None\<rparr>
      (length sample_image) ''Tetris.bin'' ''genesis'' = Inr sample_result"
    by (rule sample_analyzed) (simp_all add: lib_analyzer_def sample_romm_library_def PlatformGenesis_def)
  then show ?thesis
    by (simp add: observe_download_def readAllDeclared_def readAllLimited_def sample_romm_library_def sample_record sample_result_def)
qed

lemma observed_sample:
  "fst (run_state (Observe 2 (sample_romm_library (romm_source (library_server [sample_object] stored_image) library_romm))
      ''Tetris.bin'' sample_arrival (\<lambda>_. False)) []) =
    Some (Inr \<lparr>ob_Present = True, ob_Platform = PlatformGenesis, ob_Canonical = DigestBytes image_hashes sample_image, ob_Name = ''''\<rparr>)"
proof -
  let ?l = "sample_romm_library (romm_source (library_server [sample_object] stored_image) library_romm)"
  have cand: "candidate sample_arrival ''Tetris.bin'' (recordFromObject sample_object)"
    by (simp add: candidate_def sample_record sample_arrival_def)
  have l: "lb_Source ?l = Some (romm_source (library_server [sample_object] stored_image) library_romm)" "lib_pageSize ?l = 1"
    by (simp_all add: sample_romm_library_def lib_pageSize_def)
  show ?thesis
    using fixed_library.pages_are_searched [where off = 0 and n = 2 and l = ?l and ex = sample_arrival and filename = "''Tetris.bin''"
        and s = "[]" and objs = "[sample_object]" and files = stored_image] cand
    by (simp add: Observe_def l sample_download sample_seen)
qed

theorem observation_is_of_the_library_witness:
  "fst (run_state (Observe 2 (sample_romm_library (romm_source (library_server [sample_object] stored_image) library_romm))
      ''Tetris.bin'' sample_arrival (\<lambda>_. False)) []) =
    Some (Inr \<lparr>ob_Present = True, ob_Platform = PlatformGenesis, ob_Canonical = DigestBytes image_hashes sample_image, ob_Name = ''''\<rparr>)"
proof -
  let ?l = "sample_romm_library (romm_source (library_server [sample_object] stored_image) library_romm)"
  have "candidate sample_arrival ''Tetris.bin'' (recordFromObject sample_object)"
    by (simp add: candidate_def sample_record sample_arrival_def)
  moreover have "lb_Source ?l = Some (romm_source (library_server [sample_object] stored_image) library_romm)" "lib_pageSize ?l = 1"
    by (simp_all add: sample_romm_library_def lib_pageSize_def)
  ultimately show ?thesis
    using observation_is_of_the_library [OF library_serves, of ?l "[sample_object]" stored_image "''Tetris.bin''" 2 sample_arrival "[]"]
    by (simp add: sample_download sample_seen)
qed

lemma sample_arrival_valid: "expected_Validate sample_arrival = None"
proof -
  have "validate prefixFile (''fil_'' @ replicate 26 (CHR ''a'')) = None"
    by code_simp
  then show ?thesis
    by (simp add: expected_Validate_def sample_arrival_def image_digest numeral_eq_Suc)
qed

theorem match_was_read_back_witness:
  "\<exists>res e buf a. Await 1 \<lparr>rc_has_library = True, rc_Poll = 0, rc_Timeout = 0\<rparr> sample_arrival 0 (\<lambda>_. \<lparr>at_obs = Inr
      \<lparr>ob_Present = True, ob_Platform = PlatformGenesis, ob_Canonical = DigestBytes image_hashes sample_image, ob_Name = ''''\<rparr>,
      at_clock_err = 0, at_clock_elapsed = 0, at_clock_check = 0, at_done = False\<rparr>) = Some (Inr (res, e)) \<and>
    Analyze image_hashes (\<lambda>_ _. Inl ''not a zip'') (lib_analyzer (sample_romm_library (romm_source (library_server [sample_object]
      stored_image) library_romm))) \<lparr>pl_bytes = buf, pl_bad = None\<rparr> (length buf) ''Tetris.bin'' ''genesis'' = Inr a \<and>
    Compare (rs_Canonical a) (DigestBytes image_hashes sample_image) = (StrengthStrong, True)"
proof -
  let ?l = "sample_romm_library (romm_source (library_server [sample_object] stored_image) library_romm)"
  let ?o = "\<lparr>ob_Present = True, ob_Platform = PlatformGenesis, ob_Canonical = DigestBytes image_hashes sample_image, ob_Name = ''''\<rparr>"
  let ?env = "\<lambda>_ :: nat. \<lparr>at_obs = Inr ?o, at_clock_err = 0, at_clock_elapsed = 0, at_clock_check = 0, at_done = False\<rparr>"
  have same: "Compare (DigestBytes image_hashes sample_image) (DigestBytes image_hashes sample_image) = (StrengthStrong, True)"
    unfolding image_digest by code_simp
  have "d_SHA256 (DigestBytes image_hashes sample_image) \<noteq> ''''"
    by (simp add: image_digest numeral_eq_Suc)
  then have "classify sample_arrival ?o = Some (StateRommMatched, DetailMatched '''')"
    by (simp add: classify_def sample_arrival_def same PlatformGenesis_def strength_order)
  then have run: "\<exists>res e. Await 1 \<lparr>rc_has_library = True, rc_Poll = 0, rc_Timeout = 0\<rparr> sample_arrival 0 ?env = Some (Inr (res, e)) \<and>
      ar_State res = StateRommMatched"
    by (simp add: Await_def sample_arrival_valid await_step_def Let_def)
  then obtain res e where run: "Await 1 \<lparr>rc_has_library = True, rc_Poll = 0, rc_Timeout = 0\<rparr> sample_arrival 0 ?env = Some (Inr (res, e))"
    "ar_State res = StateRommMatched"
    by blast
  have seen: "\<exists>pages dn s x. fst (run_state (Observe pages ?l ''Tetris.bin'' sample_arrival dn) s) = Some x \<and>
      at_obs (?env k) = (case x of Inl e \<Rightarrow> Inl '''' | Inr o' \<Rightarrow> Inr o')" for k
    using observed_sample by (intro exI [of _ 2] exI [of _ "\<lambda>_. False"] exI [of _ "[]"] exI [of _ "Inr ?o"]) simp
  have "lb_Source ?l = Some (romm_source (library_server [sample_object] stored_image) library_romm)"
    "lb_Hashes ?l = image_hashes" "lb_Zip ?l = (\<lambda>_ _. Inl ''not a zip'')" "ex_Platform sample_arrival = ''genesis''"
    "ex_Canonical sample_arrival = DigestBytes image_hashes sample_image"
    by (simp_all add: sample_romm_library_def sample_arrival_def)
  note f = this
  show ?thesis
    using match_was_read_back [OF f(1) seen run] run(1) unfolding f by blast
qed

definition sample_uploader :: RommUploader where
  "sample_uploader = \<lparr>upl_Client = Some (NewClient ''http://romm/'' '''' None),
     upl_Report = Some ((new_report (connect_options ''http://romm/'' '''') 0)\<lparr>rp_Capabilities :=
       [library_capability ''roms.upload'' ''/api/roms/upload/start'']\<rparr>),
     upl_Platforms = Some \<lparr>pfs_bySlug = [''genesis'' \<mapsto> \<lparr>pt_ID = 4, pt_Slug = ''genesis'', pt_Name = ''''\<rparr>], pfs_all = []\<rparr>,
     upl_ChunkSize = 2\<rparr>"

text \<open>An upload API that accepts everything, or refuses the end of a session.\<close>

definition sample_api :: "int \<Rightarrow> upload_server" where
  "sample_api last_status sent q =
     (if has_suffix (upq_Path q) ''/complete'' then Answered last_status ([], None) 0 None
      else Answered 200 ([], None) (-1) (Some (JObj [(''upload_id'', JStr ''u1'')])))"

lemma sample_start: "dec_start '''' (JObj [(''upload_id'', JStr ''u1'')]) = Some ''u1''"
  by code_simp

lemma sample_upload: "\<exists>sent' e. run_state (Upload (sample_api st) sample_uploader (StagedFile \<lparr>pl_bytes = [1, 2, 3], pl_bad = None\<rparr>) ''t.bin''
    sample_arrival (\<lambda>_. False)) [] = (if st div 100 = 2 then None else Some e, sent') \<and> length sent' > 1"
proof -
  have caps: "Capability ((new_report (connect_options ''http://romm/'' '''') 0)\<lparr>rp_Capabilities :=
      [library_capability ''roms.upload'' ''/api/roms/upload/start'']\<rparr>) ''roms.upload'' =
      Inr (library_capability ''roms.upload'' ''/api/roms/upload/start'')"
    by (simp add: Capability_def library_capability_def)
  have base: "uploadPathBase ''/api/roms/upload/start'' = ''/api/roms/upload''"
    by code_simp
  have suffixes: "\<not> has_suffix ''/api/roms/upload/u1'' ''/complete''" "has_suffix ''/api/roms/upload/u1/complete'' ''/complete''"
    "\<not> has_suffix ''/api/roms/upload/u1/cancel'' ''/complete''" "\<not> has_suffix ''/api/roms/upload/start'' ''/complete''"
    by code_simp+
  have path: "cr_Path (library_capability ''roms.upload'' ''/api/roms/upload/start'') = ''/api/roms/upload/start''"
    by (simp add: library_capability_def)
  have sections: "NewSectionReader \<lparr>pl_bytes = [1, 2, 3], pl_bad = None\<rparr> 0 2 = ([1, 2], None)"
    "NewSectionReader \<lparr>pl_bytes = [1, 2, 3], pl_bad = None\<rparr> 2 (Suc 0) = ([3], None)"
    by (simp_all add: NewSectionReader_whole numeral_2_eq_2)
  have capped: "readCapped ([], None) = None"
    by (simp add: readCapped_def LimitReader_def)
  show ?thesis
    by (simp add: Upload_def sample_uploader_def LookupPlatform_def sample_arrival_def upload_chunkSize_def upload_start_def caps
        run_upload_call sample_api_def call_request_def suffixes path base capped start_answer_def sample_start sendChunks_def upload_loop.simps
        putChunk_def sections status_answer_def upload_complete_def upload_cancel_def Let_def run_return)
qed

theorem upload_sends_the_file_witness:
  "\<exists>sent' parts. run_state (Upload (sample_api 200) sample_uploader (StagedFile \<lparr>pl_bytes = [1, 2, 3], pl_bad = None\<rparr>) ''t.bin''
      sample_arrival (\<lambda>_. False)) [] = (None, sent') \<and> set parts \<subseteq> set sent' \<and> concat (map upq_Body parts) = [1, 2, 3]"
proof -
  obtain sent' where run: "run_state (Upload (sample_api 200) sample_uploader (StagedFile \<lparr>pl_bytes = [1, 2, 3], pl_bad = None\<rparr>) ''t.bin''
      sample_arrival (\<lambda>_. False)) [] = (None, sent')"
    using sample_upload [of 200] by auto
  then show ?thesis
    using upload_sends_the_file [OF run] by fastforce
qed


end
